theory Spec2Isabelle
  imports Complex_Main "HOL-Library.AList" "HOL-Library.Log_Nat"
begin

section \<open>JavaScript numbers and \<open>Number.prototype.toFixed\<close>\<close>

text \<open>
  A JavaScript number is an IEEE-754 binary64 value. The commands compute with counts
  (lengths of arrays and the counts the API reports) and with differences of two \<open>Date\<close>
  values (integers, in milliseconds), and with quotients, products and sums of those. The
  finite numbers are modelled as the rationals they denote, and every division,
  multiplication and addition whose exact result need not be a binary64 value is followed
  by \<open>double\<close>, the rounding of IEEE-754 arithmetic: to the nearest binary64 value, to the one
  with an even significand when two are equally near. Counts and their sums are natural
  numbers, and differences of timestamps are integers: JavaScript computes them exactly as
  long as they stay below \<open>2^53\<close>. Values of magnitude \<open>2^1024\<close> and more, which JavaScript
  turns into \<open>Infinity\<close>, do not come up from such counts and timestamps and have no
  counterpart here; no division of the commands has a divisor 0.

  For \<open>x > 0\<close>, \<open>exponent x\<close> is the integer \<open>e\<close> with \<open>2^e \<le> x < 2^(e+1)\<close>. The binary64
  values next to \<open>x\<close> are the multiples of \<open>ulp x\<close>, which is \<open>2^(e-52)\<close>, and \<open>2^(-1074)\<close> for the
  subnormal numbers below \<open>2^(-1022)\<close>.
\<close>

type_synonym js_number = rat

definition exponent :: "rat \<Rightarrow> int" where
  "exponent x =
     (let e = bitlen (fst (quotient_of x)) - bitlen (snd (quotient_of x))
      in if 2 powi e \<le> x then e else e - 1)"

definition roundTiesToEven :: "rat \<Rightarrow> int" where
  "roundTiesToEven y =
     (if y - of_int \<lfloor>y\<rfloor> < 1 / 2 then \<lfloor>y\<rfloor>
      else if 1 / 2 < y - of_int \<lfloor>y\<rfloor> then \<lfloor>y\<rfloor> + 1
      else if even \<lfloor>y\<rfloor> then \<lfloor>y\<rfloor> else \<lfloor>y\<rfloor> + 1)"

definition ulp :: "rat \<Rightarrow> rat" where
  "ulp x = 2 powi (max (exponent x) (- 1022) - 52)"

definition double :: "rat \<Rightarrow> js_number" where
  "double x =
     (if x = 0 then 0
      else sgn x * (of_int (roundTiesToEven (\<bar>x\<bar> / ulp \<bar>x\<bar>)) * ulp \<bar>x\<bar>))"

text \<open>
  \<open>x.toFixed(f)\<close> follows ECMAScript (Number.prototype.toFixed) for \<open>|x| < 10^21\<close>: the
  sign is split off, \<open>n\<close> is the integer for which \<open>n / 10^f - x\<close> is as close to zero as
  possible (the larger one when there are two), and the digits of \<open>n\<close> are printed with a
  decimal point before the last \<open>f\<close> digits, padded with zeros on the left. Here \<open>x\<close> is the
  exact value of the binary64 number.

  The integer \<open>n\<close> chosen by \<open>toFixed\<close> for a non-negative \<open>x\<close>:
\<close>

definition toFixed_n :: "js_number \<Rightarrow> nat \<Rightarrow> nat" where
  "toFixed_n x f = nat \<lfloor>x * 10 ^ f + 1 / 2\<rfloor>"

fun string_of_nat :: "nat \<Rightarrow> string" where
  "string_of_nat n =
     (if n < 10 then [char_of (48 + n)]
      else string_of_nat (n div 10) @ [char_of (48 + n mod 10)])"

definition toFixed :: "js_number \<Rightarrow> nat \<Rightarrow> string" where
  "toFixed x f =
     (let s = (if x < 0 then ''-'' else '''');
          m = string_of_nat (toFixed_n \<bar>x\<bar> f)
      in if f = 0 then s @ m
         else
           let m' = replicate (f + 1 - length m) (CHR ''0'') @ m;
               k = length m'
           in s @ take (k - f) m' @ ''.'' @ drop (k - f) m')"

text \<open>
  \<open>Number(x.toFixed(f))\<close>: the binary64 value nearest to the printed decimal. From
  \<open>10^21\<close> on \<open>toFixed\<close> prints the number as \<open>String\<close> does, and \<open>Number\<close> reads it back.
\<close>

definition Number_toFixed :: "js_number \<Rightarrow> nat \<Rightarrow> js_number" where
  "Number_toFixed x f =
     (if 10 ^ 21 \<le> \<bar>x\<bar> then x
      else if x < 0 then double (- (of_nat (toFixed_n \<bar>x\<bar> f) / 10 ^ f))
      else double (of_nat (toFixed_n \<bar>x\<bar> f) / 10 ^ f))"

section \<open>Records of the summary and user-stats commands\<close>

text \<open>
  An item of the Search API as the per-PR loop reads it. \<open>sr_comments\<close> is \<open>pr.comments\<close>
  (\<open>None\<close> when the field is missing); \<open>pull_request_merged_at\<close> is
  \<open>pr.pull_request?.merged_at\<close> (\<open>None\<close> when \<open>pull_request\<close> is missing or \<open>merged_at\<close>
  is null). A timestamp is the integer \<open>new Date(s).getTime()\<close> of its ISO string, in
  milliseconds.
\<close>

record search_item =
  sr_number :: nat
  sr_title :: string
  repository_url :: string
  sr_state :: string
  sr_comments :: "nat option"
  pull_request_merged_at :: "int option"
  created_at :: int
  closed_at :: "int option"
  html_url :: string

text \<open>
  \<open>prData\<close>, the record pushed to \<open>prDetails\<close>. The user-stats command adds a field
  \<open>commitCount\<close>; it is the extension \<open>commit_count\<close> of the record scheme.
\<close>

record pr_data =
  number :: nat
  title :: string
  repo :: string
  state :: string
  merged :: bool
  comments :: nat
  changesRequested :: nat
  timeToMerge :: "js_number option"
  createdAt :: int
  url :: string
  aiAssisted :: bool
  aiTools :: "string list"

record commit_count =
  commitCount :: nat

section \<open>Summary statistics over \<open>prDetails\<close>\<close>

text \<open>
  The block \<open>// Calculate summaries\<close> of \<open>summary\<close> and \<open>userStats\<close>, one definition per
  \<open>const\<close> of the source.
\<close>

definition mergedPRs_list :: "('e pr_data_scheme) list \<Rightarrow> ('e pr_data_scheme) list" where
  "mergedPRs_list prDetails = filter (\<lambda>pr. merged pr) prDetails"

definition openPRs_list :: "('e pr_data_scheme) list \<Rightarrow> ('e pr_data_scheme) list" where
  "openPRs_list prDetails = filter (\<lambda>pr. state pr = ''open'') prDetails"

definition closedPRs_list :: "('e pr_data_scheme) list \<Rightarrow> ('e pr_data_scheme) list" where
  "closedPRs_list prDetails = filter (\<lambda>pr. state pr = ''closed'' \<and> \<not> merged pr) prDetails"

definition totalComments_of :: "('e pr_data_scheme) list \<Rightarrow> nat" where
  "totalComments_of prDetails = foldl (\<lambda>sum pr. sum + comments pr) 0 prDetails"

definition totalChangesRequested_of :: "('e pr_data_scheme) list \<Rightarrow> nat" where
  "totalChangesRequested_of prDetails = foldl (\<lambda>sum pr. sum + changesRequested pr) 0 prDetails"

definition mergeTimes_of :: "('e pr_data_scheme) list \<Rightarrow> js_number list" where
  "mergeTimes_of prDetails =
     map the (filter (\<lambda>t. t \<noteq> None) (map timeToMerge (mergedPRs_list prDetails)))"

definition avgTimeToMerge_of :: "('e pr_data_scheme) list \<Rightarrow> js_number" where
  "avgTimeToMerge_of prDetails =
     (let mergeTimes = mergeTimes_of prDetails
      in if length mergeTimes > 0
         then Number_toFixed
                (double (foldl (\<lambda>a b. double (a + b)) 0 mergeTimes
                           / of_nat (length mergeTimes))) 2
         else 0)"

definition aiAssistedPRs_list :: "('e pr_data_scheme) list \<Rightarrow> ('e pr_data_scheme) list" where
  "aiAssistedPRs_list prDetails = filter (\<lambda>pr. aiAssisted pr) prDetails"

text \<open>
  \<open>obj[k] = (obj[k] || 0) + 1\<close> on an object used as a counter table.
\<close>

definition count_up :: "('k \<rightharpoonup> nat) \<Rightarrow> 'k \<Rightarrow> ('k \<rightharpoonup> nat)" where
  "count_up obj k = obj(k \<mapsto> (case obj k of None \<Rightarrow> 0 | Some v \<Rightarrow> v) + 1)"

definition aiToolsCount_of :: "('e pr_data_scheme) list \<Rightarrow> (string \<rightharpoonup> nat)" where
  "aiToolsCount_of prDetails =
     foldl (\<lambda>obj pr. foldl count_up obj (aiTools pr)) Map.empty (aiAssistedPRs_list prDetails)"

definition changesRequestedDistribution_of :: "('e pr_data_scheme) list \<Rightarrow> (nat \<rightharpoonup> nat)" where
  "changesRequestedDistribution_of prDetails =
     foldl (\<lambda>obj pr. count_up obj (changesRequested pr)) Map.empty prDetails"

text \<open>
  The PR part of \<open>result.summary\<close>. \<open>changesRequestedDistribution\<close> is present in the two
  later versions of the summary command only.
\<close>

record pr_summary =
  totalPRs :: nat
  mergedPRs :: nat
  openPRs :: nat
  closedPRs :: nat
  totalComments :: nat
  avgCommentsPerPR :: js_number
  totalChangesRequested :: nat
  avgChangesRequestedPerPR :: js_number
  avgTimeToMerge :: js_number
  aiAssistedPRs :: nat
  aiAssistedPercentage :: js_number
  aiToolsBreakdown :: "string \<rightharpoonup> nat"
  changesRequestedDistribution :: "nat \<rightharpoonup> nat"

definition summary_of :: "('e pr_data_scheme) list \<Rightarrow> pr_summary" where
  "summary_of prDetails =
     \<lparr> totalPRs = length prDetails,
       mergedPRs = length (mergedPRs_list prDetails),
       openPRs = length (openPRs_list prDetails),
       closedPRs = length (closedPRs_list prDetails),
       totalComments = totalComments_of prDetails,
       avgCommentsPerPR =
         (if length prDetails > 0
          then Number_toFixed
                 (double (of_nat (totalComments_of prDetails) / of_nat (length prDetails))) 2
          else 0),
       totalChangesRequested = totalChangesRequested_of prDetails,
       avgChangesRequestedPerPR =
         (if length prDetails > 0
          then Number_toFixed
                 (double (of_nat (totalChangesRequested_of prDetails) / of_nat (length prDetails))) 2
          else 0),
       avgTimeToMerge = avgTimeToMerge_of prDetails,
       aiAssistedPRs = length (aiAssistedPRs_list prDetails),
       aiAssistedPercentage =
         (if length prDetails > 0
          then Number_toFixed
                 (double (double (of_nat (length (aiAssistedPRs_list prDetails))
                                    / of_nat (length prDetails)) * 100)) 1
          else 0),
       aiToolsBreakdown = aiToolsCount_of prDetails,
       changesRequestedDistribution = changesRequestedDistribution_of prDetails \<rparr>"

text \<open>
  The clean-PR line of \<open>formatSummaryTable\<close> and \<open>exportToCSV\<close>:
  \<open>totalPRs = data.summary.totalPRs || 1\<close>, \<open>cleanPRs = dist['0'] || 0\<close> and
  \<open>cleanPct = ((cleanPRs / totalPRs) * 100).toFixed(1)\<close>.
\<close>

definition cleanPRs_of :: "pr_summary \<Rightarrow> nat" where
  "cleanPRs_of s = (case changesRequestedDistribution s 0 of None \<Rightarrow> 0 | Some v \<Rightarrow> v)"

definition cleanPct :: "pr_summary \<Rightarrow> string" where
  "cleanPct s =
     (let totalPRs' = (if totalPRs s = 0 then 1 else totalPRs s)
      in toFixed (double (double (of_nat (cleanPRs_of s) / of_nat totalPRs') * 100)) 1)"

section \<open>AI co-authorship detection\<close>

text \<open>
  A commit message is a JavaScript string: a list of UTF-16 code units. The patterns of
  \<open>detectAICoAuthorship\<close> are regular expressions with the flag \<open>i\<close> and no flag \<open>s\<close> or
  \<open>u\<close>: a literal matches a code unit when both have the same canonical form, \<open>.\<close>
  matches every code unit but the line terminators (LF, CR, U+2028, U+2029), and
  \<open>pattern.test(s)\<close> looks for a match starting at any index of \<open>s\<close>. All literals of the
  patterns are ASCII; the canonical form of an ASCII letter is its upper case, and a code
  unit from 128 on never has an ASCII canonical form, so it is left as it is here.
\<close>

type_synonym js_string = "nat list"

definition js :: "string \<Rightarrow> js_string" where
  "js s = map of_char s"

definition canonicalize :: "nat \<Rightarrow> nat" where
  "canonicalize c = (if 97 \<le> c \<and> c \<le> 122 then c - 32 else c)"

definition isLineTerminator :: "nat \<Rightarrow> bool" where
  "isLineTerminator c = (c = 10 \<or> c = 13 \<or> c = 8232 \<or> c = 8233)"

datatype regex =
    Eps
  | Lit nat
  | Dot
  | DotStar
  | Seq regex regex
  | Alt regex regex

text \<open>
  \<open>DotStar\<close> is \<open>.*\<close>, the only repetition in the patterns. \<open>dotStar_rests s\<close> lists what
  can be left of \<open>s\<close> after \<open>.*\<close> has consumed a prefix of it, and \<open>rests r s\<close> what can be
  left of \<open>s\<close> after \<open>r\<close> has matched a prefix of it.
\<close>

fun dotStar_rests :: "js_string \<Rightarrow> js_string list" where
  "dotStar_rests [] = [[]]"
| "dotStar_rests (c # cs) = (c # cs) # (if isLineTerminator c then [] else dotStar_rests cs)"

fun rests :: "regex \<Rightarrow> js_string \<Rightarrow> js_string list" where
  "rests Eps s = [s]"
| "rests (Lit a) s =
     (case s of [] \<Rightarrow> [] | c # cs \<Rightarrow> if canonicalize a = canonicalize c then [cs] else [])"
| "rests Dot s = (case s of [] \<Rightarrow> [] | c # cs \<Rightarrow> if isLineTerminator c then [] else [cs])"
| "rests DotStar s = dotStar_rests s"
| "rests (Seq r1 r2) s = concat (map (rests r2) (rests r1 s))"
| "rests (Alt r1 r2) s = rests r1 s @ rests r2 s"

text \<open>Whether the pattern matches some prefix of the input.\<close>

definition matches_prefix :: "regex \<Rightarrow> js_string \<Rightarrow> bool" where
  "matches_prefix r s = (rests r s \<noteq> [])"

text \<open>\<open>pattern.test(s)\<close>: a match starting at index 0, or at a later index.\<close>

fun regex_test :: "regex \<Rightarrow> js_string \<Rightarrow> bool" where
  "regex_test r [] = matches_prefix r []"
| "regex_test r (c # cs) = (matches_prefix r (c # cs) \<or> regex_test r cs)"

definition lits :: "string \<Rightarrow> regex" where
  "lits s = foldr (\<lambda>c r. Seq (Lit (of_char c)) r) s Eps"

text \<open>\<open>/co-authored-by:.*tool/i\<close>\<close>

definition coAuthoredBy :: "string \<Rightarrow> regex" where
  "coAuthoredBy tool = Seq (lits ''co-authored-by:'') (Seq DotStar (lits tool))"

definition aiPatterns :: "(regex \<times> string) list" where
  "aiPatterns =
     [ (coAuthoredBy ''claude'', ''Claude''),
       (coAuthoredBy ''anthropic'', ''Claude''),
       (coAuthoredBy ''copilot'', ''GitHub Copilot''),
       (coAuthoredBy ''openai'', ''OpenAI''),
       (coAuthoredBy ''chatgpt'', ''ChatGPT''),
       (coAuthoredBy ''cursor'', ''Cursor''),
       (Alt (lits ''[ai]'') (Alt (lits ''[ai-generated]'') (Alt (lits ''[copilot]'') (lits ''[claude]''))),
        ''AI (tagged)'') ]"

record detection =
  isAIAssisted :: bool
  detected_aiTools :: "string list"

fun detect_step :: "js_string \<Rightarrow> string list \<Rightarrow> regex \<times> string \<Rightarrow> string list" where
  "detect_step commitMessage detectedTools (pattern, tool) =
     (if regex_test pattern commitMessage
      then (if tool \<in> set detectedTools then detectedTools else detectedTools @ [tool])
      else detectedTools)"

definition detectAICoAuthorship :: "js_string \<Rightarrow> detection" where
  "detectAICoAuthorship commitMessage =
     (let detectedTools = foldl (detect_step commitMessage) [] aiPatterns
      in \<lparr> isAIAssisted = length detectedTools > 0, detected_aiTools = detectedTools \<rparr>)"

text \<open>
  The loop \<open>for (const commit of commits)\<close> of the per-PR block. \<open>aiToolsUsed\<close> is a
  \<open>Set\<close>: it keeps the order of insertion and \<open>add\<close> leaves a member where it is.
\<close>

record commit =
  commit_message :: js_string

definition set_add :: "'a list \<Rightarrow> 'a \<Rightarrow> 'a list" where
  "set_add s x = (if x \<in> set s then s else s @ [x])"

fun ai_step :: "bool \<times> string list \<Rightarrow> commit \<Rightarrow> bool \<times> string list" where
  "ai_step (aiAssisted', aiToolsUsed) c =
     (if isAIAssisted (detectAICoAuthorship (commit_message c))
      then (True, foldl set_add aiToolsUsed (detected_aiTools (detectAICoAuthorship (commit_message c))))
      else (aiAssisted', aiToolsUsed))"

definition detect_commits :: "commit list \<Rightarrow> bool \<times> string list" where
  "detect_commits commits = foldl ai_step (False, []) commits"

section \<open>The remote API\<close>

text \<open>
  Octokit is the third-party client of the GitHub REST and Search API. A call either
  rejects with an error or resolves with the data of the response. The remote side is a
  parameter of the model: a record with one function per endpoint the commands use, from
  the request to its outcome. A \<open>request\<close> holds the endpoint and the parameters the
  source passes (for the paged endpoints: \<open>per_page\<close> and \<open>page\<close>, last).
\<close>

datatype api_error = ApiError string

datatype request =
    PullsList string string string nat nat
  | PullsGet string string nat
  | IssuesListComments string string nat nat
  | PullsListReviewComments string string nat nat
  | PullsListReviews string string nat nat
  | PullsListCommits string string nat nat
  | SearchCommits string nat nat
  | SearchIssuesAndPullRequests string nat nat
  | ActivityListPublicEventsForUser string nat nat
  | ReposGetContributorsStats string string

record review =
  review_user_login :: string
  review_state :: string

record comment =
  comment_user_login :: string

text \<open>An item of \<open>pulls.list\<close>, with the fields the client reads.\<close>

record pull =
  pull_number :: nat
  pull_user_login :: string
  pull_created_at :: int

text \<open>The data of \<open>pulls.get\<close>; \<open>None\<close> is \<open>null\<close>.\<close>

record pull_details =
  pd_number :: nat
  pd_title :: string
  pd_state :: string
  pd_user_login :: string
  pd_created_at :: int
  pd_merged_at :: "int option"
  pd_closed_at :: "int option"
  pd_html_url :: string
  pd_additions :: nat
  pd_deletions :: nat
  pd_changed_files :: nat

record search_commit =
  sha :: string

record user_event =
  event_id :: string

record contributor_stat =
  cs_author_login :: string
  cs_total :: nat
  cs_weeks :: "(nat \<times> nat) list"

record octokit =
  pulls_list :: "request \<Rightarrow> api_error + pull list"
  pulls_get :: "request \<Rightarrow> api_error + pull_details"
  issues_listComments :: "request \<Rightarrow> api_error + comment list"
  pulls_listReviewComments :: "request \<Rightarrow> api_error + comment list"
  pulls_listReviews :: "request \<Rightarrow> api_error + review list"
  pulls_listCommits :: "request \<Rightarrow> api_error + commit list"
  search_commits :: "request \<Rightarrow> api_error + search_commit list"
  search_issuesAndPullRequests :: "request \<Rightarrow> api_error + search_item list"
  activity_listPublicEventsForUser :: "request \<Rightarrow> api_error + user_event list"
  repos_getContributorsStats :: "request \<Rightarrow> api_error + contributor_stat list option"

text \<open>
  \<open>new GitHubClient(token)\<close>. \<open>!token\<close> holds for \<open>undefined\<close> and for the empty string.
  \<open>new Octokit({ auth: token })\<close> is the remote side as that token sees it.
\<close>

definition falsy :: "string option \<Rightarrow> bool" where
  "falsy v = (v = None \<or> v = Some [])"

definition GitHubClient :: "(string \<Rightarrow> octokit) \<Rightarrow> string option \<Rightarrow> string + octokit" where
  "GitHubClient remote token =
     (if falsy token
      then Inl ''GitHub token is required. Set GITHUB_TOKEN env var or use --token flag''
      else Inr (remote (the token)))"

text \<open>\<open>a || b\<close> on optional strings.\<close>

definition or_else :: "string option \<Rightarrow> string option \<Rightarrow> string option" where
  "or_else a b = (if falsy a then b else a)"

text \<open>
  \<open>Promise.all\<close> of three calls: all three are issued, and the result is the three data
  when every call resolves. When one rejects the caller only learns that it failed.
\<close>

definition promise_all3 ::
  "api_error + 'a \<Rightarrow> api_error + 'b \<Rightarrow> api_error + 'c \<Rightarrow> api_error + 'a \<times> 'b \<times> 'c" where
  "promise_all3 a b c =
     (case a of Inl e \<Rightarrow> Inl e
      | Inr x \<Rightarrow> (case b of Inl e \<Rightarrow> Inl e
          | Inr y \<Rightarrow> (case c of Inl e \<Rightarrow> Inl e | Inr z \<Rightarrow> Inr (x, y, z))))"

section \<open>The per-PR loop of the summary and user-stats commands\<close>

text \<open>
  \<open>s.split('/')\<close>, and \<open>parts[i]\<close> as a template literal prints it: the text
  \<open>undefined\<close> when there is no such part. The requests get the same text for \<open>owner\<close>
  and \<open>repo\<close>.
\<close>

fun split_on :: "char \<Rightarrow> string \<Rightarrow> string list" where
  "split_on sep [] = [[]]"
| "split_on sep (c # cs) =
     (if c = sep then [] # split_on sep cs
      else (case split_on sep cs of [] \<Rightarrow> [[c]] | p # ps \<Rightarrow> (c # p) # ps))"

definition part_at :: "string list \<Rightarrow> int \<Rightarrow> string" where
  "part_at parts i =
     (if 0 \<le> i \<and> i < int (length parts) then parts ! nat i else ''undefined'')"

record repo_stats =
  rs_repo :: string
  rs_totalPRs :: nat
  rs_mergedPRs :: nat
  rs_totalComments :: nat
  rs_changesRequested :: nat
  mergeTimesSum :: js_number
  mergeTimesCount :: nat

text \<open>
  The state the loop works on: the two collections it fills, the characters written by
  \<open>process.stdout.write\<close>, and the requests issued so far. \<open>repoMap\<close> is a \<open>Map\<close>: an
  association list in the order of first insertion.
\<close>

record 'e loop_state =
  prDetails :: "'e pr_data_scheme list"
  repoMap :: "(string \<times> repo_stats) list"
  stdout :: string
  requests :: "request list"

definition timeToMerge_item :: "search_item \<Rightarrow> js_number option" where
  "timeToMerge_item pr =
     (case pull_request_merged_at pr of
        None \<Rightarrow> None
      | Some merged' \<Rightarrow>
          Some (Number_toFixed
                  (double (of_int (merged' - created_at pr) / (1000 * 60 * 60 * 24))) 2))"

definition make_prData ::
  "(commit list \<Rightarrow> 'e) \<Rightarrow> search_item \<Rightarrow> string \<Rightarrow> review list \<Rightarrow> comment list \<Rightarrow> commit list
   \<Rightarrow> 'e pr_data_scheme" where
  "make_prData ext pr repoFullName reviews comments_data commits =
     \<lparr> number = sr_number pr,
       title = sr_title pr,
       repo = repoFullName,
       state = sr_state pr,
       merged = (pull_request_merged_at pr \<noteq> None),
       comments = length comments_data + (case sr_comments pr of None \<Rightarrow> 0 | Some n \<Rightarrow> n),
       changesRequested = length (filter (\<lambda>r. review_state r = ''CHANGES_REQUESTED'') reviews),
       timeToMerge = timeToMerge_item pr,
       createdAt = created_at pr,
       url = html_url pr,
       aiAssisted = fst (detect_commits commits),
       aiTools = snd (detect_commits commits),
       \<dots> = ext commits \<rparr>"

definition new_repo_stats :: "string \<Rightarrow> repo_stats" where
  "new_repo_stats repoFullName =
     \<lparr> rs_repo = repoFullName, rs_totalPRs = 0, rs_mergedPRs = 0, rs_totalComments = 0,
       rs_changesRequested = 0, mergeTimesSum = 0, mergeTimesCount = 0 \<rparr>"

text \<open>
  The updates of \<open>repoStats\<close>, in the order of the source. \<open>if (timeToMerge)\<close> holds for a
  number other than 0.
\<close>

definition aggregate :: "'e pr_data_scheme \<Rightarrow> repo_stats \<Rightarrow> repo_stats" where
  "aggregate prData repoStats =
     (let r1 = repoStats\<lparr>rs_totalPRs := rs_totalPRs repoStats + 1\<rparr>;
          r2 = (if merged prData then r1\<lparr>rs_mergedPRs := rs_mergedPRs r1 + 1\<rparr> else r1);
          r3 = r2\<lparr>rs_totalComments := rs_totalComments r2 + comments prData\<rparr>;
          r4 = r3\<lparr>rs_changesRequested := rs_changesRequested r3 + changesRequested prData\<rparr>
      in case timeToMerge prData of
           None \<Rightarrow> r4
         | Some t \<Rightarrow>
             if t \<noteq> 0
             then r4\<lparr>mergeTimesSum := double (mergeTimesSum r4 + t),
                     mergeTimesCount := mergeTimesCount r4 + 1\<rparr>
             else r4)"

text \<open>
  \<open>if (!repoMap.has(name)) repoMap.set(name, {...})\<close>, then the updates on
  \<open>repoMap.get(name)\<close>: a new key goes to the end, a known key keeps its place.
\<close>

definition update_repoMap ::
  "'e pr_data_scheme \<Rightarrow> (string \<times> repo_stats) list \<Rightarrow> (string \<times> repo_stats) list" where
  "update_repoMap prData m =
     (case map_of m (repo prData) of
        None \<Rightarrow> m @ [(repo prData, aggregate prData (new_repo_stats (repo prData)))]
      | Some repoStats \<Rightarrow> AList.update (repo prData) (aggregate prData repoStats) m)"

text \<open>
  One round of \<open>for (const pr of prs)\<close>. The three calls are issued together; when one of
  them rejects, the \<open>catch\<close> block writes \<open>x\<close> and the loop goes on.
\<close>

definition repo_owner :: "search_item \<Rightarrow> string" where
  "repo_owner pr =
     (let urlParts = split_on (CHR ''/'') (repository_url pr)
      in part_at urlParts (int (length urlParts) - 2))"

definition repo_name :: "search_item \<Rightarrow> string" where
  "repo_name pr =
     (let urlParts = split_on (CHR ''/'') (repository_url pr)
      in part_at urlParts (int (length urlParts) - 1))"

definition pr_requests :: "search_item \<Rightarrow> request list" where
  "pr_requests pr =
     [ PullsListReviews (repo_owner pr) (repo_name pr) (sr_number pr) 100,
       IssuesListComments (repo_owner pr) (repo_name pr) (sr_number pr) 100,
       PullsListCommits (repo_owner pr) (repo_name pr) (sr_number pr) 100 ]"

definition fetch_pr :: "octokit \<Rightarrow> search_item \<Rightarrow> api_error + review list \<times> comment list \<times> commit list" where
  "fetch_pr oct pr =
     promise_all3
       (pulls_listReviews oct (PullsListReviews (repo_owner pr) (repo_name pr) (sr_number pr) 100))
       (issues_listComments oct (IssuesListComments (repo_owner pr) (repo_name pr) (sr_number pr) 100))
       (pulls_listCommits oct (PullsListCommits (repo_owner pr) (repo_name pr) (sr_number pr) 100))"

definition process_pr ::
  "(commit list \<Rightarrow> 'e) \<Rightarrow> octokit \<Rightarrow> 'e loop_state \<Rightarrow> search_item \<Rightarrow> 'e loop_state" where
  "process_pr ext oct st pr =
     (case fetch_pr oct pr of
        Inl err \<Rightarrow>
          st\<lparr>stdout := stdout st @ ''x'', requests := requests st @ pr_requests pr\<rparr>
      | Inr (reviews, comments_data, commits) \<Rightarrow>
          st\<lparr>prDetails := prDetails st @
                  [make_prData ext pr (repo_owner pr @ ''/'' @ repo_name pr)
                     reviews comments_data commits],
              repoMap := update_repoMap
                  (make_prData ext pr (repo_owner pr @ ''/'' @ repo_name pr)
                     reviews comments_data commits) (repoMap st),
              stdout := stdout st @ ''.'',
              requests := requests st @ pr_requests pr\<rparr>)"

definition process_prs ::
  "(commit list \<Rightarrow> 'e) \<Rightarrow> octokit \<Rightarrow> search_item list \<Rightarrow> 'e loop_state" where
  "process_prs ext oct prs =
     foldl (process_pr ext oct)
       \<lparr>prDetails = [], repoMap = [], stdout = [], requests = []\<rparr> prs"

section \<open>Paginated fetches of the client\<close>

text \<open>
  Every paginated fetch of \<open>GitHubClient\<close> is the same loop: \<open>page\<close> starts at 1 and
  \<open>hasMore\<close> at \<open>true\<close>; a round requests one page (with \<open>per_page: 100\<close>), appends the
  items it keeps and sets \<open>hasMore = (length of the page === 100)\<close>. A call that rejects ends
  the fetch with the error. The fetches differ in the condition of the \<open>while\<close>:
  \<open>fetchUserCommits\<close>, \<open>fetchUserPRsAcrossRepos\<close> and \<open>fetchUserIssuesAcrossRepos\<close> loop
  \<open>while (hasMore && page <= 10)\<close>, \<open>fetchUserEvents\<close> loops
  \<open>while (hasMore && page <= 3)\<close>, and \<open>fetchUserPRs\<close> and \<open>fetchRepoPRs\<close> loop
  \<open>while (hasMore)\<close>.

  \<open>mk page\<close> is the request of a page, \<open>call\<close> the endpoint and \<open>keep\<close> the filter applied
  to the items of a page. The result is the requests issued, in order, and the outcome.
\<close>

function capped_loop ::
  "nat \<Rightarrow> (nat \<Rightarrow> request) \<Rightarrow> (request \<Rightarrow> api_error + 'a list) \<Rightarrow> ('a list \<Rightarrow> 'a list)
   \<Rightarrow> nat \<Rightarrow> bool \<Rightarrow> 'a list \<Rightarrow> request list \<Rightarrow> request list \<times> (api_error + 'a list)" where
  "capped_loop cap mk call keep page hasMore items sent =
     (if hasMore \<and> page \<le> cap
      then (case call (mk page) of
              Inl err \<Rightarrow> (sent @ [mk page], Inl err)
            | Inr data \<Rightarrow>
                capped_loop cap mk call keep (page + 1) (length data = 100)
                  (items @ keep data) (sent @ [mk page]))
      else (sent, Inr items))"
  by pat_completeness auto
termination
  by (relation "measure (\<lambda>(cap, mk, call, keep, page, hasMore, items, sent). cap + 1 - page)") auto

text \<open>
  The loop without a bound on \<open>page\<close> need not end: its result is \<open>None\<close> when it runs
  forever.
\<close>

partial_function (option) uncapped_loop ::
  "(nat \<Rightarrow> request) \<Rightarrow> (request \<Rightarrow> api_error + 'a list) \<Rightarrow> ('a list \<Rightarrow> 'a list)
   \<Rightarrow> nat \<Rightarrow> bool \<Rightarrow> 'a list \<Rightarrow> request list \<Rightarrow> (request list \<times> (api_error + 'a list)) option" where
  "uncapped_loop mk call keep page hasMore items sent =
     (if hasMore
      then (case call (mk page) of
              Inl err \<Rightarrow> Some (sent @ [mk page], Inl err)
            | Inr data \<Rightarrow>
                uncapped_loop mk call keep (page + 1) (length data = 100)
                  (items @ keep data) (sent @ [mk page]))
      else Some (sent, Inr items))"

text \<open>Whether the request of page \<open>p\<close> is answered by a page of exactly 100 items.\<close>

definition full_page :: "(nat \<Rightarrow> request) \<Rightarrow> (request \<Rightarrow> api_error + 'a list) \<Rightarrow> nat \<Rightarrow> bool" where
  "full_page mk call p = (case call (mk p) of Inl err \<Rightarrow> False | Inr data \<Rightarrow> length data = 100)"

text \<open>
  The options of a fetch. \<open>since\<close> and \<open>until\<close> are the texts given on the command line;
  where the client compares dates it parses them with \<open>new Date\<close>, which is the parameter
  \<open>date\<close> below.
\<close>

record fetch_options =
  opt_state :: "string option"
  opt_since :: "string option"
  opt_until :: "string option"
  opt_org :: "string option"
  opt_repo :: "string option"

definition date_filter :: "(string \<Rightarrow> int) \<Rightarrow> fetch_options \<Rightarrow> pull list \<Rightarrow> pull list" where
  "date_filter date options prs =
     (let prs1 = (if falsy (opt_since options) then prs
                  else filter (\<lambda>pr. pull_created_at pr \<ge> date (the (opt_since options))) prs)
      in if falsy (opt_until options) then prs1
         else filter (\<lambda>pr. pull_created_at pr \<le> date (the (opt_until options))) prs1)"

definition state_or_all :: "fetch_options \<Rightarrow> string" where
  "state_or_all options = (if falsy (opt_state options) then ''all'' else the (opt_state options))"

definition fetchUserPRs ::
  "(string \<Rightarrow> int) \<Rightarrow> octokit \<Rightarrow> string \<Rightarrow> string \<Rightarrow> string \<Rightarrow> fetch_options
   \<Rightarrow> (request list \<times> (api_error + pull list)) option" where
  "fetchUserPRs date oct owner repo' username options =
     uncapped_loop (\<lambda>page. PullsList owner repo' (state_or_all options) 100 page)
       (pulls_list oct)
       (\<lambda>data. date_filter date options (filter (\<lambda>pr. pull_user_login pr = username) data))
       1 True [] []"

definition fetchRepoPRs ::
  "(string \<Rightarrow> int) \<Rightarrow> octokit \<Rightarrow> string \<Rightarrow> string \<Rightarrow> fetch_options
   \<Rightarrow> (request list \<times> (api_error + pull list)) option" where
  "fetchRepoPRs date oct owner repo' options =
     uncapped_loop (\<lambda>page. PullsList owner repo' (state_or_all options) 100 page)
       (pulls_list oct) (date_filter date options) 1 True [] []"

text \<open>
  The search queries, built by appending qualifiers. \<open>trim\<close> removes the ASCII white
  space at both ends.
\<close>

definition qualifier :: "string \<Rightarrow> string option \<Rightarrow> string" where
  "qualifier prefix v = (if falsy v then [] else prefix @ the v)"

fun join :: "string \<Rightarrow> string list \<Rightarrow> string" where
  "join sep [] = []"
| "join sep [x] = x"
| "join sep (x # y # ys) = x @ sep @ join sep (y # ys)"

definition isWhiteSpace :: "char \<Rightarrow> bool" where
  "isWhiteSpace c = (c \<in> set [CHR '' '', CHR 0x09, CHR 0x0A, CHR 0x0B, CHR 0x0C, CHR 0x0D])"

definition trim :: "string \<Rightarrow> string" where
  "trim s = rev (dropWhile isWhiteSpace (rev (dropWhile isWhiteSpace s)))"

definition org_qualifier :: "string option \<Rightarrow> string" where
  "org_qualifier org =
     (if falsy org then []
      else '' ('' @ join '' '' (map (\<lambda>o'. ''org:'' @ o') (map trim (split_on (CHR '','') (the org)))) @ '')'')"

definition commits_query :: "string \<Rightarrow> fetch_options \<Rightarrow> string" where
  "commits_query username options =
     ''author:'' @ username @ qualifier '' committer-date:>='' (opt_since options)
       @ qualifier '' committer-date:<='' (opt_until options)"

definition prs_query :: "string \<Rightarrow> fetch_options \<Rightarrow> string" where
  "prs_query username options =
     ''author:'' @ username @ '' is:pr'' @ org_qualifier (opt_org options)
       @ qualifier '' repo:'' (opt_repo options)
       @ qualifier '' created:>='' (opt_since options)
       @ qualifier '' created:<='' (opt_until options)
       @ (if opt_state options = Some ''merged'' then '' is:merged''
          else if opt_state options = Some ''open'' then '' is:open''
          else if opt_state options = Some ''closed'' then '' is:closed''
          else [])"

definition issues_query :: "string \<Rightarrow> fetch_options \<Rightarrow> string" where
  "issues_query username options =
     ''author:'' @ username @ '' is:issue'' @ org_qualifier (opt_org options)
       @ qualifier '' created:>='' (opt_since options)
       @ qualifier '' created:<='' (opt_until options)"

definition fetchUserCommits ::
  "octokit \<Rightarrow> string \<Rightarrow> fetch_options \<Rightarrow> request list \<times> (api_error + search_commit list)" where
  "fetchUserCommits oct username options =
     capped_loop 10 (\<lambda>page. SearchCommits (commits_query username options) 100 page)
       (search_commits oct) (\<lambda>data. data) 1 True [] []"

definition fetchUserEvents ::
  "octokit \<Rightarrow> string \<Rightarrow> request list \<times> (api_error + user_event list)" where
  "fetchUserEvents oct username =
     capped_loop 3 (\<lambda>page. ActivityListPublicEventsForUser username 100 page)
       (activity_listPublicEventsForUser oct) (\<lambda>data. data) 1 True [] []"

definition fetchUserPRsAcrossRepos ::
  "octokit \<Rightarrow> string \<Rightarrow> fetch_options \<Rightarrow> request list \<times> (api_error + search_item list)" where
  "fetchUserPRsAcrossRepos oct username options =
     capped_loop 10 (\<lambda>page. SearchIssuesAndPullRequests (prs_query username options) 100 page)
       (search_issuesAndPullRequests oct) (\<lambda>data. data) 1 True [] []"

definition fetchUserIssuesAcrossRepos ::
  "octokit \<Rightarrow> string \<Rightarrow> fetch_options \<Rightarrow> request list \<times> (api_error + search_item list)" where
  "fetchUserIssuesAcrossRepos oct username options =
     capped_loop 10 (\<lambda>page. SearchIssuesAndPullRequests (issues_query username options) 100 page)
       (search_issuesAndPullRequests oct) (\<lambda>data. data) 1 True [] []"

section \<open>The pr command: metrics of one PR\<close>

text \<open>\<open>fetchPRDetails\<close>: five calls issued together.\<close>

record pr_fetch =
  pr :: pull_details
  issueComments :: "comment list"
  reviewComments :: "comment list"
  reviews :: "review list"
  commits :: "commit list"

definition details_requests :: "string \<Rightarrow> string \<Rightarrow> nat \<Rightarrow> request list" where
  "details_requests owner repo' prNumber =
     [ PullsGet owner repo' prNumber,
       IssuesListComments owner repo' prNumber 100,
       PullsListReviewComments owner repo' prNumber 100,
       PullsListReviews owner repo' prNumber 100,
       PullsListCommits owner repo' prNumber 100 ]"

definition fetchPRDetails :: "octokit \<Rightarrow> string \<Rightarrow> string \<Rightarrow> nat \<Rightarrow> api_error + pr_fetch" where
  "fetchPRDetails oct owner repo' prNumber =
     (case promise_all3
             (pulls_get oct (PullsGet owner repo' prNumber))
             (issues_listComments oct (IssuesListComments owner repo' prNumber 100))
             (promise_all3
                (pulls_listReviewComments oct (PullsListReviewComments owner repo' prNumber 100))
                (pulls_listReviews oct (PullsListReviews owner repo' prNumber 100))
                (pulls_listCommits oct (PullsListCommits owner repo' prNumber 100))) of
        Inl err \<Rightarrow> Inl err
      | Inr (prDetails', issueComments', reviewComments', reviews', commits') \<Rightarrow>
          Inr \<lparr> pr = prDetails', issueComments = issueComments',
                reviewComments = reviewComments', reviews = reviews', commits = commits' \<rparr>)"

record metrics =
  m_totalComments :: nat
  m_issueComments :: nat
  m_reviewComments :: nat
  m_reviews :: nat
  m_changesRequested :: nat
  m_approved :: nat
  uniqueReviewers :: nat
  uniqueParticipants :: nat
  m_commits :: nat
  conversationDensity :: js_number
  m_additions :: nat
  m_deletions :: nat
  changedFiles :: nat
  timeToMergeInDays :: "js_number option"
  timeToCloseInDays :: "js_number option"

record pr_metrics =
  pm_number :: nat
  pm_title :: string
  pm_state :: string
  pm_merged :: bool
  author :: string
  pm_createdAt :: int
  mergedAt :: "int option"
  closedAt :: "int option"
  pm_url :: string
  pm_metrics :: metrics

text \<open>
  \<open>t ? (t - createdAt) / (1000 * 60 * 60 * 24) : null\<close> for an optional timestamp, and
  \<open>x ? Number(x.toFixed(2)) : null\<close> for the optional number it gives: a number is truthy
  when it is not 0.
\<close>

definition days_since :: "int \<Rightarrow> int option \<Rightarrow> js_number option" where
  "days_since createdAt' t =
     (case t of None \<Rightarrow> None
      | Some t' \<Rightarrow> Some (double (of_int (t' - createdAt') / (1000 * 60 * 60 * 24))))"

definition rounded_days :: "js_number option \<Rightarrow> js_number option" where
  "rounded_days x =
     (case x of None \<Rightarrow> None
      | Some d \<Rightarrow> if d \<noteq> 0 then Some (Number_toFixed d 2) else None)"

definition calculatePRMetrics :: "pr_fetch \<Rightarrow> pr_metrics" where
  "calculatePRMetrics prData =
     (let totalIssueComments = length (issueComments prData);
          totalReviewComments = length (reviewComments prData);
          totalComments' = totalIssueComments + totalReviewComments;
          uniqueReviewers' = remdups (map review_user_login (reviews prData));
          changesRequested' =
            length (filter (\<lambda>r. review_state r = ''CHANGES_REQUESTED'') (reviews prData));
          approved = length (filter (\<lambda>r. review_state r = ''APPROVED'') (reviews prData));
          timeToMerge' = days_since (pd_created_at (pr prData)) (pd_merged_at (pr prData));
          timeToClose = days_since (pd_created_at (pr prData)) (pd_closed_at (pr prData));
          commenters = remdups (map comment_user_login (issueComments prData)
                                @ map comment_user_login (reviewComments prData));
          allParticipants = remdups (commenters @ uniqueReviewers');
          conversationDensity' =
            (if length (commits prData) > 0
             then Number_toFixed
                    (double (of_nat totalComments' / of_nat (length (commits prData)))) 2
             else 0)
      in \<lparr> pm_number = pd_number (pr prData),
           pm_title = pd_title (pr prData),
           pm_state = pd_state (pr prData),
           pm_merged = (pd_merged_at (pr prData) \<noteq> None),
           author = pd_user_login (pr prData),
           pm_createdAt = pd_created_at (pr prData),
           mergedAt = pd_merged_at (pr prData),
           closedAt = pd_closed_at (pr prData),
           pm_url = pd_html_url (pr prData),
           pm_metrics =
             \<lparr> m_totalComments = totalComments',
               m_issueComments = totalIssueComments,
               m_reviewComments = totalReviewComments,
               m_reviews = length (reviews prData),
               m_changesRequested = changesRequested',
               m_approved = approved,
               uniqueReviewers = length uniqueReviewers',
               uniqueParticipants = length allParticipants,
               m_commits = length (commits prData),
               conversationDensity = conversationDensity',
               m_additions = pd_additions (pr prData),
               m_deletions = pd_deletions (pr prData),
               changedFiles = pd_changed_files (pr prData),
               timeToMergeInDays = rounded_days timeToMerge',
               timeToCloseInDays = rounded_days timeToClose \<rparr> \<rparr>)"

text \<open>\<open>calculateSummary\<close> with its two local functions.\<close>

definition avg :: "js_number list \<Rightarrow> js_number" where
  "avg arr =
     (if length arr \<noteq> 0
      then Number_toFixed (double (foldl (\<lambda>a b. double (a + b)) 0 arr / of_nat (length arr))) 2
      else 0)"

definition median :: "js_number list \<Rightarrow> js_number" where
  "median arr =
     (if length arr = 0 then 0
      else
        let sorted = sort arr; mid = length sorted div 2
        in if length sorted mod 2 \<noteq> 0 then sorted ! mid
           else Number_toFixed (double (double (sorted ! (mid - 1) + sorted ! mid) / 2)) 2)"

record metrics_summary =
  averageComments :: js_number
  medianComments :: js_number
  averageReviewComments :: js_number
  averageChangesRequested :: js_number
  averageReviewers :: js_number
  averageParticipants :: js_number
  averageCommitsPerPR :: js_number
  averageTimeToMerge :: js_number
  medianTimeToMerge :: js_number
  maxComments :: nat
  minComments :: nat
  ms_totalComments :: nat

definition calculateSummary :: "pr_metrics list \<Rightarrow> pr_metrics list \<Rightarrow> metrics_summary" where
  "calculateSummary allPRs mergedPRs' =
     (let comments' = map (\<lambda>p. m_totalComments (pm_metrics p)) allPRs;
          mergedTimeToMerge =
            map the (filter (\<lambda>t. t \<noteq> None) (map (\<lambda>p. timeToMergeInDays (pm_metrics p)) mergedPRs'))
      in \<lparr> averageComments = avg (map of_nat comments'),
           medianComments = median (map of_nat comments'),
           averageReviewComments = avg (map (\<lambda>p. of_nat (m_reviewComments (pm_metrics p))) allPRs),
           averageChangesRequested =
             avg (map (\<lambda>p. of_nat (m_changesRequested (pm_metrics p))) allPRs),
           averageReviewers = avg (map (\<lambda>p. of_nat (uniqueReviewers (pm_metrics p))) allPRs),
           averageParticipants = avg (map (\<lambda>p. of_nat (uniqueParticipants (pm_metrics p))) allPRs),
           averageCommitsPerPR = avg (map (\<lambda>p. of_nat (m_commits (pm_metrics p))) allPRs),
           averageTimeToMerge = avg mergedTimeToMerge,
           medianTimeToMerge = median mergedTimeToMerge,
           maxComments = (if length comments' \<noteq> 0 then foldr max comments' 0 else 0),
           minComments = (if length comments' \<noteq> 0 then foldr min (tl comments') (hd comments') else 0),
           ms_totalComments = foldl (\<lambda>a b. a + b) 0 comments' \<rparr>)"

text \<open>The loop of \<open>prMetrics\<close> over the PRs of the user.\<close>

record metrics_state =
  prMetricsData :: "pr_metrics list"
  ms_stdout :: string
  ms_requests :: "request list"

definition metrics_step ::
  "octokit \<Rightarrow> string \<Rightarrow> string \<Rightarrow> metrics_state \<Rightarrow> pull \<Rightarrow> metrics_state" where
  "metrics_step oct owner repo' st p =
     (case fetchPRDetails oct owner repo' (pull_number p) of
        Inl err \<Rightarrow>
          st\<lparr>ms_stdout := ms_stdout st @ ''x'',
              ms_requests := ms_requests st @ details_requests owner repo' (pull_number p)\<rparr>
      | Inr details \<Rightarrow>
          st\<lparr>prMetricsData := prMetricsData st @ [calculatePRMetrics details],
              ms_stdout := ms_stdout st @ ''.'',
              ms_requests := ms_requests st @ details_requests owner repo' (pull_number p)\<rparr>)"

definition metrics_loop :: "octokit \<Rightarrow> string \<Rightarrow> string \<Rightarrow> pull list \<Rightarrow> metrics_state" where
  "metrics_loop oct owner repo' prs =
     foldl (metrics_step oct owner repo')
       \<lparr>prMetricsData = [], ms_stdout = [], ms_requests = []\<rparr> prs"

section \<open>CSV output\<close>

text \<open>
  Three places write CSV: \<open>exportToCSV\<close> of the summary command in its single-file version
  (every row goes through \<open>toRow\<close>), \<open>exportToCSV\<close> in its multi-file version (every row
  goes through \<open>row.map(cell => `"${cell}"`).join(',')\<close>, after \<open>title.replace\<close> on the title
  cells), and \<open>formatPRMetricsCSV\<close> of the formatters (rows joined with commas, the title
  cell quoted by hand). The sections of a file differ in their cells only; the model has
  the row functions and, for each of the three, the rows of the pull requests.

  \<open>String(v)\<close> of a number and the ISO text of a timestamp are the parameters \<open>num\<close> and
  \<open>isoText\<close>.
\<close>

definition dquote :: char where
  "dquote = CHR 0x22"

text \<open>\<open>s.replace(/"/g, '""')\<close>\<close>

definition escape_quotes :: "string \<Rightarrow> string" where
  "escape_quotes s = concat (map (\<lambda>c. if c = dquote then [dquote, dquote] else [c]) s)"

text \<open>\<open>toRow\<close> of the single-file \<open>exportToCSV\<close>, on the texts \<open>String(cell)\<close>.\<close>

definition toRow :: "string list \<Rightarrow> string" where
  "toRow cells = join '','' (map (\<lambda>cell. [dquote] @ escape_quotes cell @ [dquote]) cells)"

text \<open>The row function of the multi-file \<open>exportToCSV\<close>.\<close>

definition quote_row :: "string list \<Rightarrow> string" where
  "quote_row row = join '','' (map (\<lambda>cell. [dquote] @ cell @ [dquote]) row)"

text \<open>\<open>v || ''\<close> for an optional number: the empty text for \<open>null\<close> and for 0.\<close>

definition num_or_empty :: "(js_number \<Rightarrow> string) \<Rightarrow> js_number option \<Rightarrow> string" where
  "num_or_empty num v = (case v of None \<Rightarrow> [] | Some t \<Rightarrow> if t \<noteq> 0 then num t else [])"

definition yes_no :: "bool \<Rightarrow> string" where
  "yes_no b = (if b then ''Yes'' else ''No'')"

text \<open>The cells of a pull request in the single-file version, as passed to \<open>toRow\<close>.\<close>

definition pr_cells ::
  "(js_number \<Rightarrow> string) \<Rightarrow> (int \<Rightarrow> string) \<Rightarrow> 'e pr_data_scheme \<Rightarrow> string list" where
  "pr_cells num isoText p =
     [ num (of_nat (number p)), repo p, title p, state p, yes_no (merged p),
       num (of_nat (comments p)), num (of_nat (changesRequested p)),
       num_or_empty num (timeToMerge p), yes_no (aiAssisted p), join ''; '' (aiTools p),
       isoText (createdAt p), url p ]"

definition single_file_pr_rows ::
  "(js_number \<Rightarrow> string) \<Rightarrow> (int \<Rightarrow> string) \<Rightarrow> ('e pr_data_scheme) list \<Rightarrow> string list" where
  "single_file_pr_rows num isoText prs' = map (\<lambda>p. toRow (pr_cells num isoText p)) prs'"

text \<open>The row of a pull request in the multi-file version: only the title is escaped.\<close>

definition prRow ::
  "(js_number \<Rightarrow> string) \<Rightarrow> (int \<Rightarrow> string) \<Rightarrow> 'e pr_data_scheme \<Rightarrow> string list" where
  "prRow num isoText p =
     [ num (of_nat (number p)), repo p, escape_quotes (title p), state p, yes_no (merged p),
       num (of_nat (comments p)), num (of_nat (changesRequested p)),
       num_or_empty num (timeToMerge p), yes_no (aiAssisted p), join ''; '' (aiTools p),
       isoText (createdAt p), url p ]"

definition multi_file_pr_rows ::
  "(js_number \<Rightarrow> string) \<Rightarrow> (int \<Rightarrow> string) \<Rightarrow> ('e pr_data_scheme) list \<Rightarrow> string list" where
  "multi_file_pr_rows num isoText prs' = map (\<lambda>p. quote_row (prRow num isoText p)) prs'"

text \<open>
  A row of \<open>formatPRMetricsCSV\<close>: \<open>row.join(',')\<close>, with the title cell
  \<open>`"${pr.title.replace(/"/g, '""')}"`\<close> and every other cell as \<open>join\<close> prints it.
\<close>

definition bool_text :: "bool \<Rightarrow> string" where
  "bool_text b = (if b then ''true'' else ''false'')"

definition metrics_csv_row ::
  "(js_number \<Rightarrow> string) \<Rightarrow> (int \<Rightarrow> string) \<Rightarrow> pr_metrics \<Rightarrow> string list" where
  "metrics_csv_row num isoText p =
     [ num (of_nat (pm_number p)),
       [dquote] @ escape_quotes (pm_title p) @ [dquote],
       pm_state p,
       bool_text (pm_merged p),
       num (of_nat (m_totalComments (pm_metrics p))),
       num (of_nat (m_issueComments (pm_metrics p))),
       num (of_nat (m_reviewComments (pm_metrics p))),
       num (of_nat (m_reviews (pm_metrics p))),
       num (of_nat (m_changesRequested (pm_metrics p))),
       num (of_nat (m_approved (pm_metrics p))),
       num (of_nat (uniqueReviewers (pm_metrics p))),
       num (of_nat (uniqueParticipants (pm_metrics p))),
       num (of_nat (m_commits (pm_metrics p))),
       num (of_nat (m_additions (pm_metrics p))),
       num (of_nat (m_deletions (pm_metrics p))),
       num (of_nat (changedFiles (pm_metrics p))),
       num_or_empty num (timeToMergeInDays (pm_metrics p)),
       isoText (pm_createdAt p) ]"

definition formatPRMetricsCSV_rows ::
  "(js_number \<Rightarrow> string) \<Rightarrow> (int \<Rightarrow> string) \<Rightarrow> pr_metrics list \<Rightarrow> string list" where
  "formatPRMetricsCSV_rows num isoText prs' = map (\<lambda>p. join '','' (metrics_csv_row num isoText p)) prs'"

text \<open>
  A reader of one CSV row whose fields are all quoted (RFC 4180): a field starts with a
  double quote and runs to the next double quote that is not doubled; \<open>""\<close> inside is one
  double quote; fields are separated by commas. \<open>None\<close> when the row is not of that form.
\<close>

fun read_quoted :: "string \<Rightarrow> (string \<times> string) option" where
  "read_quoted [] = None"
| "read_quoted [c] = (if c = dquote then Some ([], []) else None)"
| "read_quoted (c # d # cs) =
     (if c = dquote
      then (if d = dquote
            then (case read_quoted cs of None \<Rightarrow> None | Some (f, r) \<Rightarrow> Some (dquote # f, r))
            else Some ([], d # cs))
      else (case read_quoted (d # cs) of None \<Rightarrow> None | Some (f, r) \<Rightarrow> Some (c # f, r)))"

fun read_fields :: "nat \<Rightarrow> string \<Rightarrow> string list option" where
  "read_fields 0 s = None"
| "read_fields (Suc n) s =
     (case s of
        [] \<Rightarrow> None
      | c # cs \<Rightarrow>
          if c \<noteq> dquote then None
          else (case read_quoted cs of
                  None \<Rightarrow> None
                | Some (f, r) \<Rightarrow>
                    (case r of
                       [] \<Rightarrow> Some [f]
                     | k # r' \<Rightarrow>
                         if k = CHR '','' 
                         then (case read_fields n r' of None \<Rightarrow> None | Some fs \<Rightarrow> Some (f # fs))
                         else None)))"

text \<open>A row of \<open>n\<close> characters has fewer than \<open>n\<close> fields, so this fuel is never used up.\<close>

definition read_row :: "string \<Rightarrow> string list option" where
  "read_row s = read_fields (Suc (length s)) s"

section \<open>The commands\<close>

text \<open>
  A command reads the token from \<open>options.token || process.env.GITHUB_TOKEN\<close>, constructs
  the client inside its \<open>try\<close> block and goes on to fetch; its \<open>catch\<close> block prints the
  message of the error and calls \<open>process.exit(1)\<close>. The outcome of a command is what it
  sent to the API, the progress marks it wrote, the error it printed, its exit code (when
  it calls \<open>process.exit\<close>) and the result object it hands to the formatter. The texts of
  \<open>printInfo\<close> and the rendering of the result are not part of the model, and the
  result objects leave out the fields that repeat the options (\<open>user\<close>, \<open>repository\<close>,
  \<open>orgFilter\<close>, \<open>dateRange\<close>). Fetches awaited together by \<open>Promise.all\<close> run
  concurrently; the requests of each are listed to its end, one fetch after the other.
  \<open>o_top\<close> is \<open>Number(options.top)\<close> when that is a natural number.
\<close>

record cmd_options =
  o_token :: "string option"
  o_user :: string
  o_owner :: string
  o_repo :: string
  o_org :: "string option"
  o_since :: "string option"
  o_until :: "string option"
  o_state :: "string option"
  o_top :: "nat option"

record 'r outcome =
  sent_requests :: "request list"
  progress :: string
  printed_error :: "string option"
  exit_code :: "nat option"
  result :: "'r option"

definition failed :: "request list \<Rightarrow> string \<Rightarrow> 'r outcome" where
  "failed sent msg =
     \<lparr> sent_requests = sent, progress = [], printed_error = Some msg,
       exit_code = Some 1, result = None \<rparr>"

definition nothing_found :: "request list \<Rightarrow> 'r outcome" where
  "nothing_found sent =
     \<lparr> sent_requests = sent, progress = [], printed_error = None,
       exit_code = None, result = None \<rparr>"

definition message :: "api_error \<Rightarrow> string" where
  "message e = (case e of ApiError m \<Rightarrow> m)"

text \<open>\<open>prMetrics\<close>\<close>

record pr_metrics_result =
  pmr_totalPRs :: nat
  pmr_mergedPRs :: nat
  pmr_summary :: metrics_summary
  pmr_prs :: "pr_metrics list"

definition prMetrics ::
  "(string \<Rightarrow> int) \<Rightarrow> (string \<Rightarrow> octokit) \<Rightarrow> string option \<Rightarrow> cmd_options
   \<Rightarrow> pr_metrics_result outcome option" where
  "prMetrics date remote GITHUB_TOKEN options =
     (case GitHubClient remote (or_else (o_token options) GITHUB_TOKEN) of
        Inl msg \<Rightarrow> Some (failed [] msg)
      | Inr client \<Rightarrow>
          (case fetchUserPRs date client (o_owner options) (o_repo options) (o_user options)
                  \<lparr> opt_state = o_state options, opt_since = o_since options,
                    opt_until = o_until options, opt_org = None, opt_repo = None \<rparr> of
             None \<Rightarrow> None
           | Some (sent, Inl err) \<Rightarrow> Some (failed sent (message err))
           | Some (sent, Inr prs') \<Rightarrow>
               if length prs' = 0 then Some (nothing_found sent)
               else
                 let st = metrics_loop client (o_owner options) (o_repo options) prs';
                     mergedPRs' = filter pm_merged (prMetricsData st)
                 in Some \<lparr> sent_requests = sent @ ms_requests st,
                           progress = ms_stdout st,
                           printed_error = None,
                           exit_code = None,
                           result = Some
                             \<lparr> pmr_totalPRs = length (prMetricsData st),
                               pmr_mergedPRs = length mergedPRs',
                               pmr_summary = calculateSummary (prMetricsData st) mergedPRs',
                               pmr_prs = prMetricsData st \<rparr> \<rparr>))"

text \<open>\<open>repoStats\<close>\<close>

record contributor =
  c_login :: string
  c_commits :: nat
  c_additions :: nat
  c_deletions :: nat
  c_prs :: nat

record repo_stats_result =
  rsr_totalContributors :: nat
  rsr_totalPRs :: nat
  rsr_contributors :: "contributor list"

text \<open>\<open>top\<close> of a list sorted by a count, largest first (the sort of JavaScript is stable).\<close>

definition top_by :: "('a \<Rightarrow> nat) \<Rightarrow> nat option \<Rightarrow> 'a list \<Rightarrow> 'a list" where
  "top_by count topN xs =
     take (case topN of None \<Rightarrow> 0 | Some n \<Rightarrow> n) (sort_key (\<lambda>x. - int (count x)) xs)"

definition repoStats ::
  "(string \<Rightarrow> int) \<Rightarrow> (string \<Rightarrow> octokit) \<Rightarrow> string option \<Rightarrow> cmd_options
   \<Rightarrow> repo_stats_result outcome option" where
  "repoStats date remote GITHUB_TOKEN options =
     (case GitHubClient remote (or_else (o_token options) GITHUB_TOKEN) of
        Inl msg \<Rightarrow> Some (failed [] msg)
      | Inr client \<Rightarrow>
          (case repos_getContributorsStats client
                  (ReposGetContributorsStats (o_owner options) (o_repo options)) of
             Inl err \<Rightarrow>
               Some (failed [ReposGetContributorsStats (o_owner options) (o_repo options)]
                       (message err))
           | Inr None \<Rightarrow>
               Some (nothing_found [ReposGetContributorsStats (o_owner options) (o_repo options)])
           | Inr (Some contributorStats) \<Rightarrow>
               (case fetchRepoPRs date client (o_owner options) (o_repo options)
                       \<lparr> opt_state = None, opt_since = o_since options,
                         opt_until = o_until options, opt_org = None, opt_repo = None \<rparr> of
                  None \<Rightarrow> None
                | Some (sent, Inl err) \<Rightarrow>
                    Some (failed
                            (ReposGetContributorsStats (o_owner options) (o_repo options) # sent)
                            (message err))
                | Some (sent, Inr prs') \<Rightarrow>
                    Some \<lparr> sent_requests =
                             ReposGetContributorsStats (o_owner options) (o_repo options) # sent,
                           progress = [],
                           printed_error = None,
                           exit_code = None,
                           result = Some
                             \<lparr> rsr_totalContributors = length contributorStats,
                               rsr_totalPRs = length prs',
                               rsr_contributors =
                                 top_by c_commits (o_top options)
                                   (map (\<lambda>c. \<lparr> c_login = cs_author_login c,
                                               c_commits = cs_total c,
                                               c_additions = foldl (\<lambda>sum w. sum + fst w) 0 (cs_weeks c),
                                               c_deletions = foldl (\<lambda>sum w. sum + snd w) 0 (cs_weeks c),
                                               c_prs = length (filter (\<lambda>p. pull_user_login p = cs_author_login c) prs') \<rparr>)
                                      contributorStats) \<rparr> \<rparr>)))"

text \<open>
  \<open>userStats\<close> and the first version of \<open>summary\<close>: the same text but for the field
  \<open>commitCount\<close>, which is the parameter \<open>ext\<close>.
\<close>

record issue_detail =
  id_number :: nat
  id_title :: string
  id_repo :: string
  id_state :: string
  id_comments :: nat
  id_createdAt :: int
  id_closedAt :: "int option"
  id_url :: string

definition issue_detail_of :: "search_item \<Rightarrow> issue_detail" where
  "issue_detail_of issue =
     \<lparr> id_number = sr_number issue,
       id_title = sr_title issue,
       id_repo = repo_owner issue @ ''/'' @ repo_name issue,
       id_state = sr_state issue,
       id_comments = (case sr_comments issue of None \<Rightarrow> 0 | Some n \<Rightarrow> n),
       id_createdAt = created_at issue,
       id_closedAt = closed_at issue,
       id_url = html_url issue \<rparr>"

record repo_breakdown = repo_stats +
  rb_avgTimeToMerge :: "js_number option"

definition breakdown_of :: "repo_stats \<Rightarrow> repo_breakdown" where
  "breakdown_of r =
     repo_stats.extend r
       \<lparr> rb_avgTimeToMerge =
           (if mergeTimesCount r > 0
            then Some (Number_toFixed (double (mergeTimesSum r / of_nat (mergeTimesCount r))) 2)
            else None) \<rparr>"

definition repoBreakdown_of :: "(string \<times> repo_stats) list \<Rightarrow> nat option \<Rightarrow> repo_breakdown list" where
  "repoBreakdown_of m topN = top_by rs_totalPRs topN (map (\<lambda>kv. breakdown_of (snd kv)) m)"

record 'e summary_result =
  sr_summary :: pr_summary
  reposContributed :: nat
  totalIssues :: nat
  openIssues :: nat
  closedIssues :: nat
  repoBreakdown :: "repo_breakdown list"
  res_prs :: "'e pr_data_scheme list"
  res_issues :: "issue_detail list"

definition search_options :: "cmd_options \<Rightarrow> fetch_options" where
  "search_options options =
     \<lparr> opt_state = None, opt_since = o_since options, opt_until = o_until options,
       opt_org = o_org options, opt_repo = None \<rparr>"

definition user_command ::
  "(commit list \<Rightarrow> 'e) \<Rightarrow> (string \<Rightarrow> octokit) \<Rightarrow> string option \<Rightarrow> cmd_options
   \<Rightarrow> 'e summary_result outcome" where
  "user_command ext remote GITHUB_TOKEN options =
     (case GitHubClient remote (or_else (o_token options) GITHUB_TOKEN) of
        Inl msg \<Rightarrow> failed [] msg
      | Inr client \<Rightarrow>
          (let f1 = fetchUserPRsAcrossRepos client (o_user options) (search_options options);
               f2 = fetchUserIssuesAcrossRepos client (o_user options) (search_options options)
           in case snd f1 of
                Inl err \<Rightarrow> failed (fst f1 @ fst f2) (message err)
              | Inr prs' \<Rightarrow>
                  (case snd f2 of
                     Inl err \<Rightarrow> failed (fst f1 @ fst f2) (message err)
                   | Inr issues \<Rightarrow>
                       if length prs' = 0 \<and> length issues = 0
                       then nothing_found (fst f1 @ fst f2)
                       else
                         let st = process_prs ext client prs'
                         in \<lparr> sent_requests = fst f1 @ fst f2 @ requests st,
                              progress = stdout st,
                              printed_error = None,
                              exit_code = None,
                              result = Some
                                \<lparr> sr_summary = summary_of (prDetails st),
                                  reposContributed = length (repoMap st),
                                  totalIssues = length issues,
                                  openIssues = length (filter (\<lambda>i. sr_state i = ''open'') issues),
                                  closedIssues = length (filter (\<lambda>i. sr_state i = ''closed'') issues),
                                  repoBreakdown = repoBreakdown_of (repoMap st) (o_top options),
                                  res_prs = prDetails st,
                                  res_issues = map issue_detail_of issues \<rparr> \<rparr>)))"

definition userStats ::
  "(string \<Rightarrow> octokit) \<Rightarrow> string option \<Rightarrow> cmd_options \<Rightarrow> commit_count summary_result outcome" where
  "userStats = user_command (\<lambda>commits'. \<lparr>commitCount = length commits'\<rparr>)"

definition summary_v1 ::
  "(string \<Rightarrow> octokit) \<Rightarrow> string option \<Rightarrow> cmd_options \<Rightarrow> unit summary_result outcome" where
  "summary_v1 = user_command (\<lambda>commits'. ())"

text \<open>
  The later versions of \<open>summary\<close> (they differ in \<open>exportToCSV\<close> only) fetch two more
  lists with \<open>client.fetchAssignedIssues\<close> and \<open>client.fetchReviewRequestedPRs\<close>. The
  client file has neither method, so both are parameters here: from the client, the user
  and the options to the requests issued and the outcome.
\<close>

type_synonym search_fetch =
  "octokit \<Rightarrow> string \<Rightarrow> fetch_options \<Rightarrow> request list \<times> (api_error + search_item list)"

record reviewed_pr =
  rp_number :: nat
  rp_title :: string
  rp_repo :: string
  rp_state :: string
  rp_merged :: bool
  rp_createdAt :: int
  rp_url :: string

definition reviewed_pr_of :: "search_item \<Rightarrow> reviewed_pr" where
  "reviewed_pr_of p =
     \<lparr> rp_number = sr_number p,
       rp_title = sr_title p,
       rp_repo = repo_owner p @ ''/'' @ repo_name p,
       rp_state = sr_state p,
       rp_merged = (pull_request_merged_at p \<noteq> None),
       rp_createdAt = created_at p,
       rp_url = html_url p \<rparr>"

record summary_result2 =
  s2_summary :: pr_summary
  s2_reposContributed :: nat
  totalIssuesCreated :: nat
  openIssuesCreated :: nat
  closedIssuesCreated :: nat
  totalIssuesAssigned :: nat
  openIssuesAssigned :: nat
  closedIssuesAssigned :: nat
  totalPRsReviewed :: nat
  s2_repoBreakdown :: "repo_breakdown list"
  s2_prs :: "pr_data list"
  issuesCreated :: "issue_detail list"
  issuesAssigned :: "issue_detail list"
  prsReviewed :: "reviewed_pr list"

fun first_error :: "(api_error + 'a) list \<Rightarrow> api_error option" where
  "first_error [] = None"
| "first_error (Inl e # rs) = Some e"
| "first_error (Inr v # rs) = first_error rs"

definition data_of :: "api_error + 'a list \<Rightarrow> 'a list" where
  "data_of r = (case r of Inl e \<Rightarrow> [] | Inr v \<Rightarrow> v)"

definition summary ::
  "search_fetch \<Rightarrow> search_fetch \<Rightarrow> (string \<Rightarrow> octokit) \<Rightarrow> string option \<Rightarrow> cmd_options
   \<Rightarrow> summary_result2 outcome" where
  "summary fetchAssignedIssues fetchReviewRequestedPRs remote GITHUB_TOKEN options =
     (case GitHubClient remote (or_else (o_token options) GITHUB_TOKEN) of
        Inl msg \<Rightarrow> failed [] msg
      | Inr client \<Rightarrow>
          (let f1 = fetchUserPRsAcrossRepos client (o_user options) (search_options options);
               f2 = fetchUserIssuesAcrossRepos client (o_user options) (search_options options);
               f3 = fetchAssignedIssues client (o_user options) (search_options options);
               f4 = fetchReviewRequestedPRs client (o_user options) (search_options options);
               sent = fst f1 @ fst f2 @ fst f3 @ fst f4
           in case first_error [snd f1, snd f2, snd f3, snd f4] of
                Some err \<Rightarrow> failed sent (message err)
              | None \<Rightarrow>
                  if length (data_of (snd f1)) = 0 \<and> length (data_of (snd f2)) = 0
                     \<and> length (data_of (snd f3)) = 0
                  then nothing_found sent
                  else
                    let st = process_prs (\<lambda>commits'. ()) client (data_of (snd f1))
                    in \<lparr> sent_requests = sent @ requests st,
                         progress = stdout st,
                         printed_error = None,
                         exit_code = None,
                         result = Some
                           \<lparr> s2_summary = summary_of (prDetails st),
                             s2_reposContributed = length (repoMap st),
                             totalIssuesCreated = length (data_of (snd f2)),
                             openIssuesCreated =
                               length (filter (\<lambda>i. sr_state i = ''open'') (data_of (snd f2))),
                             closedIssuesCreated =
                               length (filter (\<lambda>i. sr_state i = ''closed'') (data_of (snd f2))),
                             totalIssuesAssigned = length (data_of (snd f3)),
                             openIssuesAssigned =
                               length (filter (\<lambda>i. sr_state i = ''open'') (data_of (snd f3))),
                             closedIssuesAssigned =
                               length (filter (\<lambda>i. sr_state i = ''closed'') (data_of (snd f3))),
                             totalPRsReviewed = length (data_of (snd f4)),
                             s2_repoBreakdown = repoBreakdown_of (repoMap st) (o_top options),
                             s2_prs = prDetails st,
                             issuesCreated = map issue_detail_of (data_of (snd f2)),
                             issuesAssigned = map issue_detail_of (data_of (snd f3)),
                             prsReviewed = map reviewed_pr_of (data_of (snd f4)) \<rparr> \<rparr>))"

section \<open>The paginated fetch as the specification words it\<close>

text \<open>
  The two definitions below are not taken from the code: they say, in the words of the
  specification, which page a paginated fetch is to stop at and what it is to have done by
  then, and the theorems about pagination compare the fetches of the client with them.

  \<open>spec_last_page cap mk call k\<close>: page \<open>k\<close> is the first page that does not have exactly 100
  items (or cannot be read), or else it is the page at which the cap, if there is one, is
  reached; every page before it has exactly 100 items.
\<close>

definition spec_last_page ::
  "nat option \<Rightarrow> (nat \<Rightarrow> request) \<Rightarrow> (request \<Rightarrow> api_error + 'a list) \<Rightarrow> nat \<Rightarrow> bool" where
  "spec_last_page cap mk call k =
     (1 \<le> k \<and> list_all (full_page mk call) [1..<k] \<and>
      (case cap of
         None \<Rightarrow> \<not> full_page mk call k
       | Some c \<Rightarrow> k \<le> c \<and> (\<not> full_page mk call k \<or> k = c)))"

text \<open>
  \<open>spec_result_of_pages mk call keep k\<close>: the pages 1 to \<open>k\<close> have been asked for, in this order
  and each once; the outcome is the error of page \<open>k\<close> when it cannot be read, and
  otherwise the items that the filter keeps of the pages 1 to \<open>k\<close>, in the order of the
  pages.
\<close>

definition spec_result_of_pages ::
  "(nat \<Rightarrow> request) \<Rightarrow> (request \<Rightarrow> api_error + 'a list) \<Rightarrow> ('a list \<Rightarrow> 'a list) \<Rightarrow> nat
   \<Rightarrow> request list \<times> (api_error + 'a list)" where
  "spec_result_of_pages mk call keep k =
     (map mk [1..<k + 1],
      case call (mk k) of
        Inl err \<Rightarrow> Inl err
      | Inr d \<Rightarrow> Inr (concat (map (\<lambda>p. keep (data_of (call (mk p)))) [1..<k + 1])))"

section \<open>Concrete inputs\<close>

text \<open>Records, items and remote sides at which the theorems below are instantiated.\<close>

definition example_pr :: "string \<Rightarrow> bool \<Rightarrow> nat \<Rightarrow> nat \<Rightarrow> pr_data" where
  "example_pr st mg c cr =
     \<lparr> number = 1, title = ''t'', repo = ''octo/demo'', state = st, merged = mg,
       comments = c, changesRequested = cr, timeToMerge = None, createdAt = 0,
       url = ''u'', aiAssisted = False, aiTools = [] \<rparr>"

definition three_prs :: "pr_data list" where
  "three_prs =
     [example_pr ''closed'' True 2 0, example_pr ''open'' False 1 1,
      example_pr ''closed'' False 4 2]"

text \<open>Forty records with three comments between them.\<close>

definition forty_prs :: "pr_data list" where
  "forty_prs =
     replicate 37 (example_pr ''closed'' True 0 0) @ replicate 3 (example_pr ''open'' False 1 0)"

text \<open>Three records, one of them with a very large number of comments.\<close>

definition huge_prs :: "pr_data list" where
  "huge_prs =
     [example_pr ''closed'' True 105553116266497 0, example_pr ''open'' False 0 0,
      example_pr ''open'' False 0 0]"

text \<open>A search item of repository \<open>octo/demo\<close>, merged \<open>ms\<close> milliseconds after its creation.\<close>

definition example_item :: "nat \<Rightarrow> int \<Rightarrow> search_item" where
  "example_item n ms =
     \<lparr> sr_number = n, sr_title = ''t'', repository_url = ''repos/octo/demo'',
       sr_state = ''closed'', sr_comments = Some 1, pull_request_merged_at = Some ms,
       created_at = 0, closed_at = Some ms, html_url = ''u'' \<rparr>"

definition example_details :: pull_details where
  "example_details =
     \<lparr> pd_number = 7, pd_title = ''t'', pd_state = ''closed'', pd_user_login = ''octocat'',
       pd_created_at = 1000, pd_merged_at = Some 1000, pd_closed_at = Some 1000,
       pd_html_url = ''u'', pd_additions = 1, pd_deletions = 0, pd_changed_files = 1 \<rparr>"

text \<open>
  A remote side on which every list is empty, and one on which, besides, the reviews of
  PR 2 cannot be read.
\<close>

definition quiet_octokit :: octokit where
  "quiet_octokit =
     \<lparr> pulls_list = (\<lambda>r. Inr []),
       pulls_get = (\<lambda>r. Inr example_details),
       issues_listComments = (\<lambda>r. Inr []),
       pulls_listReviewComments = (\<lambda>r. Inr []),
       pulls_listReviews = (\<lambda>r. Inr []),
       pulls_listCommits = (\<lambda>r. Inr []),
       search_commits = (\<lambda>r. Inr []),
       search_issuesAndPullRequests = (\<lambda>r. Inr []),
       activity_listPublicEventsForUser = (\<lambda>r. Inr []),
       repos_getContributorsStats = (\<lambda>r. Inr (Some [])) \<rparr>"

definition flaky_octokit :: octokit where
  "flaky_octokit =
     quiet_octokit
       \<lparr> pulls_listReviews :=
           (\<lambda>r. if r = PullsListReviews ''octo'' ''demo'' 2 100
                then Inl (ApiError ''Not Found'') else Inr []) \<rparr>"

definition empty_state :: "unit loop_state" where
  "empty_state = \<lparr>prDetails = [], repoMap = [], stdout = [], requests = []\<rparr>"

text \<open>
  A repository with 1100 pull requests: pages 1 to 11 of \<open>pulls.list\<close> have 100 items each
  and the pages after them are empty. And one whose every page has 100 items.
\<close>

definition a_pull :: pull where
  "a_pull = \<lparr>pull_number = 1, pull_user_login = ''octocat'', pull_created_at = 0\<rparr>"

definition eleven_pages :: octokit where
  "eleven_pages =
     quiet_octokit
       \<lparr> pulls_list :=
           (\<lambda>r. case r of
                  PullsList owner repo' st per_page page \<Rightarrow>
                    if page \<le> 11 then Inr (replicate 100 a_pull) else Inr []
                | _ \<Rightarrow> Inr []) \<rparr>"

definition endless_pages :: octokit where
  "endless_pages = quiet_octokit \<lparr> pulls_list := (\<lambda>r. Inr (replicate 100 a_pull)) \<rparr>"

text \<open>
  A remote side with much to fetch: every page of commits and of events has 100 items;
  the search for issues and pull requests has 130 items, on two pages; and the repository
  has 230 pull requests on three pages, 150 of them by \<open>octocat\<close>.
\<close>

definition a_commit :: search_commit where
  "a_commit = \<lparr>sha = ''abc''\<rparr>"

definition an_event :: user_event where
  "an_event = \<lparr>event_id = ''1''\<rparr>"

definition b_pull :: pull where
  "b_pull = \<lparr>pull_number = 2, pull_user_login = ''hubot'', pull_created_at = 0\<rparr>"

definition busy_octokit :: octokit where
  "busy_octokit =
     quiet_octokit
       \<lparr> pulls_list :=
           (\<lambda>r. case r of
                  PullsList owner repo' st per_page page \<Rightarrow>
                    if page \<le> 2 then Inr (replicate 60 a_pull @ replicate 40 b_pull)
                    else if page = 3 then Inr (replicate 30 a_pull)
                    else Inr []
                | _ \<Rightarrow> Inr []),
         search_commits := (\<lambda>r. Inr (replicate 100 a_commit)),
         search_issuesAndPullRequests :=
           (\<lambda>r. case r of
                  SearchIssuesAndPullRequests q per_page page \<Rightarrow>
                    if page = 1 then Inr (replicate 100 (example_item 1 0))
                    else if page = 2 then Inr (replicate 30 (example_item 1 0))
                    else Inr []
                | _ \<Rightarrow> Inr []),
         activity_listPublicEventsForUser := (\<lambda>r. Inr (replicate 100 an_event)) \<rparr>"

definition no_options :: fetch_options where
  "no_options =
     \<lparr> opt_state = None, opt_since = None, opt_until = None, opt_org = None, opt_repo = None \<rparr>"

text \<open>
  A PR whose title holds two double quotes, and renderings of numbers (naturals, as the
  counts and PR numbers are) and of timestamps for the CSV rows.
\<close>

definition quoted_title_pr :: pr_data where
  "quoted_title_pr = (example_pr ''open'' False 3 1)\<lparr>title := ''say '' @ [dquote] @ ''hi'' @ [dquote]\<rparr>"

definition quoted_url_pr :: pr_data where
  "quoted_url_pr = (example_pr ''open'' False 3 1)\<lparr>url := ''u'' @ [dquote]\<rparr>"

definition num_text :: "js_number \<Rightarrow> string" where
  "num_text x = string_of_nat (nat \<lfloor>x\<rfloor>)"

definition iso_text :: "int \<Rightarrow> string" where
  "iso_text t = string_of_nat (nat t)"

definition example_fetch :: pr_fetch where
  "example_fetch =
     \<lparr> pr = example_details, issueComments = [], reviewComments = [], reviews = [],
       commits = [] \<rparr>"

definition example_options :: cmd_options where
  "example_options =
     \<lparr> o_token = None, o_user = ''octocat'', o_owner = ''octo'', o_repo = ''demo'',
       o_org = None, o_since = None, o_until = None, o_state = None, o_top = Some 10 \<rparr>"

section \<open>Evaluation\<close>

text \<open>
  The equations of the two recursive functions below hold for every argument, so they are
  unfolded by hand where they are needed.
\<close>

declare string_of_nat.simps [simp del]

declare capped_loop.simps [simp del]

section \<open>Rounding\<close>

lemma foldl_add_sum: "foldl (\<lambda>sum x. sum + f x) (a::nat) xs = a + sum_list (map f xs)"
  by (induction xs arbitrary: a) auto

text \<open>The exponent is the one of the binade of \<open>x\<close>.\<close>

lemma exponent_bounds:
  assumes "0 < x"
  shows "2 powi (exponent x) \<le> x" "x < 2 powi (exponent x + 1)"
proof -
  obtain p q where pq: "quotient_of x = (p, q)" by (cases "quotient_of x")
  have q0: "0 < q" using quotient_of_denom_pos[OF pq] .
  have x: "x = of_int p / of_int q" using quotient_of_div[OF pq] .
  have p0: "0 < p" using assms q0 unfolding x by (simp add: zero_less_divide_iff)
  define e where "e = bitlen p - bitlen q"
  have bp: "bitlen p \<ge> 1" "bitlen q \<ge> 1" using p0 q0 by (auto simp: bitlen_alt_def)
  have P: "(2::int) ^ nat (bitlen p - 1) \<le> p" "p < 2 ^ nat (bitlen p)"
    using bitlen_bounds[OF p0] by simp_all
  have Q: "(2::int) ^ nat (bitlen q - 1) \<le> q" "q < 2 ^ nat (bitlen q)"
    using bitlen_bounds[OF q0] by simp_all
  have P': "(2::rat) powi (bitlen p - 1) \<le> of_int p" "of_int p < (2::rat) powi (bitlen p)"
  proof -
    have "(of_int (2 ^ nat (bitlen p - 1)) :: rat) \<le> of_int p"
      using P(1) by (simp only: of_int_le_iff)
    then show "(2::rat) powi (bitlen p - 1) \<le> of_int p" using bp by (simp add: power_int_def)
    have "(of_int p :: rat) < of_int (2 ^ nat (bitlen p))"
      using P(2) by (simp only: of_int_less_iff)
    then show "of_int p < (2::rat) powi (bitlen p)" using bp by (simp add: power_int_def)
  qed
  have Q': "(2::rat) powi (bitlen q - 1) \<le> of_int q" "of_int q < (2::rat) powi (bitlen q)"
  proof -
    have "(of_int (2 ^ nat (bitlen q - 1)) :: rat) \<le> of_int q"
      using Q(1) by (simp only: of_int_le_iff)
    then show "(2::rat) powi (bitlen q - 1) \<le> of_int q" using bp by (simp add: power_int_def)
    have "(of_int q :: rat) < of_int (2 ^ nat (bitlen q))"
      using Q(2) by (simp only: of_int_less_iff)
    then show "of_int q < (2::rat) powi (bitlen q)" using bp by (simp add: power_int_def)
  qed
  have qr: "0 < (of_int q :: rat)" using q0 by simp
  have lo: "(2::rat) powi (e - 1) < x"
  proof -
    have "(2::rat) powi (e - 1) * of_int q < 2 powi (e - 1) * 2 powi (bitlen q)"
      using Q'(2) by (intro mult_strict_left_mono) simp_all
    also have "\<dots> = 2 powi (bitlen p - 1)"
      unfolding e_def by (simp flip: power_int_add)
    also have "\<dots> \<le> of_int p" using P'(1) .
    finally show ?thesis unfolding x using qr by (simp add: pos_less_divide_eq)
  qed
  have hi: "x < (2::rat) powi (e + 1)"
  proof -
    have "of_int p < (2::rat) powi (bitlen p)" using P'(2) .
    also have "\<dots> = 2 powi (e + 1) * 2 powi (bitlen q - 1)"
      unfolding e_def by (simp flip: power_int_add)
    also have "\<dots> \<le> 2 powi (e + 1) * of_int q"
      using Q'(1) by (intro mult_left_mono) simp_all
    finally show ?thesis unfolding x using qr by (simp add: pos_divide_less_eq)
  qed
  have ex: "exponent x = (if 2 powi e \<le> x then e else e - 1)"
    by (simp add: exponent_def pq e_def Let_def)
  show "2 powi (exponent x) \<le> x"
    unfolding ex using lo by auto
  show "x < 2 powi (exponent x + 1)"
    unfolding ex using hi by (auto simp: not_le)
qed

lemma roundTiesToEven_error: "\<bar>of_int (roundTiesToEven y) - y\<bar> \<le> 1 / 2"
proof -
  have "of_int \<lfloor>y\<rfloor> \<le> y" "y < of_int \<lfloor>y\<rfloor> + 1" by linarith+
  then show ?thesis unfolding roundTiesToEven_def
    by (cases "y - of_int \<lfloor>y\<rfloor> < 1 / 2"; cases "1 / 2 < y - of_int \<lfloor>y\<rfloor>") simp_all
qed

lemma roundTiesToEven_nonneg: "0 \<le> y \<Longrightarrow> 0 \<le> roundTiesToEven y"
  by (simp add: roundTiesToEven_def)

lemma ulp_pos: "0 < ulp x"
  by (simp add: ulp_def power_int_def)

lemma double_zero [simp]: "double 0 = 0"
  by (simp add: double_def)

lemma double_minus: "double (- x) = - double x"
  by (simp add: double_def sgn_minus)

lemma double_nonneg: "0 \<le> x \<Longrightarrow> 0 \<le> double x"
  using ulp_pos[of "\<bar>x\<bar>"] by (simp add: double_def roundTiesToEven_nonneg sgn_if less_imp_le)

text \<open>The rounding moves a number by half a unit in the last place at most.\<close>

lemma double_error:
  assumes "0 < x"
  shows "\<bar>double x - x\<bar> \<le> ulp x / 2"
proof -
  have u: "0 < ulp x" by (rule ulp_pos)
  have "double x - x = (of_int (roundTiesToEven (x / ulp x)) - x / ulp x) * ulp x"
    using assms u by (simp add: double_def algebra_simps)
  then have "\<bar>double x - x\<bar> = \<bar>of_int (roundTiesToEven (x / ulp x)) - x / ulp x\<bar> * ulp x"
    using u by (simp add: abs_mult)
  also have "\<dots> \<le> 1 / 2 * ulp x"
    using roundTiesToEven_error[of "x / ulp x"] u by (intro mult_right_mono) simp_all
  finally show ?thesis by simp
qed

lemma exponent_normal:
  assumes "2 powi (- 1022) \<le> x"
  shows "- 1022 \<le> exponent x"
proof -
  have "(0::rat) < 2 powi (- 1022)" by (simp add: power_int_def)
  then have x0: "0 < x" using assms by linarith
  have less: "(2::rat) powi (- 1022) < 2 powi (exponent x + 1)"
    using assms exponent_bounds(2)[OF x0] by linarith
  show ?thesis
  proof (rule ccontr)
    assume "\<not> - 1022 \<le> exponent x"
    then have "(2::rat) powi (exponent x + 1) \<le> 2 powi (- 1022)"
      by (intro power_int_increasing) simp_all
    with less show False by linarith
  qed
qed

lemma double_relative_error:
  assumes "2 powi (- 1022) \<le> x"
  shows "\<bar>double x - x\<bar> \<le> x / 2 ^ 53"
proof -
  have "(0::rat) < 2 powi (- 1022)" by (simp add: power_int_def)
  then have x0: "0 < x" using assms by linarith
  have "ulp x = 2 powi (exponent x - 52)"
    using exponent_normal[OF assms] by (simp add: ulp_def max_def)
  also have "\<dots> = 2 powi (exponent x) / 2 powi 52"
    by (rule power_int_diff) simp
  finally have "ulp x / 2 = 2 powi (exponent x) / 2 ^ 53"
    by simp
  also have "\<dots> \<le> x / 2 ^ 53"
    using exponent_bounds(1)[OF x0] by (simp add: divide_right_mono)
  finally show ?thesis using double_error[OF x0] by linarith
qed

lemma double_tiny:
  assumes "0 \<le> x" "x < 2 powi (- 1022)"
  shows "double x < 1 / 200"
proof (cases "x = 0")
  case True
  then show ?thesis by simp
next
  case False
  then have x0: "0 < x" using assms by simp
  have "exponent x < - 1022"
  proof (rule ccontr)
    assume "\<not> exponent x < - 1022"
    then have "(2::rat) powi (- 1022) \<le> 2 powi (exponent x)"
      by (intro power_int_increasing) simp_all
    with exponent_bounds(1)[OF x0] assms(2) show False by linarith
  qed
  then have u: "ulp x = 2 powi (- 1074)" by (simp add: ulp_def max_def)
  have a: "(2::rat) powi (- 1022) \<le> 2 powi (- 10)" by (intro power_int_increasing) simp_all
  have b: "(2::rat) powi (- 1074) \<le> 2 powi (- 10)" by (intro power_int_increasing) simp_all
  have c: "(2::rat) powi (- 10) = 1 / 1024" by (simp add: power_int_minus_divide)
  from double_error[OF x0] have "double x \<le> x + ulp x / 2" by linarith
  with assms(2) a b c u show ?thesis by simp
qed

lemma double_upper:
  assumes "0 \<le> x"
  shows "double x \<le> 2 * x + 1 / 200"
proof (cases "x < 2 powi (- 1022)")
  case True
  from double_tiny[OF assms True] assms show ?thesis by linarith
next
  case False
  then have n: "2 powi (- 1022) \<le> x" by simp
  have "x / 2 ^ 53 \<le> x" using assms by (simp add: field_simps)
  with double_relative_error[OF n] show ?thesis by linarith
qed

lemma double_nonzero:
  assumes "2 powi (- 1022) \<le> \<bar>x\<bar>"
  shows "double x \<noteq> 0"
proof -
  have "(0::rat) < 2 powi (- 1022)" by (simp add: power_int_def)
  then have x0: "0 < \<bar>x\<bar>" using assms by linarith
  have "\<bar>double \<bar>x\<bar> - \<bar>x\<bar>\<bar> \<le> \<bar>x\<bar> / 2 ^ 53" using double_relative_error[OF assms] .
  moreover have "\<bar>x\<bar> / 2 ^ 53 < \<bar>x\<bar>" using x0 by simp
  ultimately have "double \<bar>x\<bar> \<noteq> 0" by linarith
  then show ?thesis using double_minus[of x] by (cases "0 \<le> x") (simp_all add: abs_if)
qed

text \<open>
  Some quotients and their binary64 values. The value of \<open>3 / 40\<close> is below 0.075, so
  \<open>toFixed(2)\<close> prints it as 0.07.
\<close>

lemma double_values:
  "double (3 / 40) = 5404319552844595 / 2 ^ 56"
  "double (1 / 3) = 6004799503160661 / 2 ^ 54"
  "double (7 / 100) = 1261007895663739 / 2 ^ 54"
  "double (double (1 / 3) * 100) = 2345624805922133 / 2 ^ 46"
  "double 86400000 = 86400000"
  by code_simp+

text \<open>
  Quotients on the middle between two decimals: the binary64 value decides the side.
\<close>

lemma middle_values:
  "Number_toFixed (double (3 / 40)) 2 = double (7 / 100)"
  "Number_toFixed (double (1296000 / 86400000)) 2 = double (1 / 100)"
  "toFixed (double (double (23 / 80) * 100)) 1 = ''28.7''"
  by code_simp+

lemma toFixed_n_nearest:
  assumes "0 \<le> x"
  shows "\<bar>of_nat (toFixed_n x f) - x * 10 ^ f\<bar> \<le> 1 / 2"
proof -
  let ?y = "x * 10 ^ f + 1 / 2"
  have "0 \<le> ?y" using assms by simp
  then have nn: "0 \<le> \<lfloor>?y\<rfloor>" by simp
  have eq: "(of_nat (toFixed_n x f) :: rat) = of_int \<lfloor>?y\<rfloor>"
    unfolding toFixed_n_def using nn by simp
  have "of_int \<lfloor>?y\<rfloor> \<le> ?y" "?y < of_int \<lfloor>?y\<rfloor> + 1" by linarith+
  then show ?thesis unfolding eq by linarith
qed

lemma toFixed_n_zero:
  assumes "0 \<le> x" "x * 10 ^ f < 1 / 2"
  shows "toFixed_n x f = 0"
proof -
  have "\<lfloor>x * 10 ^ f + 1 / 2\<rfloor> = 0"
    using assms by (intro floor_unique) auto
  then show ?thesis by (simp add: toFixed_n_def)
qed

lemma Number_toFixed_nonneg:
  "0 \<le> x \<Longrightarrow> x < 10 ^ 21 \<Longrightarrow> Number_toFixed x f = double (of_nat (toFixed_n x f) / 10 ^ f)"
  by (simp add: Number_toFixed_def)

text \<open>
  Rounding a quotient to binary64 and then to two decimals gives a hundredth nearest to
  the exact quotient, when the quotient is a multiple of \<open>1 / (200 * g)\<close> and less than
  \<open>2^53\<close> such multiples: then it is either on the middle between two hundredths or farther
  from it than the binary64 rounding can move it.
\<close>

lemma toFixed_n_double_nearest:
  fixes q :: rat and N g :: nat
  assumes q0: "0 \<le> q" and grid: "200 * q * of_nat g = of_nat N" and g0: "0 < g"
      and small: "N < 2 ^ 53"
  shows "\<bar>of_nat (toFixed_n (double q) 2) - 100 * q\<bar> \<le> 1 / 2"
proof (cases "q < 2 powi (- 1022)")
  case True
  have a: "(2::rat) powi (- 1022) \<le> 2 powi (- 10)" by (intro power_int_increasing) simp_all
  have c: "(2::rat) powi (- 10) = 1 / 1024" by (simp add: power_int_minus_divide)
  have d: "double q < 1 / 200" using double_tiny[OF q0 True] .
  then have "toFixed_n (double q) 2 = 0"
    using double_nonneg[OF q0] by (intro toFixed_n_zero) simp_all
  moreover have "q < 1 / 200" using True a c by linarith
  ultimately show ?thesis using q0 by simp
next
  case False
  then have n: "2 powi (- 1022) \<le> q" by simp
  have "(0::rat) < 2 powi (- 1022)" by (simp add: power_int_def)
  then have qpos: "0 < q" using n by linarith
  define d where "d = double q"
  define k where "k = toFixed_n d 2"
  have d0: "0 \<le> d" unfolding d_def using double_nonneg[OF q0] .
  have kd: "\<bar>of_nat k - d * 100\<bar> \<le> 1 / 2"
    using toFixed_n_nearest[OF d0, of 2] unfolding k_def by simp
  have err: "\<bar>d - q\<bar> \<le> q / 2 ^ 53" unfolding d_def using double_relative_error[OF n] .
  have gpos: "(0::rat) < of_nat g" using g0 by simp
  have qN: "q = of_nat N / (200 * of_nat g)"
    using grid gpos by (simp add: field_simps)
  have "q / 2 ^ 53 < 1 / (200 * of_nat g)"
  proof -
    have "(of_nat N :: rat) < 2 ^ 53"
      using small by (metis of_nat_less_iff of_nat_numeral of_nat_power)
    then show ?thesis unfolding qN using gpos by (simp add: field_simps)
  qed
  with err have close: "\<bar>d - q\<bar> < 1 / (200 * of_nat g)" by linarith
  show ?thesis
  proof (rule ccontr)
    assume "\<not> \<bar>of_nat (toFixed_n (double q) 2) - 100 * q\<bar> \<le> 1 / 2"
    then have far: "1 / 2 < \<bar>of_nat k - 100 * q\<bar>" unfolding k_def d_def by simp
    have Ng: "200 * q * of_nat g = (of_nat N :: rat)" using grid by simp
    show False
    proof (cases "of_nat k < 100 * q")
      case True
      with far have up: "of_nat k + 1 / 2 < 100 * q" by linarith
      have e1: "(2 * of_nat k + 1) * of_nat g = (of_nat ((2 * k + 1) * g) :: rat)"
        by (simp add: algebra_simps)
      have e2: "(of_nat ((2 * k + 1) * g + 1) :: rat) = (2 * of_nat k + 1) * of_nat g + 1"
        by (simp add: algebra_simps)
      from up have "2 * of_nat k + 1 < 200 * q" by linarith
      then have "(2 * of_nat k + 1) * of_nat g < 200 * q * of_nat g"
        using gpos by (rule mult_strict_right_mono)
      then have "(of_nat ((2 * k + 1) * g) :: rat) < of_nat N"
        by (simp only: e1 Ng)
      then have "(2 * k + 1) * g < N" by (simp only: of_nat_less_iff)
      then have "(2 * k + 1) * g + 1 \<le> N" by simp
      then have "(of_nat ((2 * k + 1) * g + 1) :: rat) \<le> of_nat N" by (simp only: of_nat_le_iff)
      then have "(2 * of_nat k + 1) * of_nat g + 1 \<le> 200 * q * of_nat g"
        by (simp only: e2 Ng)
      then have "((2 * of_nat k + 1) * of_nat g + 1) / (200 * of_nat g)
                   \<le> 200 * q * of_nat g / (200 * of_nat g)"
        using gpos by (intro divide_right_mono) simp_all
      then have gap: "(2 * of_nat k + 1) / 200 + 1 / (200 * of_nat g) \<le> q"
        using gpos by (simp add: add_divide_distrib)
      from kd have "d * 100 \<le> of_nat k + 1 / 2" by linarith
      then have "d \<le> (2 * of_nat k + 1) / 200" by simp
      with gap close show False by linarith
    next
      case False
      with far have dn: "100 * q < of_nat k - 1 / 2" by linarith
      have e1: "200 * q * of_nat g + of_nat g = (of_nat (N + g) :: rat)" using Ng by simp
      have e2: "(2 * of_nat k - 1) * of_nat g + of_nat g = (of_nat (2 * k * g) :: rat)"
        by (simp add: algebra_simps)
      have e3: "(of_nat (N + g + 1) :: rat) = 200 * q * of_nat g + of_nat g + 1"
        using Ng by simp
      from dn have "200 * q < 2 * of_nat k - 1" by linarith
      then have "200 * q * of_nat g < (2 * of_nat k - 1) * of_nat g"
        using gpos by (rule mult_strict_right_mono)
      then have "200 * q * of_nat g + of_nat g < (2 * of_nat k - 1) * of_nat g + of_nat g"
        by simp
      then have "(of_nat (N + g) :: rat) < of_nat (2 * k * g)" by (simp only: e1 e2)
      then have "N + g < 2 * k * g" by (simp only: of_nat_less_iff)
      then have "N + g + 1 \<le> 2 * k * g" by simp
      then have "(of_nat (N + g + 1) :: rat) \<le> of_nat (2 * k * g)" by (simp only: of_nat_le_iff)
      then have "200 * q * of_nat g + of_nat g + 1 \<le> (2 * of_nat k - 1) * of_nat g + of_nat g"
        by (simp only: e3 e2)
      then have "200 * q * of_nat g + 1 \<le> (2 * of_nat k - 1) * of_nat g" by simp
      then have "(200 * q * of_nat g + 1) / (200 * of_nat g)
                   \<le> (2 * of_nat k - 1) * of_nat g / (200 * of_nat g)"
        using gpos by (intro divide_right_mono) simp_all
      then have gap: "q + 1 / (200 * of_nat g) \<le> (2 * of_nat k - 1) / 200"
        using gpos by (simp add: add_divide_distrib)
      from kd have "of_nat k - 1 / 2 \<le> d * 100" by linarith
      then have "(2 * of_nat k - 1) / 200 \<le> d" by simp
      with gap close show False by linarith
    qed
  qed
qed

lemma one_third_percent: "toFixed (double (double (of_nat 1 / of_nat 3) * 100)) 1 = ''33.3''"
  by code_simp

section \<open>The summary counts\<close>

text \<open>
  Claim C1, amended. The three counts are taken by three independent filters, so they add
  up to the total when every record falls under exactly one of them: a merged record is
  not open, and a record that is not merged is open or closed (what GitHub reports: a
  merged pull request is closed). For such a list of processed records,
  \<open>mergedPRs + openPRs + closedPRs = totalPRs\<close>.
\<close>

theorem counts_partition:
  assumes "\<forall>p \<in> set ps.
             (merged p \<longrightarrow> state p \<noteq> ''open'') \<and>
             (\<not> merged p \<longrightarrow> state p = ''open'' \<or> state p = ''closed'')"
  shows "mergedPRs (summary_of ps) + openPRs (summary_of ps) + closedPRs (summary_of ps)
           = totalPRs (summary_of ps)"
  using assms
  by (induction ps)
     (auto simp: summary_of_def mergedPRs_list_def openPRs_list_def closedPRs_list_def)

theorem counts_partition_witness:
  "mergedPRs (summary_of three_prs) + openPRs (summary_of three_prs)
     + closedPRs (summary_of three_prs) = totalPRs (summary_of three_prs)
   \<and> totalPRs (summary_of three_prs) = 3 \<and> mergedPRs (summary_of three_prs) = 1"
proof -
  have h: "\<forall>p \<in> set three_prs.
             (merged p \<longrightarrow> state p \<noteq> ''open'') \<and>
             (\<not> merged p \<longrightarrow> state p = ''open'' \<or> state p = ''closed'')"
    by (simp add: three_prs_def example_pr_def)
  have "totalPRs (summary_of three_prs) = 3" "mergedPRs (summary_of three_prs) = 1"
    by (simp_all add: summary_of_def three_prs_def example_pr_def mergedPRs_list_def)
  with counts_partition[OF h] show ?thesis by simp
qed

text \<open>
  A record with state \<open>open\<close> and the merged flag set is counted twice: the claim as
  stated, for every list of records, fails there.
\<close>

theorem counts_partition_counterexample:
  "mergedPRs (summary_of [example_pr ''open'' True 0 0])
     + openPRs (summary_of [example_pr ''open'' True 0 0])
     + closedPRs (summary_of [example_pr ''open'' True 0 0]) = 2
   \<and> totalPRs (summary_of [example_pr ''open'' True 0 0]) = 1"
  by (simp add: summary_of_def example_pr_def mergedPRs_list_def openPRs_list_def
      closedPRs_list_def)

lemma forty_prs_average:
  "avgCommentsPerPR (summary_of forty_prs) = double (7 / 100)"
proof -
  have "totalComments_of forty_prs = 3"
    by (simp add: totalComments_of_def foldl_add_sum forty_prs_def example_pr_def
        sum_list_replicate)
  moreover have "length forty_prs = 40" by (simp add: forty_prs_def)
  moreover have "Number_toFixed (double (3 / 40)) 2 = double (7 / 100)" by code_simp
  ultimately show ?thesis by (simp add: summary_of_def)
qed

text \<open>
  Claim C6, amended. \<open>totalComments\<close> is the sum of the comment counts of the processed
  records, and \<open>avgCommentsPerPR\<close> is 0 when there is no record. Otherwise, when 200 times the
  total is below \<open>2^53\<close>, \<open>avgCommentsPerPR\<close> is the number written \<open>n / 100\<close> (the binary64
  value nearest to it) for a natural number \<open>n\<close> nearest to \<open>100 * totalComments / totalPRs\<close>:
  that is \<open>totalComments / totalPRs\<close> rounded to two decimals, to either side when the
  quotient is on the middle between two hundredths. The quotient is computed in binary64
  before it is rounded to two decimals; the bound on the total keeps that first rounding
  from moving the quotient across the middle between two hundredths.
\<close>

theorem avgCommentsPerPR_rounds_quotient:
  assumes "200 * sum_list (map comments ps) < 2 ^ 53"
  shows
  "totalComments (summary_of ps) = sum_list (map comments ps) \<and>
   (totalPRs (summary_of ps) = 0 \<longrightarrow> avgCommentsPerPR (summary_of ps) = 0) \<and>
   (totalPRs (summary_of ps) \<noteq> 0 \<longrightarrow>
      (\<exists>n::nat. avgCommentsPerPR (summary_of ps) = double (of_nat n / 100) \<and>
         \<bar>of_nat n - 100 * (of_nat (totalComments (summary_of ps))
                              / of_nat (totalPRs (summary_of ps)))\<bar> \<le> (1 / 2 :: rat)))"
proof -
  let ?x = "(of_nat (totalComments_of ps) / of_nat (length ps)) :: rat"
  have x0: "0 \<le> ?x" by simp
  have t: "totalComments_of ps = sum_list (map comments ps)"
    by (simp add: totalComments_of_def foldl_add_sum)
  have a: "totalComments (summary_of ps) = sum_list (map comments ps)"
    by (simp add: summary_of_def t)
  have b: "totalPRs (summary_of ps) = 0 \<longrightarrow> avgCommentsPerPR (summary_of ps) = 0"
    by (simp add: summary_of_def)
  have c: "totalPRs (summary_of ps) \<noteq> 0 \<longrightarrow>
      (\<exists>n::nat. avgCommentsPerPR (summary_of ps) = double (of_nat n / 100) \<and>
         \<bar>of_nat n - 100 * (of_nat (totalComments (summary_of ps))
                              / of_nat (totalPRs (summary_of ps)))\<bar> \<le> (1 / 2 :: rat))"
  proof
    assume "totalPRs (summary_of ps) \<noteq> 0"
    then have ne: "length ps > 0" by (simp add: summary_of_def)
    have small: "200 * totalComments_of ps < 2 ^ 53" using assms t by simp
    have grid: "200 * ?x * of_nat (length ps) = of_nat (200 * totalComments_of ps)"
      using ne by simp
    have e2: "\<bar>of_nat (toFixed_n (double ?x) 2) - 100 * ?x\<bar> \<le> 1 / 2"
      using toFixed_n_double_nearest[OF x0 grid ne small] .
    have "(of_nat (totalComments_of ps) :: rat) < of_nat (2 ^ 53)"
      using small by (simp only: of_nat_less_iff)
    moreover have "?x \<le> of_nat (totalComments_of ps)"
    proof -
      have "1 \<le> length ps" using ne by (simp add: Suc_leI)
      then have "(1::rat) \<le> of_nat (length ps)" by (metis of_nat_1 of_nat_le_iff)
      with ne have "?x \<le> of_nat (totalComments_of ps) / 1"
        by (intro divide_left_mono) simp_all
      then show ?thesis by simp
    qed
    ultimately have "2 * ?x + 1 / 200 < 10 ^ 21" by simp
    then have big: "double ?x < 10 ^ 21" using double_upper[OF x0] by linarith
    have e1: "avgCommentsPerPR (summary_of ps) = double (of_nat (toFixed_n (double ?x) 2) / 100)"
      using ne Number_toFixed_nonneg[OF double_nonneg[OF x0] big, of 2]
      by (simp add: summary_of_def)
    have e3: "totalComments (summary_of ps) = totalComments_of ps"
      "totalPRs (summary_of ps) = length ps"
      by (simp_all add: summary_of_def)
    from e1 e2 show "\<exists>n::nat. avgCommentsPerPR (summary_of ps) = double (of_nat n / 100) \<and>
         \<bar>of_nat n - 100 * (of_nat (totalComments (summary_of ps))
                              / of_nat (totalPRs (summary_of ps)))\<bar> \<le> (1 / 2 :: rat)"
      unfolding e3 by blast
  qed
  from a b c show ?thesis by blast
qed

text \<open>
  Seven comments on three PRs: 2.33. Three comments on forty PRs: the quotient 0.075 is
  on the middle between 0.07 and 0.08, both are nearest, and the result is 0.07. No PR: 0.
\<close>

theorem avgCommentsPerPR_witness:
  "totalComments (summary_of three_prs) = 7 \<and> totalPRs (summary_of three_prs) = 3 \<and>
   avgCommentsPerPR (summary_of three_prs) = double (233 / 100) \<and>
   totalComments (summary_of forty_prs) = 3 \<and> totalPRs (summary_of forty_prs) = 40 \<and>
   (\<exists>n::nat. avgCommentsPerPR (summary_of forty_prs) = double (of_nat n / 100) \<and>
      \<bar>of_nat n - 100 * (3 / 40)\<bar> \<le> (1 / 2 :: rat)) \<and>
   avgCommentsPerPR (summary_of forty_prs) = double (7 / 100) \<and>
   totalPRs (summary_of ([] :: pr_data list)) = 0 \<and>
   avgCommentsPerPR (summary_of ([] :: pr_data list)) = 0"
proof -
  have h3: "200 * sum_list (map comments three_prs) < 2 ^ 53"
    by (simp add: three_prs_def example_pr_def)
  have h40: "200 * sum_list (map comments forty_prs) < 2 ^ 53"
    by (simp add: forty_prs_def example_pr_def sum_list_replicate)
  have h0: "200 * sum_list (map comments ([] :: pr_data list)) < 2 ^ 53"
    by simp
  have t: "totalPRs (summary_of three_prs) = 3"
    by (simp add: summary_of_def three_prs_def)
  have c: "totalComments (summary_of three_prs) = 7"
    using avgCommentsPerPR_rounds_quotient[OF h3]
    by (simp add: three_prs_def example_pr_def)
  obtain n :: nat where n: "avgCommentsPerPR (summary_of three_prs) = double (of_nat n / 100)"
    "\<bar>of_nat n - 100 * (of_nat (totalComments (summary_of three_prs))
                              / of_nat (totalPRs (summary_of three_prs)))\<bar> \<le> (1 / 2 :: rat)"
    using avgCommentsPerPR_rounds_quotient[OF h3] t by auto
  from n(2) have "\<bar>(of_nat n :: rat) - 700 / 3\<bar> \<le> 1 / 2"
    unfolding c t by simp
  then have "(of_nat n :: rat) \<le> 700 / 3 + 1 / 2" "700 / 3 - 1 / 2 \<le> (of_nat n :: rat)"
    by linarith+
  then have "(of_nat n :: rat) < of_nat 234" "(of_nat 232 :: rat) < of_nat n"
    by simp_all
  then have "n < 234" "232 < n"
    unfolding of_nat_less_iff by simp_all
  then have "n = 233" by simp
  with n(1) have a: "avgCommentsPerPR (summary_of three_prs) = double (233 / 100)" by simp
  have t40: "totalPRs (summary_of forty_prs) = 40"
    by (simp add: summary_of_def forty_prs_def)
  have c40: "totalComments (summary_of forty_prs) = 3"
    using avgCommentsPerPR_rounds_quotient[OF h40]
    by (simp add: forty_prs_def example_pr_def sum_list_replicate)
  have n40: "\<exists>n::nat. avgCommentsPerPR (summary_of forty_prs) = double (of_nat n / 100) \<and>
      \<bar>of_nat n - 100 * (3 / 40)\<bar> \<le> (1 / 2 :: rat)"
    using avgCommentsPerPR_rounds_quotient[OF h40] unfolding t40 c40 by simp
  have v40: "avgCommentsPerPR (summary_of forty_prs) = double (7 / 100)"
    using forty_prs_average .
  have e: "totalPRs (summary_of ([] :: pr_data list)) = 0" by (simp add: summary_of_def)
  with avgCommentsPerPR_rounds_quotient[OF h0]
  have z: "avgCommentsPerPR (summary_of ([] :: pr_data list)) = 0" by blast
  from c t a c40 t40 n40 v40 e z show ?thesis by simp
qed

lemma huge_values:
  "double (105553116266497 / 3) = 4503599627370539 / 128"
  "double (3518437208883234 / 100) = 1125899906842635 / 32"
  "double (3518437208883233 / 100) = 2251799813685269 / 64"
  by code_simp+

lemma huge_prs_average:
  "avgCommentsPerPR (summary_of huge_prs) = double (3518437208883234 / 100)"
proof -
  have t: "totalComments_of huge_prs = 105553116266497"
    by (simp add: totalComments_of_def huge_prs_def example_pr_def)
  have l: "length huge_prs = 3" by (simp add: huge_prs_def)
  have "\<lfloor>(4503599627370539 / 128 :: rat) * 10 ^ 2 + 1 / 2\<rfloor> = 3518437208883234"
    by (rule floor_unique) simp_all
  then have n: "toFixed_n (4503599627370539 / 128) 2 = 3518437208883234"
    by (simp add: toFixed_n_def)
  have "Number_toFixed (double (105553116266497 / 3)) 2 = double (3518437208883234 / 100)"
    unfolding huge_values(1) by (simp add: Number_toFixed_def n)
  then show ?thesis by (simp add: summary_of_def t l)
qed

text \<open>
  Without the bound on the total the claim fails. With 105553116266497 comments on three
  PRs the quotient is 35184372088832.333...; its binary64 value is 35184372088832.3359375,
  which \<open>toFixed(2)\<close> prints as 35184372088832.34, and that is not the quotient rounded
  to two decimals, 35184372088832.33.
\<close>

theorem avgCommentsPerPR_counterexample:
  "totalComments (summary_of huge_prs) = 105553116266497 \<and>
   totalPRs (summary_of huge_prs) = 3 \<and>
   avgCommentsPerPR (summary_of huge_prs) = double (3518437208883234 / 100) \<and>
   \<not> (\<exists>n::nat. avgCommentsPerPR (summary_of huge_prs) = double (of_nat n / 100) \<and>
          \<bar>of_nat n - 100 * (of_nat (totalComments (summary_of huge_prs))
                               / of_nat (totalPRs (summary_of huge_prs)))\<bar> \<le> (1 / 2 :: rat))"
proof -
  have t: "totalComments (summary_of huge_prs) = 105553116266497"
    by (simp add: summary_of_def totalComments_of_def huge_prs_def example_pr_def)
  have l: "totalPRs (summary_of huge_prs) = 3" by (simp add: summary_of_def huge_prs_def)
  have a: "avgCommentsPerPR (summary_of huge_prs) = double (3518437208883234 / 100)"
    by (rule huge_prs_average)
  have "\<not> (\<exists>n::nat. avgCommentsPerPR (summary_of huge_prs) = double (of_nat n / 100) \<and>
          \<bar>of_nat n - 100 * (of_nat (totalComments (summary_of huge_prs))
                               / of_nat (totalPRs (summary_of huge_prs)))\<bar> \<le> (1 / 2 :: rat))"
  proof
    assume "\<exists>n::nat. avgCommentsPerPR (summary_of huge_prs) = double (of_nat n / 100) \<and>
          \<bar>of_nat n - 100 * (of_nat (totalComments (summary_of huge_prs))
                               / of_nat (totalPRs (summary_of huge_prs)))\<bar> \<le> (1 / 2 :: rat)"
    then obtain n :: nat where n: "avgCommentsPerPR (summary_of huge_prs) = double (of_nat n / 100)"
      "\<bar>of_nat n - 100 * (of_nat (totalComments (summary_of huge_prs))
                               / of_nat (totalPRs (summary_of huge_prs)))\<bar> \<le> (1 / 2 :: rat)"
      by blast
    from n(2) have "\<bar>(of_nat n :: rat) - 10555311626649700 / 3\<bar> \<le> 1 / 2"
      unfolding t l by simp
    then have "(of_nat n :: rat) \<le> 10555311626649700 / 3 + 1 / 2"
      "10555311626649700 / 3 - 1 / 2 \<le> (of_nat n :: rat)"
      by linarith+
    then have "(of_nat n :: rat) < of_nat 3518437208883234" "(of_nat 3518437208883232 :: rat) < of_nat n"
      by simp_all
    then have "n < 3518437208883234" "3518437208883232 < n"
      unfolding of_nat_less_iff by simp_all
    then have "n = 3518437208883233" by simp
    with n(1) a have "double (3518437208883234 / 100) = double (3518437208883233 / 100)" by simp
    then show False unfolding huge_values by simp
  qed
  with t l a show ?thesis by blast
qed

lemma distribution_foldl:
  "foldl (\<lambda>obj pr. count_up obj (changesRequested pr)) m ps
     = foldl count_up m (map changesRequested ps)"
  by (induction ps arbitrary: m) auto

text \<open>
  Claim C8. When the changes-requested counts of the processed records are 0, 1 and 2, in
  this order, \<open>changesRequestedDistribution\<close> is \<open>{0: 1, 1: 1, 2: 1}\<close> and the table and the
  CSV file print 33.3 as the percentage of clean PRs.
\<close>

theorem distribution_example:
  assumes "map changesRequested ps = [0, 1, 2]"
  shows "changesRequestedDistribution (summary_of ps) = [0 \<mapsto> 1, 1 \<mapsto> 1, 2 \<mapsto> 1] \<and>
         cleanPct (summary_of ps) = ''33.3''"
proof -
  have len: "length ps = 3"
    using assms by (metis length_map length_Cons list.size(3) numeral_3_eq_3)
  have d: "changesRequestedDistribution (summary_of ps) = [0 \<mapsto> 1, 1 \<mapsto> 1, 2 \<mapsto> 1]"
  proof -
    have "changesRequestedDistribution_of ps = foldl count_up Map.empty [0, 1, 2]"
      unfolding changesRequestedDistribution_of_def distribution_foldl assms ..
    also have "\<dots> = [0 \<mapsto> 1, 1 \<mapsto> 1, 2 \<mapsto> 1]"
      by (simp add: count_up_def)
    finally show ?thesis by (simp add: summary_of_def)
  qed
  have c: "cleanPRs_of (summary_of ps) = 1"
    unfolding cleanPRs_of_def d by simp
  have t: "totalPRs (summary_of ps) = 3"
    by (simp add: summary_of_def len)
  have "cleanPct (summary_of ps) = ''33.3''"
    unfolding cleanPct_def c t using one_third_percent by simp
  with d show ?thesis by simp
qed

theorem distribution_example_witness:
  "map changesRequested three_prs = [0, 1, 2] \<and>
   changesRequestedDistribution (summary_of three_prs) = [0 \<mapsto> 1, 1 \<mapsto> 1, 2 \<mapsto> 1] \<and>
   cleanPct (summary_of three_prs) = ''33.3''"
proof -
  have h: "map changesRequested three_prs = [0, 1, 2]"
    by (simp add: three_prs_def example_pr_def)
  from h distribution_example[OF h] show ?thesis by simp
qed

section \<open>The per-PR loops\<close>

lemma process_pr_fields:
  "prDetails (process_pr ext oct st p) =
     (case fetch_pr oct p of Inl e \<Rightarrow> prDetails st
      | Inr (rv, cm, cs) \<Rightarrow>
          prDetails st @ [make_prData ext p (repo_owner p @ ''/'' @ repo_name p) rv cm cs])"
  "repoMap (process_pr ext oct st p) =
     (case fetch_pr oct p of Inl e \<Rightarrow> repoMap st
      | Inr (rv, cm, cs) \<Rightarrow>
          update_repoMap (make_prData ext p (repo_owner p @ ''/'' @ repo_name p) rv cm cs) (repoMap st))"
  "stdout (process_pr ext oct st p) = stdout st @ [if isl (fetch_pr oct p) then CHR ''x'' else CHR ''.'']"
  "requests (process_pr ext oct st p) = requests st @ pr_requests p"
  by (auto simp: process_pr_def split: sum.splits prod.splits)

lemma loop_skips_failures:
  "prDetails sa = prDetails sb \<Longrightarrow> repoMap sa = repoMap sb \<Longrightarrow>
   prDetails (foldl (process_pr ext oct) sa ps)
     = prDetails (foldl (process_pr ext oct) sb (filter (\<lambda>p. \<not> isl (fetch_pr oct p)) ps)) \<and>
   repoMap (foldl (process_pr ext oct) sa ps)
     = repoMap (foldl (process_pr ext oct) sb (filter (\<lambda>p. \<not> isl (fetch_pr oct p)) ps))"
proof (induction ps arbitrary: sa sb)
  case Nil
  then show ?case by simp
next
  case (Cons p ps)
  show ?case
  proof (cases "fetch_pr oct p")
    case (Inl e)
    have "prDetails (process_pr ext oct sa p) = prDetails sb"
      "repoMap (process_pr ext oct sa p) = repoMap sb"
      using Inl Cons.prems by (simp_all add: process_pr_fields)
    from Cons.IH[OF this] show ?thesis using Inl by simp
  next
    case (Inr t)
    have "prDetails (process_pr ext oct sa p) = prDetails (process_pr ext oct sb p)"
      "repoMap (process_pr ext oct sa p) = repoMap (process_pr ext oct sb p)"
      using Inr Cons.prems by (simp_all add: process_pr_fields)
    from Cons.IH[OF this] show ?thesis using Inr by simp
  qed
qed

lemma loop_marks:
  "stdout (foldl (process_pr ext oct) st ps)
     = stdout st @ map (\<lambda>p. if isl (fetch_pr oct p) then CHR ''x'' else CHR ''.'') ps"
  by (induction ps arbitrary: st) (simp_all add: process_pr_fields)

lemma metrics_step_fields:
  "prMetricsData (metrics_step oct ow rp st p) =
     (case fetchPRDetails oct ow rp (pull_number p) of Inl e \<Rightarrow> prMetricsData st
      | Inr d \<Rightarrow> prMetricsData st @ [calculatePRMetrics d])"
  "ms_stdout (metrics_step oct ow rp st p)
     = ms_stdout st @ [if isl (fetchPRDetails oct ow rp (pull_number p)) then CHR ''x'' else CHR ''.'']"
  by (auto simp: metrics_step_def split: sum.splits)

lemma metrics_skips_failures:
  "prMetricsData sa = prMetricsData sb \<Longrightarrow>
   prMetricsData (foldl (metrics_step oct ow rp) sa ps)
     = prMetricsData (foldl (metrics_step oct ow rp) sb
         (filter (\<lambda>p. \<not> isl (fetchPRDetails oct ow rp (pull_number p))) ps))"
proof (induction ps arbitrary: sa sb)
  case Nil
  then show ?case by simp
next
  case (Cons p ps)
  show ?case
  proof (cases "fetchPRDetails oct ow rp (pull_number p)")
    case (Inl e)
    have "prMetricsData (metrics_step oct ow rp sa p) = prMetricsData sb"
      using Inl Cons.prems by (simp add: metrics_step_fields)
    from Cons.IH[OF this] show ?thesis using Inl by simp
  next
    case (Inr t)
    have "prMetricsData (metrics_step oct ow rp sa p) = prMetricsData (metrics_step oct ow rp sb p)"
      using Inr Cons.prems by (simp add: metrics_step_fields)
    from Cons.IH[OF this] show ?thesis using Inr by simp
  qed
qed

lemma metrics_marks:
  "ms_stdout (foldl (metrics_step oct ow rp) st ps)
     = ms_stdout st @ map (\<lambda>p. if isl (fetchPRDetails oct ow rp (pull_number p)) then CHR ''x'' else CHR ''.'') ps"
  by (induction ps arbitrary: st) (simp_all add: metrics_step_fields)

text \<open>
  Claim C5. In the loop of the summary and user-stats commands, a PR whose details cannot
  be fetched changes nothing but the output, which gets an \<open>x\<close>, and the requests sent;
  the loop goes on: after the loop the output has one mark per PR, \<open>x\<close> for a failed one
  and \<open>.\<close> for the others, and \<open>prDetails\<close> and \<open>repoMap\<close> (so every count of the summary
  and of the repositories) are what the loop yields on the list without the failed PRs.
  The same holds for \<open>prMetricsData\<close> in the loop of the pr command.
\<close>

theorem failed_item_is_skipped:
  "(isl (fetch_pr oct p) \<longrightarrow>
      process_pr ext oct st p
        = st\<lparr>stdout := stdout st @ ''x'', requests := requests st @ pr_requests p\<rparr>) \<and>
   prDetails (process_prs ext oct ps)
     = prDetails (process_prs ext oct (filter (\<lambda>p. \<not> isl (fetch_pr oct p)) ps)) \<and>
   repoMap (process_prs ext oct ps)
     = repoMap (process_prs ext oct (filter (\<lambda>p. \<not> isl (fetch_pr oct p)) ps)) \<and>
   summary_of (prDetails (process_prs ext oct ps))
     = summary_of (prDetails (process_prs ext oct (filter (\<lambda>p. \<not> isl (fetch_pr oct p)) ps))) \<and>
   stdout (process_prs ext oct ps)
     = map (\<lambda>p. if isl (fetch_pr oct p) then CHR ''x'' else CHR ''.'') ps \<and>
   (isl (fetchPRDetails oct ow rp (pull_number q)) \<longrightarrow>
      metrics_step oct ow rp mst q
        = mst\<lparr>ms_stdout := ms_stdout mst @ ''x'',
              ms_requests := ms_requests mst @ details_requests ow rp (pull_number q)\<rparr>) \<and>
   prMetricsData (metrics_loop oct ow rp qs)
     = prMetricsData (metrics_loop oct ow rp
         (filter (\<lambda>q. \<not> isl (fetchPRDetails oct ow rp (pull_number q))) qs)) \<and>
   ms_stdout (metrics_loop oct ow rp qs)
     = map (\<lambda>q. if isl (fetchPRDetails oct ow rp (pull_number q)) then CHR ''x'' else CHR ''.'') qs"
proof -
  have a: "isl (fetch_pr oct p) \<longrightarrow>
      process_pr ext oct st p
        = st\<lparr>stdout := stdout st @ ''x'', requests := requests st @ pr_requests p\<rparr>"
    by (auto simp: process_pr_def isl_def)
  have b: "prDetails (process_prs ext oct ps)
     = prDetails (process_prs ext oct (filter (\<lambda>p. \<not> isl (fetch_pr oct p)) ps))"
    "repoMap (process_prs ext oct ps)
     = repoMap (process_prs ext oct (filter (\<lambda>p. \<not> isl (fetch_pr oct p)) ps))"
    unfolding process_prs_def using loop_skips_failures[OF refl refl] by blast+
  have c: "stdout (process_prs ext oct ps)
     = map (\<lambda>p. if isl (fetch_pr oct p) then CHR ''x'' else CHR ''.'') ps"
    unfolding process_prs_def loop_marks by simp
  have d: "isl (fetchPRDetails oct ow rp (pull_number q)) \<longrightarrow>
      metrics_step oct ow rp mst q
        = mst\<lparr>ms_stdout := ms_stdout mst @ ''x'',
              ms_requests := ms_requests mst @ details_requests ow rp (pull_number q)\<rparr>"
    by (auto simp: metrics_step_def isl_def)
  have e: "prMetricsData (metrics_loop oct ow rp qs)
     = prMetricsData (metrics_loop oct ow rp
         (filter (\<lambda>q. \<not> isl (fetchPRDetails oct ow rp (pull_number q))) qs))"
    unfolding metrics_loop_def using metrics_skips_failures[OF refl] by blast
  have f: "ms_stdout (metrics_loop oct ow rp qs)
     = map (\<lambda>q. if isl (fetchPRDetails oct ow rp (pull_number q)) then CHR ''x'' else CHR ''.'') qs"
    unfolding metrics_loop_def metrics_marks by simp
  from a b c d e f show ?thesis by simp
qed

lemma flaky_fetch:
  "isl (fetch_pr flaky_octokit (example_item 2 0))"
  "\<not> isl (fetch_pr flaky_octokit (example_item 1 0))"
  by (simp_all add: fetch_pr_def promise_all3_def flaky_octokit_def quiet_octokit_def
      example_item_def repo_owner_def repo_name_def part_at_def)

text \<open>PR 2 cannot be read: the loop over PRs 1 and 2 yields what the loop over PR 1 yields.\<close>

theorem failed_item_is_skipped_witness:
  "isl (fetch_pr flaky_octokit (example_item 2 0)) \<and>
   prDetails (process_pr (\<lambda>c. ()) flaky_octokit empty_state (example_item 2 0)) = [] \<and>
   repoMap (process_pr (\<lambda>c. ()) flaky_octokit empty_state (example_item 2 0)) = [] \<and>
   stdout (process_pr (\<lambda>c. ()) flaky_octokit empty_state (example_item 2 0)) = ''x'' \<and>
   prDetails (process_prs (\<lambda>c. ()) flaky_octokit [example_item 1 0, example_item 2 0])
     = prDetails (process_prs (\<lambda>c. ()) flaky_octokit [example_item 1 0]) \<and>
   stdout (process_prs (\<lambda>c. ()) flaky_octokit [example_item 1 0, example_item 2 0]) = ''.x''"
  using failed_item_is_skipped[of flaky_octokit "example_item 2 0" "\<lambda>c. ()" empty_state
          "[example_item 1 0, example_item 2 0]"]
        flaky_fetch
  by (simp add: empty_state_def)

section \<open>The aggregates of a repository\<close>

lemma map_of_update_repoMap:
  "map_of (update_repoMap d m) (repo d)
     = Some (aggregate d (case map_of m (repo d) of None \<Rightarrow> new_repo_stats (repo d) | Some r \<Rightarrow> r))"
  by (simp add: update_repoMap_def update_conv' map_add_def split: option.splits)

lemma aggregate_fields:
  "rs_totalPRs (aggregate d r) = rs_totalPRs r + 1"
  "rs_mergedPRs (aggregate d r) = rs_mergedPRs r + (if merged d then 1 else 0)"
  "rs_totalComments (aggregate d r) = rs_totalComments r + comments d"
  "rs_changesRequested (aggregate d r) = rs_changesRequested r + changesRequested d"
  by (simp_all add: aggregate_def Let_def split: option.splits)

lemma aggregate_zero_time:
  "timeToMerge d = None \<or> timeToMerge d = Some 0 \<Longrightarrow>
   mergeTimesSum (aggregate d r) = mergeTimesSum r \<and> mergeTimesCount (aggregate d r) = mergeTimesCount r"
  by (auto simp: aggregate_def Let_def split: option.splits)

lemma quick_merge_rounds_to_zero:
  assumes "pull_request_merged_at p = Some m" "created_at p \<le> m" "m - created_at p < 432000"
  shows "timeToMerge_item p = Some 0"
proof -
  define x :: rat where "x = of_int (m - created_at p) / 86400000"
  have x0: "0 \<le> x" using assms(2) by (simp add: x_def)
  have "m - created_at p \<le> 431999" using assms(3) by simp
  then have "(of_int (m - created_at p) :: rat) \<le> 431999"
    by (metis of_int_le_iff of_int_numeral)
  then have xs: "x \<le> 431999 / 86400000" by (simp add: x_def)
  have d0: "0 \<le> double x" using double_nonneg[OF x0] .
  have d1: "double x < 1 / 200"
  proof (cases "x < 2 powi (- 1022)")
    case True
    from double_tiny[OF x0 True] show ?thesis .
  next
    case False
    then have "\<bar>double x - x\<bar> \<le> x / 2 ^ 53" using double_relative_error by simp
    then have "double x \<le> x + x / 2 ^ 53" by linarith
    also have "\<dots> \<le> 431999 / 86400000 + (431999 / 86400000) / 2 ^ 53"
      using xs by (intro add_mono divide_right_mono) simp_all
    also have "\<dots> < 1 / 200" by simp
    finally show ?thesis .
  qed
  then have "double x * 10 ^ 2 < 1 / 2" by simp
  then have "toFixed_n (double x) 2 = 0" using d0 toFixed_n_zero by blast
  moreover have "double x < 10 ^ 21" using d1 by simp
  ultimately have "Number_toFixed (double x) 2 = 0" using d0 by (simp add: Number_toFixed_def)
  then show ?thesis using assms(1) by (simp add: timeToMerge_item_def x_def)
qed

text \<open>
  Claim C10. Let a PR be processed (its details fetched) whose \<open>timeToMerge\<close> is \<open>null\<close> or
  0; a PR merged less than 432000 ms (7.2 minutes) after its creation is such a PR. Then the
  entry of its repository in \<open>repoMap\<close> has the \<open>mergeTimesSum\<close> and the \<open>mergeTimesCount\<close> it
  had before (those of a fresh entry when the repository is new), while \<open>totalPRs\<close> is one
  more, \<open>mergedPRs\<close> is one more when the PR is merged, and \<open>totalComments\<close> and
  \<open>changesRequested\<close> have grown by the counts of the PR.
\<close>

theorem zero_merge_time_not_averaged:
  assumes fetched: "fetch_pr oct p = Inr (rv, cm, cs)"
      and zero: "timeToMerge_item p = None \<or> timeToMerge_item p = Some 0"
      and name: "name = repo_owner p @ ''/'' @ repo_name p"
      and before:
        "before = (case map_of (repoMap st) name of None \<Rightarrow> new_repo_stats name | Some r \<Rightarrow> r)"
  shows "(\<exists>after. map_of (repoMap (process_pr ext oct st p)) name = Some after \<and>
            mergeTimesSum after = mergeTimesSum before \<and>
            mergeTimesCount after = mergeTimesCount before \<and>
            rs_totalPRs after = rs_totalPRs before + 1 \<and>
            rs_mergedPRs after
              = rs_mergedPRs before + (if pull_request_merged_at p = None then 0 else 1) \<and>
            rs_totalComments after
              = rs_totalComments before + length cm
                  + (case sr_comments p of None \<Rightarrow> 0 | Some n \<Rightarrow> n) \<and>
            rs_changesRequested after
              = rs_changesRequested before
                  + length (filter (\<lambda>r. review_state r = ''CHANGES_REQUESTED'') rv)) \<and>
         (\<forall>m. pull_request_merged_at p = Some m \<and> created_at p \<le> m \<and> m - created_at p < 432000
              \<longrightarrow> timeToMerge_item p = Some 0)"
proof -
  let ?d = "make_prData ext p name rv cm cs"
  have r: "repo ?d = name" by (simp add: make_prData_def)
  have t: "timeToMerge ?d = None \<or> timeToMerge ?d = Some 0"
    using zero by (simp add: make_prData_def)
  have m: "map_of (repoMap (process_pr ext oct st p)) name = Some (aggregate ?d before)"
    using fetched map_of_update_repoMap[of ?d "repoMap st"]
    unfolding r before by (simp add: process_pr_fields name)
  have f: "merged ?d = (pull_request_merged_at p \<noteq> None)"
    "comments ?d = length cm + (case sr_comments p of None \<Rightarrow> 0 | Some n \<Rightarrow> n)"
    "changesRequested ?d = length (filter (\<lambda>r. review_state r = ''CHANGES_REQUESTED'') rv)"
    by (simp_all add: make_prData_def)
  have "mergeTimesSum (aggregate ?d before) = mergeTimesSum before"
    "mergeTimesCount (aggregate ?d before) = mergeTimesCount before"
    using aggregate_zero_time[OF t] by simp_all
  moreover have "rs_totalPRs (aggregate ?d before) = rs_totalPRs before + 1"
    "rs_mergedPRs (aggregate ?d before)
       = rs_mergedPRs before + (if pull_request_merged_at p = None then 0 else 1)"
    "rs_totalComments (aggregate ?d before)
       = rs_totalComments before + length cm + (case sr_comments p of None \<Rightarrow> 0 | Some n \<Rightarrow> n)"
    "rs_changesRequested (aggregate ?d before)
       = rs_changesRequested before
           + length (filter (\<lambda>r. review_state r = ''CHANGES_REQUESTED'') rv)"
    by (simp_all add: aggregate_fields f)
  ultimately show ?thesis
    using m quick_merge_rounds_to_zero by blast
qed

text \<open>A PR of a new repository, merged five minutes after its creation.\<close>

theorem zero_merge_time_not_averaged_witness:
  "fetch_pr quiet_octokit (example_item 1 300000) = Inr ([], [], []) \<and>
   timeToMerge_item (example_item 1 300000) = Some 0 \<and>
   (\<exists>after. map_of (repoMap (process_pr (\<lambda>c. ()) quiet_octokit empty_state
                                (example_item 1 300000))) ''octo/demo'' = Some after \<and>
      mergeTimesSum after = 0 \<and> mergeTimesCount after = 0 \<and>
      rs_totalPRs after = 1 \<and> rs_mergedPRs after = 1 \<and> rs_totalComments after = 1)"
proof -
  have f: "fetch_pr quiet_octokit (example_item 1 300000) = Inr ([], [], [])"
    by (simp add: fetch_pr_def promise_all3_def quiet_octokit_def)
  have z: "timeToMerge_item (example_item 1 300000) = Some 0"
    by (rule quick_merge_rounds_to_zero[of _ 300000]) (simp_all add: example_item_def)
  have n: "''octo/demo'' = repo_owner (example_item 1 300000) @ ''/'' @ repo_name (example_item 1 300000)"
    by (simp add: example_item_def repo_owner_def repo_name_def part_at_def)
  have b: "new_repo_stats ''octo/demo''
             = (case map_of (repoMap empty_state) ''octo/demo'' of
                  None \<Rightarrow> new_repo_stats ''octo/demo'' | Some r \<Rightarrow> r)"
    by (simp add: empty_state_def)
  from zero_merge_time_not_averaged[OF f disjI2[OF z] n b, of "\<lambda>c. ()"]
  obtain after where
    "map_of (repoMap (process_pr (\<lambda>c. ()) quiet_octokit empty_state
                                (example_item 1 300000))) ''octo/demo'' = Some after"
    "mergeTimesSum after = 0" "mergeTimesCount after = 0"
    "rs_totalPRs after = 1" "rs_mergedPRs after = 1" "rs_totalComments after = 1"
    by (auto simp: new_repo_stats_def example_item_def)
  with f z show ?thesis by blast
qed

section \<open>AI co-authorship detection\<close>

lemma canonicalize_idem: "canonicalize (canonicalize c) = canonicalize c"
  by (auto simp: canonicalize_def)

lemma isLineTerminator_canonicalize: "isLineTerminator (canonicalize c) = isLineTerminator c"
  by (auto simp: canonicalize_def isLineTerminator_def)

lemma dotStar_rests_canonicalize:
  "dotStar_rests (map canonicalize s) = map (map canonicalize) (dotStar_rests s)"
  by (induction s) (simp_all add: isLineTerminator_canonicalize)

lemma rests_canonicalize:
  "rests r (map canonicalize s) = map (map canonicalize) (rests r s)"
proof (induction r arbitrary: s)
  case (Seq r1 r2)
  have "concat (map (rests r2) (map (map canonicalize) xs))
          = map (map canonicalize) (concat (map (rests r2) xs))" for xs
    by (induction xs) (simp_all add: Seq.IH(2))
  then show ?case by (simp add: Seq.IH(1))
qed (auto simp: canonicalize_idem isLineTerminator_canonicalize dotStar_rests_canonicalize
      split: list.splits)

lemma matches_prefix_canonicalize:
  "matches_prefix r (map canonicalize s) = matches_prefix r s"
  by (simp add: matches_prefix_def rests_canonicalize)

lemma regex_test_canonicalize:
  "regex_test r (map canonicalize s) = regex_test r s"
proof (induction s)
  case Nil
  then show ?case using matches_prefix_canonicalize[of r "[]"] by simp
next
  case (Cons c s)
  then show ?case using matches_prefix_canonicalize[of r "c # s"] by simp
qed

lemma regex_test_variant:
  "map canonicalize m = map canonicalize m' \<Longrightarrow> regex_test r m = regex_test r m'"
  using regex_test_canonicalize[of r m] regex_test_canonicalize[of r m'] by simp

lemma detect_step_variant:
  assumes "map canonicalize m = map canonicalize m'"
  shows "foldl (detect_step m) acc pts = foldl (detect_step m') acc pts"
proof (induction pts arbitrary: acc)
  case Nil
  then show ?case by simp
next
  case (Cons pt pts)
  obtain p t where pt: "pt = (p, t)" by (cases pt)
  show ?case using Cons regex_test_variant[OF assms, of p] by (simp add: pt)
qed

lemma detect_variant:
  "map canonicalize m = map canonicalize m' \<Longrightarrow> detectAICoAuthorship m = detectAICoAuthorship m'"
  using detect_step_variant[of m m' "[]" aiPatterns] by (simp add: detectAICoAuthorship_def)

lemma detect_step_distinct:
  "distinct acc \<Longrightarrow> distinct (foldl (detect_step m) acc pts)"
proof (induction pts arbitrary: acc)
  case Nil
  then show ?case by simp
next
  case (Cons pt pts)
  obtain p t where pt: "pt = (p, t)" by (cases pt)
  show ?case using Cons by (simp add: pt)
qed

lemma detect_step_nonempty:
  "(foldl (detect_step m) acc pts \<noteq> []) = (acc \<noteq> [] \<or> (\<exists>pt \<in> set pts. regex_test (fst pt) m))"
proof (induction pts arbitrary: acc)
  case Nil
  then show ?case by simp
next
  case (Cons pt pts)
  obtain p t where pt: "pt = (p, t)" by (cases pt)
  show ?case using Cons by (auto simp: pt)
qed

lemma detect_facts:
  "distinct (detected_aiTools (detectAICoAuthorship m))"
  "isAIAssisted (detectAICoAuthorship m) = (detected_aiTools (detectAICoAuthorship m) \<noteq> [])"
  "isAIAssisted (detectAICoAuthorship m) = (\<exists>pt \<in> set aiPatterns. regex_test (fst pt) m)"
  using detect_step_nonempty[of m "[]" aiPatterns]
  by (simp_all add: detectAICoAuthorship_def Let_def detect_step_distinct)

lemma set_add_distinct: "distinct s \<Longrightarrow> distinct (foldl set_add s xs)"
  by (induction xs arbitrary: s) (simp_all add: set_add_def)

lemma set_add_set: "set (foldl set_add s xs) = set s \<union> set xs"
  by (induction xs arbitrary: s) (auto simp: set_add_def)

lemma ai_loop:
  "distinct used \<Longrightarrow>
   fst (foldl ai_step (ai, used) cs)
     = (ai \<or> (\<exists>c \<in> set cs. isAIAssisted (detectAICoAuthorship (commit_message c)))) \<and>
   distinct (snd (foldl ai_step (ai, used) cs)) \<and>
   set (snd (foldl ai_step (ai, used) cs))
     = set used \<union> (\<Union>c \<in> set cs. set (detected_aiTools (detectAICoAuthorship (commit_message c))))"
proof (induction cs arbitrary: ai used)
  case Nil
  then show ?case by simp
next
  case (Cons c cs)
  show ?case
  proof (cases "isAIAssisted (detectAICoAuthorship (commit_message c))")
    case True
    have d: "distinct (foldl set_add used (detected_aiTools (detectAICoAuthorship (commit_message c))))"
      using Cons.prems by (rule set_add_distinct)
    show ?thesis using True Cons.IH[OF d, of True] by (auto simp: set_add_set)
  next
    case False
    then have "detected_aiTools (detectAICoAuthorship (commit_message c)) = []"
      by (simp add: detect_facts(2))
    then show ?thesis using False Cons.IH[OF Cons.prems, of ai] by auto
  qed
qed

text \<open>
  Claim C3. \<open>detectAICoAuthorship\<close> gives the same result on two messages that differ only
  in the case of letters (code unit by code unit they have the same canonical form, the
  one the patterns are matched with); its \<open>aiTools\<close> has no tool twice; \<open>isAIAssisted\<close>
  holds exactly when \<open>aiTools\<close> is not empty, which is when some pattern of \<open>aiPatterns\<close>
  matches the message. For a PR, \<open>aiAssisted\<close> holds exactly when a pattern matches the
  message of one of its (fetched) commits, and \<open>aiTools\<close> has no tool twice and holds
  the tools detected in its commits.
\<close>

theorem ai_detection:
  "(map canonicalize m = map canonicalize m' \<longrightarrow>
      detectAICoAuthorship m = detectAICoAuthorship m') \<and>
   distinct (detected_aiTools (detectAICoAuthorship m)) \<and>
   isAIAssisted (detectAICoAuthorship m) = (detected_aiTools (detectAICoAuthorship m) \<noteq> []) \<and>
   isAIAssisted (detectAICoAuthorship m) = (\<exists>pt \<in> set aiPatterns. regex_test (fst pt) m) \<and>
   aiAssisted (make_prData ext item name rv cm cs)
     = (\<exists>c \<in> set cs. \<exists>pt \<in> set aiPatterns. regex_test (fst pt) (commit_message c)) \<and>
   distinct (aiTools (make_prData ext item name rv cm cs)) \<and>
   set (aiTools (make_prData ext item name rv cm cs))
     = (\<Union>c \<in> set cs. set (detected_aiTools (detectAICoAuthorship (commit_message c))))"
proof -
  have a: "map canonicalize m = map canonicalize m' \<longrightarrow>
      detectAICoAuthorship m = detectAICoAuthorship m'"
    using detect_variant by blast
  have l: "fst (detect_commits cs)
       = (\<exists>c \<in> set cs. isAIAssisted (detectAICoAuthorship (commit_message c)))"
    "distinct (snd (detect_commits cs))"
    "set (snd (detect_commits cs))
       = (\<Union>c \<in> set cs. set (detected_aiTools (detectAICoAuthorship (commit_message c))))"
    using ai_loop[of "[]" False cs] by (simp_all add: detect_commits_def)
  have p: "aiAssisted (make_prData ext item name rv cm cs)
     = (\<exists>c \<in> set cs. \<exists>pt \<in> set aiPatterns. regex_test (fst pt) (commit_message c))"
    by (simp add: make_prData_def l(1) detect_facts(3))
  have q: "distinct (aiTools (make_prData ext item name rv cm cs))"
    "set (aiTools (make_prData ext item name rv cm cs))
     = (\<Union>c \<in> set cs. set (detected_aiTools (detectAICoAuthorship (commit_message c))))"
    by (simp_all add: make_prData_def l)
  from a detect_facts[of m] p q show ?thesis by blast
qed

lemma tagged_message:
  "detectAICoAuthorship (js ''[ai] X'')
     = \<lparr>isAIAssisted = True, detected_aiTools = [''AI (tagged)'']\<rparr>"
  by (simp add: detectAICoAuthorship_def aiPatterns_def coAuthoredBy_def lits_def js_def
      matches_prefix_def canonicalize_def isLineTerminator_def)

theorem ai_detection_witness:
  "map canonicalize (js ''[AI] x'') = map canonicalize (js ''[ai] X'') \<and>
   detectAICoAuthorship (js ''[AI] x'')
     = \<lparr>isAIAssisted = True, detected_aiTools = [''AI (tagged)'']\<rparr>"
proof -
  have h: "map canonicalize (js ''[AI] x'') = map canonicalize (js ''[ai] X'')"
    by (simp add: js_def canonicalize_def)
  from ai_detection[of "js ''[AI] x''" "js ''[ai] X''"] h
  have "detectAICoAuthorship (js ''[AI] x'') = detectAICoAuthorship (js ''[ai] X'')"
    by blast
  with h tagged_message show ?thesis by simp
qed

text \<open>
  Two messages with trailers: both patterns for Claude match the first, which names the
  tool once; in the second the tag is on the line after the trailer, and \<open>.*\<close> does not
  run over the end of a line.
\<close>

lemma trailer_message:
  "detectAICoAuthorship (js ''Fix parser'' @ [10, 10]
      @ js ''Co-Authored-By: Claude <noreply@anthropic.com>'')
     = \<lparr>isAIAssisted = True, detected_aiTools = [''Claude'']\<rparr>"
  by (simp add: detectAICoAuthorship_def aiPatterns_def coAuthoredBy_def lits_def js_def
      matches_prefix_def canonicalize_def isLineTerminator_def)

lemma trailer_and_tag_message:
  "detectAICoAuthorship (js ''Co-authored-by: Copilot'' @ [10] @ js ''[claude]'')
     = \<lparr>isAIAssisted = True, detected_aiTools = [''GitHub Copilot'', ''AI (tagged)'']\<rparr>"
  by (simp add: detectAICoAuthorship_def aiPatterns_def coAuthoredBy_def lits_def js_def
      matches_prefix_def canonicalize_def isLineTerminator_def)

section \<open>Paginated fetches\<close>

lemma capped_run:
  assumes "capped_loop cap mk call keep page hasMore items sent = (sent', r)"
  shows "\<exists>k. sent' = sent @ map mk [page..<page + k] \<and>
             (k = 0 \<or> page + k \<le> cap + 1) \<and>
             (\<forall>p. page \<le> p \<and> p + 1 < page + k \<longrightarrow> full_page mk call p) \<and>
             (hasMore \<and> page + k \<le> cap \<longrightarrow> 1 \<le> k \<and> \<not> full_page mk call (page + k - 1)) \<and>
             ((\<forall>p d. call (mk p) = Inr d \<longrightarrow> length (keep d) \<le> 100) \<longrightarrow>
                (\<forall>xs. r = Inr xs \<longrightarrow> length xs \<le> length items + 100 * k))"
  using assms
proof (induction cap mk call keep page hasMore items sent arbitrary: sent' r
       rule: capped_loop.induct)
  case (1 cap mk call keep page hasMore items sent)
  show ?case
  proof (cases "hasMore \<and> page \<le> cap")
    case False
    have "capped_loop cap mk call keep page hasMore items sent = (sent, Inr items)"
      using False by (subst capped_loop.simps) auto
    then have "sent' = sent" "r = Inr items"
      using "1.prems" by simp_all
    then show ?thesis using False by (intro exI[of _ 0]) auto
  next
    case True
    show ?thesis
    proof (cases "call (mk page)")
      case (Inl e)
      have "capped_loop cap mk call keep page hasMore items sent = (sent @ [mk page], Inl e)"
        using True Inl by (subst capped_loop.simps) auto
      then have "sent' = sent @ [mk page]" "r = Inl e"
        using "1.prems" by simp_all
      then show ?thesis using True Inl
        by (intro exI[of _ 1]) (auto simp: full_page_def)
    next
      case (Inr data)
      have "capped_loop cap mk call keep page hasMore items sent
              = capped_loop cap mk call keep (page + 1) (length data = 100)
                        (items @ keep data) (sent @ [mk page])"
        using True Inr by (subst capped_loop.simps) auto
      then have rec: "capped_loop cap mk call keep (page + 1) (length data = 100)
                        (items @ keep data) (sent @ [mk page]) = (sent', r)"
        using "1.prems" by simp
      from "1.IH"[OF True Inr rec] obtain k where k:
        "sent' = (sent @ [mk page]) @ map mk [page + 1..<page + 1 + k]"
        "k = 0 \<or> page + 1 + k \<le> cap + 1"
        "\<forall>p. page + 1 \<le> p \<and> p + 1 < page + 1 + k \<longrightarrow> full_page mk call p"
        "length data = 100 \<and> page + 1 + k \<le> cap \<longrightarrow> 1 \<le> k \<and> \<not> full_page mk call (page + 1 + k - 1)"
        "(\<forall>p d. call (mk p) = Inr d \<longrightarrow> length (keep d) \<le> 100) \<longrightarrow>
                (\<forall>xs. r = Inr xs \<longrightarrow> length xs \<le> length (items @ keep data) + 100 * k)"
        by (elim exE conjE) (rule that)
      have notmore: "length data \<noteq> 100 \<Longrightarrow> k = 0"
      proof -
        assume n: "length data \<noteq> 100"
        have "capped_loop cap mk call keep (page + 1) False (items @ keep data) (sent @ [mk page])
                = (sent @ [mk page], Inr (items @ keep data))"
          by (subst capped_loop.simps) simp
        with rec n have "length sent' = length sent + 1" by simp
        moreover from k(1) have "length sent' = length sent + 1 + k" by simp
        ultimately show "k = 0" by simp
      qed
      have s: "sent' = sent @ map mk [page..<page + (k + 1)]"
        using k(1) by (simp add: upt_rec[of page])
      have b: "k + 1 = 0 \<or> page + (k + 1) \<le> cap + 1"
        using k(2) True by auto
      have f: "\<forall>p. page \<le> p \<and> p + 1 < page + (k + 1) \<longrightarrow> full_page mk call p"
      proof (intro allI impI)
        fix p assume p: "page \<le> p \<and> p + 1 < page + (k + 1)"
        show "full_page mk call p"
        proof (cases "p = page")
          case True
          with p have "k \<noteq> 0" by simp
          with notmore have "length data = 100" by blast
          then show ?thesis using Inr \<open>p = page\<close> by (simp add: full_page_def)
        next
          case False
          with p k(3) show ?thesis by simp
        qed
      qed
      have st: "hasMore \<and> page + (k + 1) \<le> cap \<longrightarrow>
                  1 \<le> k + 1 \<and> \<not> full_page mk call (page + (k + 1) - 1)"
      proof (intro impI)
        assume h: "hasMore \<and> page + (k + 1) \<le> cap"
        show "1 \<le> k + 1 \<and> \<not> full_page mk call (page + (k + 1) - 1)"
        proof (cases "length data = 100")
          case True
          with k(4) h have "1 \<le> k" "\<not> full_page mk call (page + 1 + k - 1)" by simp_all
          then show ?thesis by (simp add: add.commute add.left_commute)
        next
          case False
          with notmore have "k = 0" by blast
          then show ?thesis using False Inr by (simp add: full_page_def)
        qed
      qed
      have l: "(\<forall>p d. call (mk p) = Inr d \<longrightarrow> length (keep d) \<le> 100) \<longrightarrow>
                (\<forall>xs. r = Inr xs \<longrightarrow> length xs \<le> length items + 100 * (k + 1))"
      proof (intro impI allI)
        fix xs
        assume bd: "\<forall>p d. call (mk p) = Inr d \<longrightarrow> length (keep d) \<le> 100" and rx: "r = Inr xs"
        from bd Inr have "length (keep data) \<le> 100" by blast
        moreover from k(5) bd rx have "length xs \<le> length (items @ keep data) + 100 * k" by blast
        ultimately show "length xs \<le> length items + 100 * (k + 1)" by simp
      qed
      show ?thesis
        by (rule exI[of _ "k + 1"]) (use s b f st l in blast)
    qed
  qed
qed

lemma capped_from_start:
  "\<exists>k \<le> cap. fst (capped_loop cap mk call keep 1 True [] []) = map mk [1..<Suc k] \<and>
      (\<forall>p. 1 \<le> p \<and> p < k \<longrightarrow> full_page mk call p) \<and>
      (k < cap \<longrightarrow> 1 \<le> k \<and> \<not> full_page mk call k) \<and>
      ((\<forall>p d. call (mk p) = Inr d \<longrightarrow> length (keep d) \<le> 100) \<longrightarrow>
         (\<forall>xs. snd (capped_loop cap mk call keep 1 True [] []) = Inr xs \<longrightarrow> length xs \<le> 100 * k))"
proof -
  obtain sent' r where e: "capped_loop cap mk call keep 1 True [] [] = (sent', r)"
    by (cases "capped_loop cap mk call keep 1 True [] []")
  from capped_run[OF e] obtain k where k:
    "sent' = [] @ map mk [1..<1 + k]"
    "k = 0 \<or> 1 + k \<le> cap + 1"
    "\<forall>p. 1 \<le> p \<and> p + 1 < 1 + k \<longrightarrow> full_page mk call p"
    "True \<and> 1 + k \<le> cap \<longrightarrow> 1 \<le> k \<and> \<not> full_page mk call (1 + k - 1)"
    "(\<forall>p d. call (mk p) = Inr d \<longrightarrow> length (keep d) \<le> 100) \<longrightarrow>
                (\<forall>xs. r = Inr xs \<longrightarrow> length xs \<le> length ([] :: 'a list) + 100 * k)"
    by (elim exE conjE) (rule that)
  have "k \<le> cap" using k(2) by auto
  moreover have "fst (capped_loop cap mk call keep 1 True [] []) = map mk [1..<Suc k]"
    using e k(1) by simp
  moreover have "\<forall>p. 1 \<le> p \<and> p < k \<longrightarrow> full_page mk call p" using k(3) by simp
  moreover have "k < cap \<longrightarrow> 1 \<le> k \<and> \<not> full_page mk call k" using k(4) by simp
  moreover have "(\<forall>p d. call (mk p) = Inr d \<longrightarrow> length (keep d) \<le> 100) \<longrightarrow>
         (\<forall>xs. snd (capped_loop cap mk call keep 1 True [] []) = Inr xs \<longrightarrow> length xs \<le> 100 * k)"
    using e k(5) by simp
  ultimately show ?thesis by blast
qed

lemma uncapped_stop:
  "uncapped_loop mk call keep page False items sent = Some (sent, Inr items)"
  by (simp add: uncapped_loop.simps[of mk call keep page False])

lemma uncapped_run:
  assumes "\<forall>p. page \<le> p \<and> p < page + n \<longrightarrow> full_page mk call p"
      and "\<not> full_page mk call (page + n)"
  shows "uncapped_loop mk call keep page True items sent
           = Some (sent @ map mk [page..<page + n + 1],
                   case call (mk (page + n)) of
                     Inl e \<Rightarrow> Inl e
                   | Inr d \<Rightarrow> Inr (items @ concat (map (\<lambda>p. keep (data_of (call (mk p))))
                                                    [page..<page + n + 1])))"
  using assms
proof (induction n arbitrary: page items sent)
  case 0
  then show ?case
    by (simp add: uncapped_loop.simps[of mk call keep page True] uncapped_stop full_page_def
        data_of_def split: sum.splits)
next
  case (Suc n)
  from Suc.prems(1) have "full_page mk call page" by simp
  then obtain d where d: "call (mk page) = Inr d" "length d = 100"
    by (auto simp: full_page_def split: sum.splits)
  have a: "\<forall>p. page + 1 \<le> p \<and> p < page + 1 + n \<longrightarrow> full_page mk call p"
    using Suc.prems(1) by simp
  have b: "\<not> full_page mk call (page + 1 + n)" using Suc.prems(2) by simp
  have "uncapped_loop mk call keep page True items sent
          = uncapped_loop mk call keep (page + 1) True (items @ keep d) (sent @ [mk page])"
    using d by (simp add: uncapped_loop.simps[of mk call keep page True])
  also note Suc.IH[OF a b, of "items @ keep d" "sent @ [mk page]"]
  finally show ?case
    using d by (simp add: upt_rec[of page] data_of_def split: sum.splits)
qed

lemma uncapped_returns_only_if:
  assumes "uncapped_loop mk call keep page hasMore items sent = Some y"
  shows "\<not> hasMore \<or> (\<exists>p \<ge> page. \<not> full_page mk call p)"
proof (rule uncapped_loop.raw_induct[where
         P = "\<lambda>mk call keep page hasMore items sent y.
                \<not> hasMore \<or> (\<exists>p \<ge> page. \<not> full_page mk call p)", OF _ assms])
  fix f :: "(nat \<Rightarrow> request) \<Rightarrow> (request \<Rightarrow> api_error + 'a list) \<Rightarrow> ('a list \<Rightarrow> 'a list)
            \<Rightarrow> nat \<Rightarrow> bool \<Rightarrow> 'a list \<Rightarrow> request list \<Rightarrow> (request list \<times> (api_error + 'a list)) option"
  fix mk call keep page hasMore items sent y
  assume IH: "\<And>mk call keep page hasMore items sent y.
                f mk call keep page hasMore items sent = Some y \<Longrightarrow>
                \<not> hasMore \<or> (\<exists>p \<ge> page. \<not> full_page mk call p)"
    and body: "(if hasMore
                then case call (mk page) of
                       Inl err \<Rightarrow> Some (sent @ [mk page], Inl err)
                     | Inr data \<Rightarrow>
                         f mk call keep (page + 1) (length data = 100)
                           (items @ keep data) (sent @ [mk page])
                else Some (sent, Inr items)) = Some y"
  show "\<not> hasMore \<or> (\<exists>p \<ge> page. \<not> full_page mk call p)"
  proof (cases "hasMore \<and> full_page mk call page")
    case False
    then show ?thesis by auto
  next
    case True
    then obtain d where d: "call (mk page) = Inr d" "length d = 100"
      by (auto simp: full_page_def split: sum.splits)
    with True body
    have "f mk call keep (page + 1) True (items @ keep d) (sent @ [mk page]) = Some y"
      by simp
    from IH[OF this] obtain p where "p \<ge> page + 1" "\<not> full_page mk call p" by auto
    then show ?thesis by (intro disjI2 exI[of _ p]) simp
  qed
qed

lemma uncapped_returns_iff:
  "(uncapped_loop mk call keep 1 True [] [] \<noteq> None) = (\<exists>p \<ge> 1. \<not> full_page mk call p)"
proof
  assume "uncapped_loop mk call keep 1 True [] [] \<noteq> None"
  then obtain y where "uncapped_loop mk call keep 1 True [] [] = Some y" by auto
  from uncapped_returns_only_if[OF this] show "\<exists>p \<ge> 1. \<not> full_page mk call p" by simp
next
  assume "\<exists>p \<ge> 1. \<not> full_page mk call p"
  then obtain q where q: "q \<ge> 1" "\<not> full_page mk call q" by blast
  define p where "p = (LEAST p. p \<ge> 1 \<and> \<not> full_page mk call p)"
  have p: "p \<ge> 1 \<and> \<not> full_page mk call p"
    unfolding p_def using q by (intro LeastI[of "\<lambda>p. p \<ge> 1 \<and> \<not> full_page mk call p" q]) simp
  have least: "\<And>i. 1 \<le> i \<Longrightarrow> i < p \<Longrightarrow> full_page mk call i"
    unfolding p_def using not_less_Least by blast
  have a: "\<forall>i. 1 \<le> i \<and> i < 1 + (p - 1) \<longrightarrow> full_page mk call i"
    using least p by simp
  have b: "\<not> full_page mk call (1 + (p - 1))" using p by simp
  from uncapped_run[OF a b] show "uncapped_loop mk call keep 1 True [] [] \<noteq> None" by simp
qed

lemma capped_bounds:
  "length (fst (capped_loop cap mk call keep 1 True [] [])) \<le> cap \<and>
   set (fst (capped_loop cap mk call keep 1 True [] [])) \<subseteq> mk ` {1..cap} \<and>
   ((\<forall>r d. call r = Inr d \<longrightarrow> length (keep d) \<le> 100) \<longrightarrow>
      (\<forall>xs. snd (capped_loop cap mk call keep 1 True [] []) = Inr xs \<longrightarrow> length xs \<le> 100 * cap))"
proof -
  from capped_from_start[of cap mk call keep] obtain k where k:
    "k \<le> cap"
    "fst (capped_loop cap mk call keep 1 True [] []) = map mk [1..<Suc k]"
    "(\<forall>p d. call (mk p) = Inr d \<longrightarrow> length (keep d) \<le> 100) \<longrightarrow>
       (\<forall>xs. snd (capped_loop cap mk call keep 1 True [] []) = Inr xs \<longrightarrow> length xs \<le> 100 * k)"
    by (elim exE conjE) (rule that)
  have a: "length (fst (capped_loop cap mk call keep 1 True [] [])) \<le> cap"
    unfolding k(2) using k(1) by simp
  have b: "set (fst (capped_loop cap mk call keep 1 True [] [])) \<subseteq> mk ` {1..cap}"
    unfolding k(2) using k(1) by auto
  have c: "(\<forall>r d. call r = Inr d \<longrightarrow> length (keep d) \<le> 100) \<longrightarrow>
      (\<forall>xs. snd (capped_loop cap mk call keep 1 True [] []) = Inr xs \<longrightarrow> length xs \<le> 100 * cap)"
  proof (intro impI allI)
    fix xs
    assume h: "\<forall>r d. call r = Inr d \<longrightarrow> length (keep d) \<le> 100"
      and r: "snd (capped_loop cap mk call keep 1 True [] []) = Inr xs"
    from h have "\<forall>p d. call (mk p) = Inr d \<longrightarrow> length (keep d) \<le> 100" by blast
    with k(3) r have "length xs \<le> 100 * k" by blast
    with k(1) show "length xs \<le> 100 * cap" by simp
  qed
  from a b c show ?thesis by blast
qed

lemma capped_stop:
  "capped_loop cap mk call keep page False items sent = (sent, Inr items)"
  by (subst capped_loop.simps) simp

lemma capped_over:
  "cap < page \<Longrightarrow> capped_loop cap mk call keep page hasMore items sent = (sent, Inr items)"
  by (subst capped_loop.simps) simp

lemma capped_exact:
  assumes "\<forall>p. page \<le> p \<and> p < page + n \<longrightarrow> full_page mk call p"
      and "page + n \<le> cap"
      and "\<not> full_page mk call (page + n) \<or> page + n = cap"
  shows "capped_loop cap mk call keep page True items sent
           = (sent @ map mk [page..<page + n + 1],
              case call (mk (page + n)) of
                Inl e \<Rightarrow> Inl e
              | Inr d \<Rightarrow> Inr (items @ concat (map (\<lambda>p. keep (data_of (call (mk p))))
                                               [page..<page + n + 1])))"
  using assms
proof (induction n arbitrary: page items sent)
  case 0
  then have le: "page \<le> cap" by simp
  show ?case
  proof (cases "call (mk page)")
    case (Inl e)
    then show ?thesis using le by (subst capped_loop.simps) simp
  next
    case (Inr d)
    have step: "capped_loop cap mk call keep page True items sent
            = capped_loop cap mk call keep (page + 1) (length d = 100) (items @ keep d)
                (sent @ [mk page])"
      using le Inr by (subst capped_loop.simps) simp
    show ?thesis
    proof (cases "length d = 100")
      case True
      then have "full_page mk call page" using Inr by (simp add: full_page_def)
      with "0.prems"(3) have "page = cap" by simp
      then show ?thesis unfolding step using Inr by (simp add: capped_over data_of_def)
    next
      case False
      then show ?thesis unfolding step using Inr by (simp add: capped_stop data_of_def)
    qed
  qed
next
  case (Suc n)
  from Suc.prems(1) have "full_page mk call page" by simp
  then obtain d where d: "call (mk page) = Inr d" "length d = 100"
    by (auto simp: full_page_def split: sum.splits)
  have le: "page \<le> cap" using Suc.prems(2) by simp
  have a: "\<forall>p. page + 1 \<le> p \<and> p < page + 1 + n \<longrightarrow> full_page mk call p"
    using Suc.prems(1) by simp
  have b: "page + 1 + n \<le> cap" using Suc.prems(2) by simp
  have c: "\<not> full_page mk call (page + 1 + n) \<or> page + 1 + n = cap"
    using Suc.prems(3) by simp
  have "capped_loop cap mk call keep page True items sent
          = capped_loop cap mk call keep (page + 1) True (items @ keep d) (sent @ [mk page])"
    using le d by (subst capped_loop.simps) simp
  also note Suc.IH[OF a b c, of "items @ keep d" "sent @ [mk page]"]
  finally show ?case
    using d by (simp add: upt_rec[of page] data_of_def split: sum.splits)
qed

lemma capped_result:
  assumes "spec_last_page (Some cap) mk call k"
  shows "capped_loop cap mk call keep 1 True [] [] = spec_result_of_pages mk call keep k"
proof -
  from assms have k: "1 \<le> k" "k \<le> cap" "\<not> full_page mk call k \<or> k = cap"
    and f: "list_all (full_page mk call) [1..<k]"
    by (simp_all add: spec_last_page_def)
  have a: "\<forall>p. 1 \<le> p \<and> p < 1 + (k - 1) \<longrightarrow> full_page mk call p"
    using f k(1) by (auto simp: list_all_iff)
  have b: "1 + (k - 1) \<le> cap" using k by simp
  have c: "\<not> full_page mk call (1 + (k - 1)) \<or> 1 + (k - 1) = cap" using k by simp
  have e: "1 + (k - 1) = k" using k(1) by simp
  from capped_exact[OF a b c, of keep "[]" "[]", unfolded e]
  show ?thesis by (simp add: spec_result_of_pages_def cong: sum.case_cong)
qed

lemma uncapped_result:
  assumes "spec_last_page None mk call k"
  shows "uncapped_loop mk call keep 1 True [] [] = Some (spec_result_of_pages mk call keep k)"
proof -
  from assms have k: "1 \<le> k" "\<not> full_page mk call k"
    and f: "list_all (full_page mk call) [1..<k]"
    by (simp_all add: spec_last_page_def)
  have a: "\<forall>p. 1 \<le> p \<and> p < 1 + (k - 1) \<longrightarrow> full_page mk call p"
    using f k(1) by (auto simp: list_all_iff)
  have b: "\<not> full_page mk call (1 + (k - 1))" using k by simp
  have e: "1 + (k - 1) = k" using k(1) by simp
  from uncapped_run[OF a b, of keep "[]" "[]", unfolded e]
  show ?thesis by (simp add: spec_result_of_pages_def cong: sum.case_cong)
qed

lemma capped_stops_somewhere:
  assumes "1 \<le> cap"
  shows "\<exists>k. spec_last_page (Some cap) mk call k"
proof -
  define k where "k = (LEAST p. 1 \<le> p \<and> (\<not> full_page mk call p \<or> p = cap))"
  have ex: "1 \<le> cap \<and> (\<not> full_page mk call cap \<or> cap = cap)" using assms by simp
  have p: "1 \<le> k \<and> (\<not> full_page mk call k \<or> k = cap)"
    unfolding k_def by (rule LeastI[of "\<lambda>p. 1 \<le> p \<and> (\<not> full_page mk call p \<or> p = cap)", OF ex])
  have le: "k \<le> cap"
    unfolding k_def by (rule Least_le[of "\<lambda>p. 1 \<le> p \<and> (\<not> full_page mk call p \<or> p = cap)", OF ex])
  have least: "\<And>i. 1 \<le> i \<Longrightarrow> i < k \<Longrightarrow> full_page mk call i"
    unfolding k_def using not_less_Least by blast
  have "list_all (full_page mk call) [1..<k]"
    using least by (auto simp: list_all_iff)
  with p le show ?thesis by (auto simp: spec_last_page_def)
qed

lemma uncapped_returns_iff_stops:
  "(uncapped_loop mk call keep 1 True [] [] \<noteq> None) = (\<exists>k. spec_last_page None mk call k)"
proof
  assume "uncapped_loop mk call keep 1 True [] [] \<noteq> None"
  then have "\<exists>p \<ge> 1. \<not> full_page mk call p" using uncapped_returns_iff by blast
  then obtain q where q: "1 \<le> q \<and> \<not> full_page mk call q" by blast
  define k where "k = (LEAST p. 1 \<le> p \<and> \<not> full_page mk call p)"
  have p: "1 \<le> k \<and> \<not> full_page mk call k"
    unfolding k_def by (rule LeastI[of "\<lambda>p. 1 \<le> p \<and> \<not> full_page mk call p", OF q])
  have least: "\<And>i. 1 \<le> i \<Longrightarrow> i < k \<Longrightarrow> full_page mk call i"
    unfolding k_def using not_less_Least by blast
  have "list_all (full_page mk call) [1..<k]"
    using least by (auto simp: list_all_iff)
  with p show "\<exists>k. spec_last_page None mk call k" by (auto simp: spec_last_page_def)
next
  assume "\<exists>k. spec_last_page None mk call k"
  then obtain k where "spec_last_page None mk call k" by blast
  from uncapped_result[OF this] show "uncapped_loop mk call keep 1 True [] [] \<noteq> None" by simp
qed

text \<open>
  Claim C4, amended. Every paginated fetch asks for pages of 100 items (\<open>per_page: 100\<close>),
  starting at page 1, one page after the other, and asks for the next page only after a page
  of exactly 100 items. The fetches of the Search API (\<open>fetchUserCommits\<close>,
  \<open>fetchUserPRsAcrossRepos\<close>, \<open>fetchUserIssuesAcrossRepos\<close>) stop at page 10 at the latest,
  \<open>fetchUserEvents\<close> at page 3: there always is a last page, they return what the pages up to
  it hold (or the error of the last page), having sent at most 10 (3) requests, and at most
  1000 (300) items when no page has more than 100. \<open>fetchUserPRs\<close> and \<open>fetchRepoPRs\<close> have
  no bound on the pages: they return exactly when some page does not have exactly 100 items
  or cannot be read, and then they have asked for every page up to the first such page and
  return every item of these pages that their filters keep, however many.
\<close>

theorem paginated_fetches:
  "(\<exists>k. spec_last_page (Some 10) (\<lambda>page. SearchCommits (commits_query user opts) 100 page)
          (search_commits oct) k) \<and>
   (\<forall>k. spec_last_page (Some 10) (\<lambda>page. SearchCommits (commits_query user opts) 100 page)
          (search_commits oct) k \<longrightarrow>
        fetchUserCommits oct user opts
          = spec_result_of_pages (\<lambda>page. SearchCommits (commits_query user opts) 100 page)
              (search_commits oct) (\<lambda>data. data) k) \<and>
   length (fst (fetchUserCommits oct user opts)) \<le> 10 \<and>
   ((\<forall>r d. search_commits oct r = Inr d \<longrightarrow> length d \<le> 100) \<longrightarrow>
      (\<forall>xs. snd (fetchUserCommits oct user opts) = Inr xs \<longrightarrow> length xs \<le> 1000)) \<and>
   (\<exists>k. spec_last_page (Some 10) (\<lambda>page. SearchIssuesAndPullRequests (prs_query user opts) 100 page)
          (search_issuesAndPullRequests oct) k) \<and>
   (\<forall>k. spec_last_page (Some 10) (\<lambda>page. SearchIssuesAndPullRequests (prs_query user opts) 100 page)
          (search_issuesAndPullRequests oct) k \<longrightarrow>
        fetchUserPRsAcrossRepos oct user opts
          = spec_result_of_pages (\<lambda>page. SearchIssuesAndPullRequests (prs_query user opts) 100 page)
              (search_issuesAndPullRequests oct) (\<lambda>data. data) k) \<and>
   length (fst (fetchUserPRsAcrossRepos oct user opts)) \<le> 10 \<and>
   (\<exists>k. spec_last_page (Some 10) (\<lambda>page. SearchIssuesAndPullRequests (issues_query user opts) 100 page)
          (search_issuesAndPullRequests oct) k) \<and>
   (\<forall>k. spec_last_page (Some 10) (\<lambda>page. SearchIssuesAndPullRequests (issues_query user opts) 100 page)
          (search_issuesAndPullRequests oct) k \<longrightarrow>
        fetchUserIssuesAcrossRepos oct user opts
          = spec_result_of_pages (\<lambda>page. SearchIssuesAndPullRequests (issues_query user opts) 100 page)
              (search_issuesAndPullRequests oct) (\<lambda>data. data) k) \<and>
   length (fst (fetchUserIssuesAcrossRepos oct user opts)) \<le> 10 \<and>
   ((\<forall>r d. search_issuesAndPullRequests oct r = Inr d \<longrightarrow> length d \<le> 100) \<longrightarrow>
      (\<forall>xs. snd (fetchUserPRsAcrossRepos oct user opts) = Inr xs \<longrightarrow> length xs \<le> 1000) \<and>
      (\<forall>xs. snd (fetchUserIssuesAcrossRepos oct user opts) = Inr xs \<longrightarrow> length xs \<le> 1000)) \<and>
   (\<exists>k. spec_last_page (Some 3) (\<lambda>page. ActivityListPublicEventsForUser user 100 page)
          (activity_listPublicEventsForUser oct) k) \<and>
   (\<forall>k. spec_last_page (Some 3) (\<lambda>page. ActivityListPublicEventsForUser user 100 page)
          (activity_listPublicEventsForUser oct) k \<longrightarrow>
        fetchUserEvents oct user
          = spec_result_of_pages (\<lambda>page. ActivityListPublicEventsForUser user 100 page)
              (activity_listPublicEventsForUser oct) (\<lambda>data. data) k) \<and>
   length (fst (fetchUserEvents oct user)) \<le> 3 \<and>
   ((\<forall>r d. activity_listPublicEventsForUser oct r = Inr d \<longrightarrow> length d \<le> 100) \<longrightarrow>
      (\<forall>xs. snd (fetchUserEvents oct user) = Inr xs \<longrightarrow> length xs \<le> 300)) \<and>
   (\<forall>k. spec_last_page None (\<lambda>page. PullsList owner rp (state_or_all opts) 100 page) (pulls_list oct) k
        \<longrightarrow>
        fetchRepoPRs date oct owner rp opts
          = Some (spec_result_of_pages (\<lambda>page. PullsList owner rp (state_or_all opts) 100 page)
                    (pulls_list oct) (date_filter date opts) k)) \<and>
   (fetchRepoPRs date oct owner rp opts \<noteq> None)
     = (\<exists>k. spec_last_page None (\<lambda>page. PullsList owner rp (state_or_all opts) 100 page)
               (pulls_list oct) k) \<and>
   (\<forall>k. spec_last_page None (\<lambda>page. PullsList owner rp (state_or_all opts) 100 page) (pulls_list oct) k
        \<longrightarrow>
        fetchUserPRs date oct owner rp user opts
          = Some (spec_result_of_pages (\<lambda>page. PullsList owner rp (state_or_all opts) 100 page)
                    (pulls_list oct)
                    (\<lambda>data. date_filter date opts (filter (\<lambda>pr. pull_user_login pr = user) data))
                    k)) \<and>
   (fetchUserPRs date oct owner rp user opts \<noteq> None)
     = (\<exists>k. spec_last_page None (\<lambda>page. PullsList owner rp (state_or_all opts) 100 page)
               (pulls_list oct) k)"
proof -
  have c1: "\<exists>k. spec_last_page (Some 10) (\<lambda>page. SearchCommits (commits_query user opts) 100 page)
          (search_commits oct) k"
    by (rule capped_stops_somewhere) simp
  have c2: "\<forall>k. spec_last_page (Some 10) (\<lambda>page. SearchCommits (commits_query user opts) 100 page)
          (search_commits oct) k \<longrightarrow>
        fetchUserCommits oct user opts
          = spec_result_of_pages (\<lambda>page. SearchCommits (commits_query user opts) 100 page)
              (search_commits oct) (\<lambda>data. data) k"
    unfolding fetchUserCommits_def by (intro allI impI) (rule capped_result)
  have c3: "length (fst (fetchUserCommits oct user opts)) \<le> 10"
    "(\<forall>r d. search_commits oct r = Inr d \<longrightarrow> length d \<le> 100) \<longrightarrow>
      (\<forall>xs. snd (fetchUserCommits oct user opts) = Inr xs \<longrightarrow> length xs \<le> 1000)"
    unfolding fetchUserCommits_def
    using capped_bounds[of 10 "\<lambda>page. SearchCommits (commits_query user opts) 100 page"
            "search_commits oct" "\<lambda>data. data"]
    by simp_all
  have p1: "\<exists>k. spec_last_page (Some 10) (\<lambda>page. SearchIssuesAndPullRequests (prs_query user opts) 100 page)
          (search_issuesAndPullRequests oct) k"
    by (rule capped_stops_somewhere) simp
  have p2: "\<forall>k. spec_last_page (Some 10) (\<lambda>page. SearchIssuesAndPullRequests (prs_query user opts) 100 page)
          (search_issuesAndPullRequests oct) k \<longrightarrow>
        fetchUserPRsAcrossRepos oct user opts
          = spec_result_of_pages (\<lambda>page. SearchIssuesAndPullRequests (prs_query user opts) 100 page)
              (search_issuesAndPullRequests oct) (\<lambda>data. data) k"
    unfolding fetchUserPRsAcrossRepos_def by (intro allI impI) (rule capped_result)
  have p3: "length (fst (fetchUserPRsAcrossRepos oct user opts)) \<le> 10"
    "(\<forall>r d. search_issuesAndPullRequests oct r = Inr d \<longrightarrow> length d \<le> 100) \<longrightarrow>
      (\<forall>xs. snd (fetchUserPRsAcrossRepos oct user opts) = Inr xs \<longrightarrow> length xs \<le> 1000)"
    unfolding fetchUserPRsAcrossRepos_def
    using capped_bounds[of 10 "\<lambda>page. SearchIssuesAndPullRequests (prs_query user opts) 100 page"
            "search_issuesAndPullRequests oct" "\<lambda>data. data"]
    by simp_all
  have i1: "\<exists>k. spec_last_page (Some 10) (\<lambda>page. SearchIssuesAndPullRequests (issues_query user opts) 100 page)
          (search_issuesAndPullRequests oct) k"
    by (rule capped_stops_somewhere) simp
  have i2: "\<forall>k. spec_last_page (Some 10) (\<lambda>page. SearchIssuesAndPullRequests (issues_query user opts) 100 page)
          (search_issuesAndPullRequests oct) k \<longrightarrow>
        fetchUserIssuesAcrossRepos oct user opts
          = spec_result_of_pages (\<lambda>page. SearchIssuesAndPullRequests (issues_query user opts) 100 page)
              (search_issuesAndPullRequests oct) (\<lambda>data. data) k"
    unfolding fetchUserIssuesAcrossRepos_def by (intro allI impI) (rule capped_result)
  have i3: "length (fst (fetchUserIssuesAcrossRepos oct user opts)) \<le> 10"
    "(\<forall>r d. search_issuesAndPullRequests oct r = Inr d \<longrightarrow> length d \<le> 100) \<longrightarrow>
      (\<forall>xs. snd (fetchUserIssuesAcrossRepos oct user opts) = Inr xs \<longrightarrow> length xs \<le> 1000)"
    unfolding fetchUserIssuesAcrossRepos_def
    using capped_bounds[of 10 "\<lambda>page. SearchIssuesAndPullRequests (issues_query user opts) 100 page"
            "search_issuesAndPullRequests oct" "\<lambda>data. data"]
    by simp_all
  have e1: "\<exists>k. spec_last_page (Some 3) (\<lambda>page. ActivityListPublicEventsForUser user 100 page)
          (activity_listPublicEventsForUser oct) k"
    by (rule capped_stops_somewhere) simp
  have e2: "\<forall>k. spec_last_page (Some 3) (\<lambda>page. ActivityListPublicEventsForUser user 100 page)
          (activity_listPublicEventsForUser oct) k \<longrightarrow>
        fetchUserEvents oct user
          = spec_result_of_pages (\<lambda>page. ActivityListPublicEventsForUser user 100 page)
              (activity_listPublicEventsForUser oct) (\<lambda>data. data) k"
    unfolding fetchUserEvents_def by (intro allI impI) (rule capped_result)
  have e3: "length (fst (fetchUserEvents oct user)) \<le> 3"
    "(\<forall>r d. activity_listPublicEventsForUser oct r = Inr d \<longrightarrow> length d \<le> 100) \<longrightarrow>
      (\<forall>xs. snd (fetchUserEvents oct user) = Inr xs \<longrightarrow> length xs \<le> 300)"
    unfolding fetchUserEvents_def
    using capped_bounds[of 3 "\<lambda>page. ActivityListPublicEventsForUser user 100 page"
            "activity_listPublicEventsForUser oct" "\<lambda>data. data"]
    by simp_all
  have r1: "\<forall>k. spec_last_page None (\<lambda>page. PullsList owner rp (state_or_all opts) 100 page) (pulls_list oct) k
        \<longrightarrow>
        fetchRepoPRs date oct owner rp opts
          = Some (spec_result_of_pages (\<lambda>page. PullsList owner rp (state_or_all opts) 100 page)
                    (pulls_list oct)
                    (date_filter date opts)
                    k)"
    unfolding fetchRepoPRs_def by (intro allI impI) (rule uncapped_result)
  have r2: "(fetchRepoPRs date oct owner rp opts \<noteq> None)
     = (\<exists>k. spec_last_page None (\<lambda>page. PullsList owner rp (state_or_all opts) 100 page)
               (pulls_list oct) k)"
    unfolding fetchRepoPRs_def by (rule uncapped_returns_iff_stops)
  have s1: "\<forall>k. spec_last_page None (\<lambda>page. PullsList owner rp (state_or_all opts) 100 page) (pulls_list oct) k
        \<longrightarrow>
        fetchUserPRs date oct owner rp user opts
          = Some (spec_result_of_pages (\<lambda>page. PullsList owner rp (state_or_all opts) 100 page)
                    (pulls_list oct)
                    (\<lambda>data. date_filter date opts (filter (\<lambda>pr. pull_user_login pr = user) data))
                    k)"
    unfolding fetchUserPRs_def by (intro allI impI) (rule uncapped_result)
  have s2: "(fetchUserPRs date oct owner rp user opts \<noteq> None)
     = (\<exists>k. spec_last_page None (\<lambda>page. PullsList owner rp (state_or_all opts) 100 page)
               (pulls_list oct) k)"
    unfolding fetchUserPRs_def by (rule uncapped_returns_iff_stops)
  from p3(2) i3(2)
  have pi: "(\<forall>r d. search_issuesAndPullRequests oct r = Inr d \<longrightarrow> length d \<le> 100) \<longrightarrow>
      (\<forall>xs. snd (fetchUserPRsAcrossRepos oct user opts) = Inr xs \<longrightarrow> length xs \<le> 1000) \<and>
      (\<forall>xs. snd (fetchUserIssuesAcrossRepos oct user opts) = Inr xs \<longrightarrow> length xs \<le> 1000)"
    by blast
  show ?thesis
    by (intro conjI c1 c2 c3 p1 p2 p3(1) i1 i2 i3(1) pi e1 e2 e3 r1 r2 s1 s2)
qed

lemma one_to_ten: "[Suc 0..<11] = [1, 2, 3, 4, 5, 6, 7, 8, 9, 10 :: nat]"
  by (simp add: upt_rec)

lemma one_to_three:
  "[Suc 0..<4] = [1, 2, 3 :: nat]" "[Suc 0..<3] = [1, 2 :: nat]" "[Suc 0..<2] = [1 :: nat]"
  by (simp_all add: upt_rec)

lemma busy_calls:
  "search_commits busy_octokit r = Inr (replicate 100 a_commit)"
  "activity_listPublicEventsForUser busy_octokit r = Inr (replicate 100 an_event)"
  "search_issuesAndPullRequests busy_octokit (SearchIssuesAndPullRequests q n p)
     = (if p = 1 then Inr (replicate 100 (example_item 1 0))
        else if p = 2 then Inr (replicate 30 (example_item 1 0)) else Inr [])"
  "pulls_list busy_octokit (PullsList ow rp st n p)
     = (if p \<le> 2 then Inr (replicate 60 a_pull @ replicate 40 b_pull)
        else if p = 3 then Inr (replicate 30 a_pull) else Inr [])"
  by (simp_all add: busy_octokit_def)

text \<open>
  On the remote side with much to fetch: \<open>fetchUserCommits\<close> stops at the cap, after 10
  full pages and with 1000 items; the search for pull requests stops at its second page,
  which has 30 items; \<open>fetchUserEvents\<close> stops at page 3; \<open>fetchRepoPRs\<close> returns the 230 pull
  requests of the three pages and \<open>fetchUserPRs\<close> the 150 of them that are by the user.
\<close>

theorem paginated_fetches_witness:
  "full_page (\<lambda>page. SearchCommits ''author:octocat'' 100 page) (search_commits busy_octokit) 10 \<and>
   fst (fetchUserCommits busy_octokit ''octocat'' no_options)
     = map (\<lambda>page. SearchCommits ''author:octocat'' 100 page) [1, 2, 3, 4, 5, 6, 7, 8, 9, 10] \<and>
   length (data_of (snd (fetchUserCommits busy_octokit ''octocat'' no_options))) = 1000 \<and>
   length (data_of (snd (fetchUserCommits busy_octokit ''octocat'' no_options))) \<le> 1000 \<and>
   fst (fetchUserPRsAcrossRepos busy_octokit ''octocat'' no_options)
     = [SearchIssuesAndPullRequests ''author:octocat is:pr'' 100 1,
        SearchIssuesAndPullRequests ''author:octocat is:pr'' 100 2] \<and>
   length (data_of (snd (fetchUserPRsAcrossRepos busy_octokit ''octocat'' no_options))) = 130 \<and>
   length (fst (fetchUserEvents busy_octokit ''octocat'')) = 3 \<and>
   length (data_of (snd (fetchUserEvents busy_octokit ''octocat''))) = 300 \<and>
   \<not> full_page (\<lambda>page. PullsList ''octo'' ''demo'' ''all'' 100 page) (pulls_list busy_octokit) 3 \<and>
   map_option fst (fetchRepoPRs (\<lambda>s. 0) busy_octokit ''octo'' ''demo'' no_options)
     = Some [PullsList ''octo'' ''demo'' ''all'' 100 1, PullsList ''octo'' ''demo'' ''all'' 100 2,
             PullsList ''octo'' ''demo'' ''all'' 100 3] \<and>
   map_option (\<lambda>y. length (data_of (snd y)))
     (fetchRepoPRs (\<lambda>s. 0) busy_octokit ''octo'' ''demo'' no_options) = Some 230 \<and>
   map_option (\<lambda>y. (length (fst y), length (data_of (snd y)),
                    list_all (\<lambda>pr. pull_user_login pr = ''octocat'') (data_of (snd y))))
     (fetchUserPRs (\<lambda>s. 0) busy_octokit ''octo'' ''demo'' ''octocat'' no_options)
     = Some (3, 150, True)"
proof -
  note inst = paginated_fetches[of "''octocat''" no_options busy_octokit "''octo''" "''demo''"
               "\<lambda>s. 0"]
  have q: "commits_query ''octocat'' no_options = ''author:octocat''"
    "prs_query ''octocat'' no_options = ''author:octocat is:pr''"
    "state_or_all no_options = ''all''"
    by (simp_all add: commits_query_def prs_query_def org_qualifier_def qualifier_def falsy_def
        no_options_def state_or_all_def)
  have keep: "date_filter (\<lambda>s. 0) no_options = (\<lambda>data. data)"
    by (rule ext) (simp add: date_filter_def no_options_def falsy_def)
  have f10: "full_page (\<lambda>page. SearchCommits ''author:octocat'' 100 page)
               (search_commits busy_octokit) 10"
    by (simp add: full_page_def busy_calls)
  have c: "spec_last_page (Some 10) (\<lambda>page. SearchCommits (commits_query ''octocat'' no_options) 100 page)
             (search_commits busy_octokit) 10"
    by (simp add: spec_last_page_def full_page_def busy_calls list_all_iff)
  from inst c have "fetchUserCommits busy_octokit ''octocat'' no_options
          = spec_result_of_pages (\<lambda>page. SearchCommits (commits_query ''octocat'' no_options) 100 page)
              (search_commits busy_octokit) (\<lambda>data. data) 10"
    by blast
  then have c1: "fst (fetchUserCommits busy_octokit ''octocat'' no_options)
     = map (\<lambda>page. SearchCommits ''author:octocat'' 100 page) [1, 2, 3, 4, 5, 6, 7, 8, 9, 10]"
    "length (data_of (snd (fetchUserCommits busy_octokit ''octocat'' no_options))) = 1000"
    by (simp_all add: spec_result_of_pages_def q busy_calls one_to_ten data_of_def)
  have "\<forall>r d. search_commits busy_octokit r = Inr d \<longrightarrow> length d \<le> 100"
    by (simp add: busy_calls)
  with inst have cb: "\<forall>xs. snd (fetchUserCommits busy_octokit ''octocat'' no_options) = Inr xs
                       \<longrightarrow> length xs \<le> 1000"
    by blast
  have c2: "length (data_of (snd (fetchUserCommits busy_octokit ''octocat'' no_options))) \<le> 1000"
    using cb by (cases "snd (fetchUserCommits busy_octokit ''octocat'' no_options)")
                (simp_all add: data_of_def)
  have p: "spec_last_page (Some 10)
             (\<lambda>page. SearchIssuesAndPullRequests (prs_query ''octocat'' no_options) 100 page)
             (search_issuesAndPullRequests busy_octokit) 2"
    by (simp add: spec_last_page_def full_page_def busy_calls one_to_three)
  from inst p have "fetchUserPRsAcrossRepos busy_octokit ''octocat'' no_options
          = spec_result_of_pages (\<lambda>page. SearchIssuesAndPullRequests (prs_query ''octocat'' no_options) 100 page)
              (search_issuesAndPullRequests busy_octokit) (\<lambda>data. data) 2"
    by blast
  then have p1: "fst (fetchUserPRsAcrossRepos busy_octokit ''octocat'' no_options)
     = [SearchIssuesAndPullRequests ''author:octocat is:pr'' 100 1,
        SearchIssuesAndPullRequests ''author:octocat is:pr'' 100 2]"
    "length (data_of (snd (fetchUserPRsAcrossRepos busy_octokit ''octocat'' no_options))) = 130"
    by (simp_all add: spec_result_of_pages_def q busy_calls one_to_three data_of_def)
  have e: "spec_last_page (Some 3) (\<lambda>page. ActivityListPublicEventsForUser ''octocat'' 100 page)
             (activity_listPublicEventsForUser busy_octokit) 3"
    by (simp add: spec_last_page_def full_page_def busy_calls one_to_three)
  from inst e have "fetchUserEvents busy_octokit ''octocat''
          = spec_result_of_pages (\<lambda>page. ActivityListPublicEventsForUser ''octocat'' 100 page)
              (activity_listPublicEventsForUser busy_octokit) (\<lambda>data. data) 3"
    by blast
  then have e1: "length (fst (fetchUserEvents busy_octokit ''octocat'')) = 3"
    "length (data_of (snd (fetchUserEvents busy_octokit ''octocat''))) = 300"
    by (simp_all add: spec_result_of_pages_def busy_calls one_to_three data_of_def)
  have n3: "\<not> full_page (\<lambda>page. PullsList ''octo'' ''demo'' ''all'' 100 page)
              (pulls_list busy_octokit) 3"
    by (simp add: full_page_def busy_calls)
  have r: "spec_last_page None (\<lambda>page. PullsList ''octo'' ''demo'' (state_or_all no_options) 100 page)
             (pulls_list busy_octokit) 3"
    by (simp add: spec_last_page_def full_page_def busy_calls one_to_three q)
  from inst r have "fetchRepoPRs (\<lambda>s. 0) busy_octokit ''octo'' ''demo'' no_options
          = Some (spec_result_of_pages (\<lambda>page. PullsList ''octo'' ''demo'' (state_or_all no_options) 100 page)
                    (pulls_list busy_octokit) (date_filter (\<lambda>s. 0) no_options) 3)"
    by blast
  then have r1: "map_option fst (fetchRepoPRs (\<lambda>s. 0) busy_octokit ''octo'' ''demo'' no_options)
     = Some [PullsList ''octo'' ''demo'' ''all'' 100 1, PullsList ''octo'' ''demo'' ''all'' 100 2,
             PullsList ''octo'' ''demo'' ''all'' 100 3]"
    "map_option (\<lambda>y. length (data_of (snd y)))
       (fetchRepoPRs (\<lambda>s. 0) busy_octokit ''octo'' ''demo'' no_options) = Some 230"
    by (simp_all add: spec_result_of_pages_def q keep busy_calls one_to_three data_of_def)
  from inst r have "fetchUserPRs (\<lambda>s. 0) busy_octokit ''octo'' ''demo'' ''octocat'' no_options
          = Some (spec_result_of_pages (\<lambda>page. PullsList ''octo'' ''demo'' (state_or_all no_options) 100 page)
                    (pulls_list busy_octokit)
                    (\<lambda>data. date_filter (\<lambda>s. 0) no_options
                              (filter (\<lambda>pr. pull_user_login pr = ''octocat'') data)) 3)"
    by blast
  then have s1: "map_option (\<lambda>y. (length (fst y), length (data_of (snd y)),
                    list_all (\<lambda>pr. pull_user_login pr = ''octocat'') (data_of (snd y))))
     (fetchUserPRs (\<lambda>s. 0) busy_octokit ''octo'' ''demo'' ''octocat'' no_options)
     = Some (3, 150, True)"
    by (simp add: spec_result_of_pages_def q keep busy_calls one_to_three data_of_def a_pull_def b_pull_def
        list_all_iff)
  from f10 c1 c2 p1 e1 n3 r1 s1 show ?thesis by simp
qed

lemma one_to_twelve: "[Suc 0..<13] = [1, 2, 3, 4, 5, 6, 7, 8, 9, 10, 11, 12 :: nat]"
  by (simp add: upt_rec)

text \<open>
  The claim as stated fails for \<open>fetchRepoPRs\<close>: on a repository with 1100 pull requests it
  sends 12 requests and returns 1100 items, and where every page has 100 items it never
  returns.
\<close>

theorem paginated_fetches_counterexample:
  "map_option (\<lambda>y. (length (fst y), length (data_of (snd y))))
     (fetchRepoPRs (\<lambda>s. 0) eleven_pages ''octo'' ''demo'' no_options) = Some (12, 1100) \<and>
   fetchRepoPRs (\<lambda>s. 0) endless_pages ''octo'' ''demo'' no_options = None"
proof -
  let ?mk = "\<lambda>page. PullsList ''octo'' ''demo'' (state_or_all no_options) 100 page"
  have keep: "date_filter (\<lambda>s. 0) no_options = (\<lambda>data. data)"
    by (rule ext) (simp add: date_filter_def no_options_def falsy_def)
  have call: "pulls_list eleven_pages (?mk p)
                = (if p \<le> 11 then Inr (replicate 100 a_pull) else Inr [])" for p
    by (simp add: eleven_pages_def)
  have a: "\<forall>p. 1 \<le> p \<and> p < 1 + 11 \<longrightarrow> full_page ?mk (pulls_list eleven_pages) p"
    by (simp add: full_page_def call)
  have b: "\<not> full_page ?mk (pulls_list eleven_pages) (1 + 11)"
    by (simp add: full_page_def call)
  have "fetchRepoPRs (\<lambda>s. 0) eleven_pages ''octo'' ''demo'' no_options
          = Some (map ?mk [1..<13],
                  Inr (concat (map (\<lambda>p. data_of (pulls_list eleven_pages (?mk p))) [1..<13])))"
    unfolding fetchRepoPRs_def keep
    using uncapped_run[OF a b, of "\<lambda>data. data" "[]" "[]"] by (simp add: call)
  then have one: "map_option (\<lambda>y. (length (fst y), length (data_of (snd y))))
     (fetchRepoPRs (\<lambda>s. 0) eleven_pages ''octo'' ''demo'' no_options) = Some (12, 1100)"
    by (simp add: one_to_twelve call data_of_def)
  have "\<not> (\<exists>p \<ge> 1. \<not> full_page ?mk (pulls_list endless_pages) p)"
    by (simp add: full_page_def endless_pages_def)
  then have two: "fetchRepoPRs (\<lambda>s. 0) endless_pages ''octo'' ''demo'' no_options = None"
    unfolding fetchRepoPRs_def using uncapped_returns_iff by blast
  from one two show ?thesis by blast
qed

section \<open>CSV rows\<close>

lemma escape_quotes_simps:
  "escape_quotes [] = []"
  "escape_quotes (c # cs) = (if c = dquote then dquote # dquote # escape_quotes cs else c # escape_quotes cs)"
  by (simp_all add: escape_quotes_def)

lemma read_quoted_escape:
  assumes "rest = [] \<or> hd rest \<noteq> dquote"
  shows "read_quoted (escape_quotes cell @ dquote # rest) = Some (cell, rest)"
proof (induction cell)
  case Nil
  show ?case using assms by (cases rest) (simp_all add: escape_quotes_simps)
next
  case (Cons c cell)
  show ?case
  proof (cases "c = dquote")
    case True
    then show ?thesis using Cons by (simp add: escape_quotes_simps)
  next
    case False
    obtain d ds where e: "escape_quotes cell @ dquote # rest = d # ds"
      by (cases "escape_quotes cell @ dquote # rest") simp_all
    show ?thesis using False Cons unfolding escape_quotes_simps e by (simp add: e)
  qed
qed

lemma join_Cons: "join sep (x # xs) = (if xs = [] then x else x @ sep @ join sep xs)"
  by (cases xs) simp_all

lemma read_fields_toRow:
  "cells \<noteq> [] \<Longrightarrow> length cells \<le> n \<Longrightarrow> read_fields n (toRow cells) = Some cells"
proof (induction cells arbitrary: n)
  case Nil
  then show ?case by simp
next
  case (Cons c cells)
  then obtain m where n: "n = Suc m" by (cases n) simp_all
  show ?case
  proof (cases "cells = []")
    case True
    have "read_quoted (escape_quotes c @ dquote # []) = Some (c, [])"
      by (rule read_quoted_escape) simp
    then show ?thesis using True by (simp add: n toRow_def)
  next
    case False
    have r: "toRow (c # cells) = dquote # escape_quotes c @ dquote # (CHR '','' # toRow cells)"
      using False by (simp add: toRow_def join_Cons)
    have q: "read_quoted (escape_quotes c @ dquote # (CHR '','' # toRow cells))
               = Some (c, CHR '','' # toRow cells)"
      by (rule read_quoted_escape) (simp add: dquote_def)
    have "read_fields m (toRow cells) = Some cells"
      using Cons.IH[OF False, of m] Cons.prems n by simp
    then show ?thesis unfolding r n by (simp add: q)
  qed
qed

lemma length_toRow: "length cells \<le> Suc (length (toRow cells))"
proof (induction cells)
  case Nil
  then show ?case by simp
next
  case (Cons c cells)
  then show ?case by (cases "cells = []") (simp_all add: toRow_def join_Cons)
qed

lemma read_row_toRow: "cells \<noteq> [] \<Longrightarrow> read_row (toRow cells) = Some cells"
  unfolding read_row_def by (rule read_fields_toRow) (simp_all add: length_toRow)

lemma escape_quotes_id: "dquote \<notin> set s \<Longrightarrow> escape_quotes s = s"
  by (induction s) (auto simp: escape_quotes_simps)

lemma quote_row_escaped: "quote_row (map escape_quotes cells) = toRow cells"
  by (simp add: quote_row_def toRow_def comp_def)

lemma digit_not_quote: "d < 10 \<Longrightarrow> char_of (48 + d :: nat) \<noteq> dquote"
proof
  assume d: "d < 10" and e: "char_of (48 + d) = dquote"
  then have "of_char (char_of (48 + d :: nat)) = (of_char dquote :: nat)" by simp
  then have "(48 + d) mod 256 = 34" by (simp add: dquote_def)
  with d show False by simp
qed

lemma string_of_nat_no_quote: "dquote \<notin> set (string_of_nat n)"
proof (induction n rule: string_of_nat.induct)
  case (1 n)
  show ?case
  proof (cases "n < 10")
    case True
    then show ?thesis using digit_not_quote[of n] by (subst string_of_nat.simps) auto
  next
    case False
    have "n mod 10 < 10" by simp
    then have "char_of (48 + n mod 10) \<noteq> dquote" by (rule digit_not_quote)
    then show ?thesis using False 1 by (subst string_of_nat.simps) auto
  qed
qed

lemma join_no_quote:
  "dquote \<notin> set sep \<Longrightarrow> \<forall>t \<in> set ts. dquote \<notin> set t \<Longrightarrow> dquote \<notin> set (join sep ts)"
  by (induction sep ts rule: join.induct) auto

lemma num_or_empty_no_quote:
  "\<forall>x. dquote \<notin> set (num x) \<Longrightarrow> dquote \<notin> set (num_or_empty num v)"
  by (simp add: num_or_empty_def split: option.splits)

lemma yes_no_no_quote: "dquote \<notin> set (yes_no b)"
  by (simp add: yes_no_def dquote_def)

lemma prRow_escaped:
  assumes "dquote \<notin> set (repo p)" "dquote \<notin> set (state p)" "dquote \<notin> set (url p)"
      and "\<forall>t \<in> set (aiTools p). dquote \<notin> set t"
      and "\<forall>x. dquote \<notin> set (num x)" "\<forall>t. dquote \<notin> set (isoText t)"
  shows "prRow num isoText p = map escape_quotes (pr_cells num isoText p)"
proof -
  have "dquote \<notin> set (join ''; '' (aiTools p))"
    using assms(4) by (intro join_no_quote) (simp_all add: dquote_def)
  then show ?thesis
    using assms num_or_empty_no_quote[OF assms(5)] yes_no_no_quote
    by (simp add: prRow_def pr_cells_def escape_quotes_id)
qed

lemma pr_cells_nonempty: "pr_cells num isoText q \<noteq> []"
  by (simp add: pr_cells_def)

text \<open>
  Claim C7, amended. In the single-file \<open>exportToCSV\<close> every cell goes through \<open>toRow\<close>: it
  is put between double quotes with every double quote inside doubled, so a row reads back
  as its cells, whatever they hold. The multi-file \<open>exportToCSV\<close> puts every cell between
  double quotes but doubles the double quotes of the title cells only: the row of a pull
  request is the escaped one, and reads back as its cells, when no double quote occurs in
  its other cells (repository, state, URL, tool names, numbers, dates).
  \<open>formatPRMetricsCSV\<close> quotes and escapes the title cell only and writes every other cell
  as it is, without quotes.
\<close>

theorem csv_escaping:
  "(cells \<noteq> [] \<longrightarrow> read_row (toRow cells) = Some cells) \<and>
   map read_row (single_file_pr_rows num isoText ps)
     = map (\<lambda>p. Some (pr_cells num isoText p)) ps \<and>
   prRow num isoText p ! 2 = escape_quotes (title p) \<and>
   (dquote \<notin> set (repo p) \<and> dquote \<notin> set (state p) \<and> dquote \<notin> set (url p) \<and>
    (\<forall>t \<in> set (aiTools p). dquote \<notin> set t) \<and>
    (\<forall>x. dquote \<notin> set (num x)) \<and> (\<forall>t. dquote \<notin> set (isoText t)) \<longrightarrow>
      quote_row (prRow num isoText p) = toRow (pr_cells num isoText p) \<and>
      read_row (quote_row (prRow num isoText p)) = Some (pr_cells num isoText p)) \<and>
   metrics_csv_row num isoText m ! 0 = num (of_nat (pm_number m)) \<and>
   metrics_csv_row num isoText m ! 1 = [dquote] @ escape_quotes (pm_title m) @ [dquote] \<and>
   read_row (metrics_csv_row num isoText m ! 1) = Some [pm_title m]"
proof -
  have a: "cells \<noteq> [] \<longrightarrow> read_row (toRow cells) = Some cells"
    using read_row_toRow by blast
  note ne = pr_cells_nonempty
  have b: "map read_row (single_file_pr_rows num isoText ps)
     = map (\<lambda>p. Some (pr_cells num isoText p)) ps"
    by (simp add: single_file_pr_rows_def read_row_toRow[OF ne] comp_def)
  have c: "prRow num isoText p ! 2 = escape_quotes (title p)"
    by (simp add: prRow_def)
  have d: "dquote \<notin> set (repo p) \<and> dquote \<notin> set (state p) \<and> dquote \<notin> set (url p) \<and>
    (\<forall>t \<in> set (aiTools p). dquote \<notin> set t) \<and>
    (\<forall>x. dquote \<notin> set (num x)) \<and> (\<forall>t. dquote \<notin> set (isoText t)) \<longrightarrow>
      quote_row (prRow num isoText p) = toRow (pr_cells num isoText p) \<and>
      read_row (quote_row (prRow num isoText p)) = Some (pr_cells num isoText p)"
  proof (intro impI)
    assume h: "dquote \<notin> set (repo p) \<and> dquote \<notin> set (state p) \<and> dquote \<notin> set (url p) \<and>
      (\<forall>t \<in> set (aiTools p). dquote \<notin> set t) \<and>
      (\<forall>x. dquote \<notin> set (num x)) \<and> (\<forall>t. dquote \<notin> set (isoText t))"
    then have "prRow num isoText p = map escape_quotes (pr_cells num isoText p)"
      by (intro prRow_escaped) simp_all
    then have "quote_row (prRow num isoText p) = toRow (pr_cells num isoText p)"
      by (simp add: quote_row_escaped)
    then show "quote_row (prRow num isoText p) = toRow (pr_cells num isoText p) \<and>
      read_row (quote_row (prRow num isoText p)) = Some (pr_cells num isoText p)"
      using read_row_toRow[OF ne] by simp
  qed
  have e: "metrics_csv_row num isoText m ! 0 = num (of_nat (pm_number m))"
    "metrics_csv_row num isoText m ! 1 = [dquote] @ escape_quotes (pm_title m) @ [dquote]"
    by (simp_all add: metrics_csv_row_def)
  have "read_row (toRow [pm_title m]) = Some [pm_title m]"
    by (rule read_row_toRow) simp
  then have f: "read_row (metrics_csv_row num isoText m ! 1) = Some [pm_title m]"
    unfolding e(2) by (simp add: toRow_def)
  from a b c d e f show ?thesis by blast
qed

text \<open>A title with two double quotes, in a row of the multi-file export.\<close>

theorem csv_escaping_witness:
  "escape_quotes (title quoted_title_pr) = ''say '' @ [dquote, dquote] @ ''hi'' @ [dquote, dquote] \<and>
   prRow num_text iso_text quoted_title_pr ! 2 = escape_quotes (title quoted_title_pr) \<and>
   read_row (quote_row (prRow num_text iso_text quoted_title_pr))
     = Some (pr_cells num_text iso_text quoted_title_pr) \<and>
   read_row (toRow [''a'', [dquote], '','']) = Some [''a'', [dquote], '','']"
proof -
  have t: "escape_quotes (title quoted_title_pr)
             = ''say '' @ [dquote, dquote] @ ''hi'' @ [dquote, dquote]"
    by (simp add: quoted_title_pr_def example_pr_def escape_quotes_def dquote_def)
  have h: "dquote \<notin> set (repo quoted_title_pr) \<and> dquote \<notin> set (state quoted_title_pr) \<and>
    dquote \<notin> set (url quoted_title_pr) \<and>
    (\<forall>t \<in> set (aiTools quoted_title_pr). dquote \<notin> set t) \<and>
    (\<forall>x. dquote \<notin> set (num_text x)) \<and> (\<forall>t. dquote \<notin> set (iso_text t))"
    by (simp add: quoted_title_pr_def example_pr_def dquote_def num_text_def iso_text_def
        string_of_nat_no_quote[unfolded dquote_def])
  have n: "[''a'', [dquote], '',''] \<noteq> []" by simp
  from csv_escaping[of "[''a'', [dquote], '','']" num_text iso_text "[]" quoted_title_pr] h n t
  show ?thesis by blast
qed

lemma char_55: "char_of (55::nat) = CHR ''7''"
  by code_simp

text \<open>
  The claim as stated fails in two places. A row of \<open>formatPRMetricsCSV\<close> starts with the
  number of the PR, without quotes, so the row is not a row of quoted cells; and in the
  multi-file export a double quote in a cell other than the title is not doubled, so the
  row is not the escaped one and does not read back.
\<close>

theorem csv_escaping_counterexample:
  "take 2 (join '','' (metrics_csv_row num_text iso_text (calculatePRMetrics example_fetch))) = ''7,'' \<and>
   read_row (join '','' (metrics_csv_row num_text iso_text (calculatePRMetrics example_fetch))) = None \<and>
   quote_row (prRow num_text iso_text quoted_url_pr)
     \<noteq> toRow (pr_cells num_text iso_text quoted_url_pr) \<and>
   read_row (quote_row (prRow num_text iso_text quoted_url_pr)) = None"
proof -
  have a: "take 2 (join '','' (metrics_csv_row num_text iso_text (calculatePRMetrics example_fetch))) = ''7,''"
    by (simp add: metrics_csv_row_def calculatePRMetrics_def example_fetch_def
        example_details_def Let_def num_text_def iso_text_def char_55 string_of_nat.simps)
  have b: "read_row (join '','' (metrics_csv_row num_text iso_text (calculatePRMetrics example_fetch))) = None"
    by (simp add: read_row_def metrics_csv_row_def calculatePRMetrics_def example_fetch_def
        example_details_def Let_def num_text_def iso_text_def char_55 dquote_def
        string_of_nat.simps)
  have c: "quote_row (prRow num_text iso_text quoted_url_pr)
             \<noteq> toRow (pr_cells num_text iso_text quoted_url_pr)"
    by (simp add: quote_row_def toRow_def pr_cells_def prRow_def quoted_url_pr_def example_pr_def
        num_text_def iso_text_def yes_no_def num_or_empty_def escape_quotes_def dquote_def
        string_of_nat.simps)
  have d: "read_row (quote_row (prRow num_text iso_text quoted_url_pr)) = None"
    by (simp add: read_row_def quote_row_def prRow_def quoted_url_pr_def example_pr_def
        num_text_def iso_text_def yes_no_def num_or_empty_def escape_quotes_def dquote_def
        string_of_nat.simps)
  from a b c d show ?thesis by blast
qed

section \<open>The token\<close>

lemma falsy_or_else: "falsy (or_else a b) = (falsy a \<and> falsy b)"
  by (auto simp: or_else_def)

lemma GitHubClient_throws:
  "falsy token \<Longrightarrow>
   GitHubClient remote token
     = Inl ''GitHub token is required. Set GITHUB_TOKEN env var or use --token flag''"
  by (simp add: GitHubClient_def)

lemma user_command_no_token:
  "falsy (or_else (o_token options) GITHUB_TOKEN) \<Longrightarrow>
   user_command ext remote GITHUB_TOKEN options
     = failed [] ''GitHub token is required. Set GITHUB_TOKEN env var or use --token flag''"
  unfolding user_command_def by (simp add: GitHubClient_throws)

text \<open>
  Claim C9. The constructor of \<open>GitHubClient\<close> throws exactly when the token is missing
  (undefined or empty). When neither \<open>--token\<close> nor \<open>GITHUB_TOKEN\<close> gives a token, each
  command (pr, repo, user, and both versions of summary) ends in its \<open>catch\<close> block with the
  message of the constructor and exit code 1, and has sent no request.
\<close>

theorem missing_token_fails_first:
  "isl (GitHubClient remote token) = falsy token \<and>
   (falsy (o_token options) \<and> falsy GITHUB_TOKEN \<longrightarrow>
      prMetrics date remote GITHUB_TOKEN options
        = Some (failed [] ''GitHub token is required. Set GITHUB_TOKEN env var or use --token flag'') \<and>
      repoStats date remote GITHUB_TOKEN options
        = Some (failed [] ''GitHub token is required. Set GITHUB_TOKEN env var or use --token flag'') \<and>
      userStats remote GITHUB_TOKEN options
        = failed [] ''GitHub token is required. Set GITHUB_TOKEN env var or use --token flag'' \<and>
      summary_v1 remote GITHUB_TOKEN options
        = failed [] ''GitHub token is required. Set GITHUB_TOKEN env var or use --token flag'' \<and>
      summary fetchAssignedIssues fetchReviewRequestedPRs remote GITHUB_TOKEN options
        = failed [] ''GitHub token is required. Set GITHUB_TOKEN env var or use --token flag'') \<and>
   sent_requests (failed [] msg :: 'r outcome) = [] \<and>
   exit_code (failed [] msg :: 'r outcome) = Some 1 \<and>
   printed_error (failed [] msg :: 'r outcome) = Some msg"
proof -
  have a: "isl (GitHubClient remote token) = falsy token"
    by (simp add: GitHubClient_def)
  have b: "falsy (o_token options) \<and> falsy GITHUB_TOKEN \<longrightarrow>
      prMetrics date remote GITHUB_TOKEN options
        = Some (failed [] ''GitHub token is required. Set GITHUB_TOKEN env var or use --token flag'') \<and>
      repoStats date remote GITHUB_TOKEN options
        = Some (failed [] ''GitHub token is required. Set GITHUB_TOKEN env var or use --token flag'') \<and>
      userStats remote GITHUB_TOKEN options
        = failed [] ''GitHub token is required. Set GITHUB_TOKEN env var or use --token flag'' \<and>
      summary_v1 remote GITHUB_TOKEN options
        = failed [] ''GitHub token is required. Set GITHUB_TOKEN env var or use --token flag'' \<and>
      summary fetchAssignedIssues fetchReviewRequestedPRs remote GITHUB_TOKEN options
        = failed [] ''GitHub token is required. Set GITHUB_TOKEN env var or use --token flag''"
  proof (intro impI)
    assume "falsy (o_token options) \<and> falsy GITHUB_TOKEN"
    then have f: "falsy (or_else (o_token options) GITHUB_TOKEN)"
      by (simp add: falsy_or_else)
    note t = GitHubClient_throws[OF f, of remote]
    have 1: "prMetrics date remote GITHUB_TOKEN options
        = Some (failed [] ''GitHub token is required. Set GITHUB_TOKEN env var or use --token flag'')"
      unfolding prMetrics_def t by simp
    have 2: "repoStats date remote GITHUB_TOKEN options
        = Some (failed [] ''GitHub token is required. Set GITHUB_TOKEN env var or use --token flag'')"
      unfolding repoStats_def t by simp
    have 3: "userStats remote GITHUB_TOKEN options
        = failed [] ''GitHub token is required. Set GITHUB_TOKEN env var or use --token flag''"
      "summary_v1 remote GITHUB_TOKEN options
        = failed [] ''GitHub token is required. Set GITHUB_TOKEN env var or use --token flag''"
      unfolding userStats_def summary_v1_def by (rule user_command_no_token[OF f])+
    have 4: "summary fetchAssignedIssues fetchReviewRequestedPRs remote GITHUB_TOKEN options
        = failed [] ''GitHub token is required. Set GITHUB_TOKEN env var or use --token flag''"
      unfolding summary_def t by simp
    from 1 2 3 4 show "prMetrics date remote GITHUB_TOKEN options
        = Some (failed [] ''GitHub token is required. Set GITHUB_TOKEN env var or use --token flag'') \<and>
      repoStats date remote GITHUB_TOKEN options
        = Some (failed [] ''GitHub token is required. Set GITHUB_TOKEN env var or use --token flag'') \<and>
      userStats remote GITHUB_TOKEN options
        = failed [] ''GitHub token is required. Set GITHUB_TOKEN env var or use --token flag'' \<and>
      summary_v1 remote GITHUB_TOKEN options
        = failed [] ''GitHub token is required. Set GITHUB_TOKEN env var or use --token flag'' \<and>
      summary fetchAssignedIssues fetchReviewRequestedPRs remote GITHUB_TOKEN options
        = failed [] ''GitHub token is required. Set GITHUB_TOKEN env var or use --token flag''"
      by simp
  qed
  have c: "sent_requests (failed [] msg :: 'r outcome) = []"
    "exit_code (failed [] msg :: 'r outcome) = Some 1"
    "printed_error (failed [] msg :: 'r outcome) = Some msg"
    by (simp_all add: failed_def)
  from a b c show ?thesis by blast
qed

lemma with_token_requests_are_sent:
  "sent_requests (userStats (\<lambda>t. quiet_octokit) (Some ''tok'') example_options)
     = [SearchIssuesAndPullRequests ''author:octocat is:pr'' 100 1,
        SearchIssuesAndPullRequests ''author:octocat is:issue'' 100 1]"
  by (simp add: userStats_def user_command_def GitHubClient_def or_else_def falsy_def
      example_options_def fetchUserPRsAcrossRepos_def fetchUserIssuesAcrossRepos_def
      capped_loop.simps quiet_octokit_def search_options_def prs_query_def issues_query_def
      org_qualifier_def qualifier_def nothing_found_def Let_def)

text \<open>No token on the command line and none in the environment.\<close>

theorem missing_token_fails_first_witness:
  "falsy (o_token example_options) \<and> falsy None \<and>
   sent_requests (userStats (\<lambda>t. quiet_octokit) None example_options) = [] \<and>
   exit_code (userStats (\<lambda>t. quiet_octokit) None example_options) = Some 1 \<and>
   prMetrics (\<lambda>s. 0) (\<lambda>t. quiet_octokit) None example_options
     = Some (failed [] ''GitHub token is required. Set GITHUB_TOKEN env var or use --token flag'') \<and>
   sent_requests (userStats (\<lambda>t. quiet_octokit) (Some ''tok'') example_options) \<noteq> []"
proof -
  have h: "falsy (o_token example_options) \<and> falsy None"
    by (simp add: falsy_def example_options_def)
  from missing_token_fails_first[of "\<lambda>t. quiet_octokit" None example_options None "\<lambda>s. 0"] h
  have "prMetrics (\<lambda>s. 0) (\<lambda>t. quiet_octokit) None example_options
     = Some (failed [] ''GitHub token is required. Set GITHUB_TOKEN env var or use --token flag'')"
    "userStats (\<lambda>t. quiet_octokit) None example_options
     = failed [] ''GitHub token is required. Set GITHUB_TOKEN env var or use --token flag''"
    by blast+
  then show ?thesis
    using h with_token_requests_are_sent by (simp add: failed_def)
qed

section \<open>Time to merge in the pr command\<close>

lemma days_zero_iff: "(double (of_int k / 86400000) = 0) = (k = 0)"
proof (cases "k = 0")
  case True
  then show ?thesis by simp
next
  case False
  then have "1 \<le> \<bar>k\<bar>" by simp
  then have "(1::rat) \<le> \<bar>of_int k\<bar>" by (metis of_int_1_le_iff of_int_abs)
  then have a: "1 / 86400000 \<le> \<bar>(of_int k :: rat) / 86400000\<bar>" by (simp add: divide_right_mono)
  have "(2::rat) powi (- 1022) \<le> 2 powi (- 27)" by (intro power_int_increasing) simp_all
  also have "\<dots> = 1 / 134217728" by (simp add: power_int_minus_divide)
  also have "\<dots> \<le> 1 / 86400000" by simp
  finally have "2 powi (- 1022) \<le> \<bar>(of_int k :: rat) / 86400000\<bar>" using a by linarith
  from double_nonzero[OF this] False show ?thesis by simp
qed

lemma rounded_days_null_iff:
  "(timeToMergeInDays (pm_metrics (calculatePRMetrics d)) = None)
     = (pd_merged_at (pr d) = None \<or> pd_merged_at (pr d) = Some (pd_created_at (pr d)))"
  by (auto simp: calculatePRMetrics_def Let_def rounded_days_def days_since_def days_zero_iff
      simp del: of_int_diff split: option.splits)

lemma timeToMergeInDays_value:
  assumes "pd_merged_at (pr d) = Some t" "pd_created_at (pr d) < t"
      and "t - pd_created_at (pr d) < 2 ^ 53"
  shows "\<exists>n::nat. timeToMergeInDays (pm_metrics (calculatePRMetrics d))
                    = Some (double (of_nat n / 100)) \<and>
           \<bar>of_nat n - 100 * (of_int (t - pd_created_at (pr d)) / 86400000)\<bar> \<le> (1 / 2 :: rat)"
proof -
  define k where "k = t - pd_created_at (pr d)"
  define x :: rat where "x = of_int k / 86400000"
  have k0: "0 < k" "k < 2 ^ 53" using assms(2,3) by (simp_all add: k_def)
  have x0: "0 \<le> x" using k0 by (simp add: x_def)
  have nz: "double x \<noteq> 0" unfolding x_def using k0 days_zero_iff by simp
  have kn: "(of_int k :: rat) = of_nat (nat k)" using k0 by simp
  have grid: "200 * x * of_nat 432000 = of_nat (nat k)"
    unfolding kn x_def by simp
  have small: "nat k < 2 ^ 53" using k0 by (simp add: nat_less_iff)
  have near: "\<bar>of_nat (toFixed_n (double x) 2) - 100 * x\<bar> \<le> 1 / 2"
    by (rule toFixed_n_double_nearest[OF x0 grid _ small]) simp
  have "(of_int k :: rat) < of_int (2 ^ 53)" using k0(2) by (simp only: of_int_less_iff)
  then have "x < 2 ^ 53" by (simp add: x_def)
  then have "2 * x + 1 / 200 < 10 ^ 21" by simp
  then have big: "double x < 10 ^ 21" using double_upper[OF x0] by linarith
  have "timeToMergeInDays (pm_metrics (calculatePRMetrics d)) = Some (Number_toFixed (double x) 2)"
    using assms(1) nz
    by (simp add: calculatePRMetrics_def Let_def rounded_days_def days_since_def x_def k_def)
  then have e: "timeToMergeInDays (pm_metrics (calculatePRMetrics d))
                  = Some (double (of_nat (toFixed_n (double x) 2) / 100))"
    using Number_toFixed_nonneg[OF double_nonneg[OF x0] big, of 2] by simp
  from e near show ?thesis unfolding x_def k_def by blast
qed

text \<open>
  Claim C2, at the input where the code departs from it. A PR merged in the second of its
  creation has \<open>merged_at\<close> (and \<open>merged: true\<close>), but \<open>calculatePRMetrics\<close> gives it
  \<open>timeToMergeInDays: null\<close> (and \<open>timeToCloseInDays: null\<close>): the difference is 0, and
  \<open>timeToMerge ? ... : null\<close> takes the number 0 for a missing one. The per-PR block of the
  summary command, which tests \<open>merged_at\<close> itself, gives such a PR the time 0.
\<close>

theorem merged_at_once_has_no_time:
  "pd_merged_at (pr example_fetch) = Some 1000 \<and>
   pd_created_at (pr example_fetch) = 1000 \<and>
   pm_merged (calculatePRMetrics example_fetch) = True \<and>
   mergedAt (calculatePRMetrics example_fetch) = Some 1000 \<and>
   timeToMergeInDays (pm_metrics (calculatePRMetrics example_fetch)) = None \<and>
   timeToCloseInDays (pm_metrics (calculatePRMetrics example_fetch)) = None \<and>
   timeToMerge_item (example_item 1 0) = Some 0"
proof -
  have a: "pd_merged_at (pr example_fetch) = Some 1000"
    "pd_created_at (pr example_fetch) = 1000"
    "pd_closed_at (pr example_fetch) = Some 1000"
    by (simp_all add: example_fetch_def example_details_def)
  have b: "pm_merged (calculatePRMetrics example_fetch) = True"
    "mergedAt (calculatePRMetrics example_fetch) = Some 1000"
    "timeToMergeInDays (pm_metrics (calculatePRMetrics example_fetch)) = None"
    "timeToCloseInDays (pm_metrics (calculatePRMetrics example_fetch)) = None"
    by (simp_all add: calculatePRMetrics_def Let_def a rounded_days_def days_since_def)
  have c: "timeToMerge_item (example_item 1 0) = Some 0"
    by (rule quick_merge_rounds_to_zero[of _ 0]) (simp_all add: example_item_def)
  from a b c show ?thesis by simp
qed

end
